(* ===== verification/Prelude.thy ===== *)
theory Prelude
  imports Complex_Main
begin

text \<open>
  Shared ground of the development: the tree a React component renders, the set of
  user actions a rendered tree offers, the states a component can reach under user
  and environment actions, and the interface \<open>ui_component\<close> through which every
  stateful component gets its invariant.  General facts on lists and the rule
  collections of the component theories are here too.
\<close>

section \<open>Rule collections\<close>

named_theorems view_defs \<open>definitions of the rendered trees\<close>

named_theorems widget_defs \<open>definitions of the stateless building blocks of the trees\<close>

section \<open>Rendered trees\<close>

text \<open>
  A component's JSX is translated to a tree of elements.  An element has its tag, the
  attributes that matter to the behaviour (labels, values, variants, link targets;
  inline styles are left out unless the code computes them), its \<open>disabled\<close> flag,
  the event handlers attached to it and its children.  A handler names the event of
  the component it raises; a text input raises an event for every string the user can
  type, a drop-down list only for the values of its options.
\<close>

datatype 'e hook =
    OnClick 'e
  | OnChange "string \<Rightarrow> 'e"
  | OnSelect "string list" "string \<Rightarrow> 'e"
  | OnCheck "bool \<Rightarrow> 'e"
  | OnKey "string list" "string \<Rightarrow> 'e"
  | OnFocus 'e
  | OnMouse string 'e
  | OnSubmit 'e

datatype 'e node =
    Txt string
  | El string "(string \<times> string) list" bool "'e hook list" "'e node list"

type_synonym attrs = "(string \<times> string) list"

abbreviation tag :: "string \<Rightarrow> 'e node list \<Rightarrow> 'e node" where
  "tag t cs \<equiv> El t [] False [] cs"

abbreviation no_node :: "'e node list" where
  "no_node \<equiv> []"

definition show_if :: "bool \<Rightarrow> 'a list \<Rightarrow> 'a list" where
  "show_if b xs = (if b then xs else [])"

primrec fires :: "'e hook \<Rightarrow> 'e set" where
  "fires (OnClick e) = {e}"
| "fires (OnChange f) = range f"
| "fires (OnSelect vs f) = f ` set vs"
| "fires (OnCheck f) = range f"
| "fires (OnKey ks f) = f ` set ks"
| "fires (OnFocus e) = {e}"
| "fires (OnMouse k e) = {e}"
| "fires (OnSubmit e) = {e}"

primrec offers :: "'e node \<Rightarrow> 'e set" where
  "offers (Txt s) = {}"
| "offers (El t a dis hs cs) =
     (if dis then {} else (\<Union>h\<in>set hs. fires h)) \<union> \<Union>(set (map offers cs))"

text \<open>The visible text of a tree, in document order.\<close>

primrec content :: "'e node \<Rightarrow> string" where
  "content (Txt s) = s"
| "content (El t a dis hs cs) = concat (map content cs)"

abbreviation contents :: "'e node list \<Rightarrow> string" where
  "contents ns \<equiv> concat (map content ns)"

abbreviation offers_all :: "'e node list \<Rightarrow> 'e set" where
  "offers_all ns \<equiv> \<Union>(offers ` set ns)"

text \<open>
  A child component's tree raises the child's events; its parent embeds the tree and
  wraps them (or turns them into a callback of its own).
\<close>

primrec map_hook :: "('e \<Rightarrow> 'f) \<Rightarrow> 'e hook \<Rightarrow> 'f hook" where
  "map_hook g (OnClick e) = OnClick (g e)"
| "map_hook g (OnChange f) = OnChange (g \<circ> f)"
| "map_hook g (OnSelect vs f) = OnSelect vs (g \<circ> f)"
| "map_hook g (OnCheck f) = OnCheck (g \<circ> f)"
| "map_hook g (OnKey ks f) = OnKey ks (g \<circ> f)"
| "map_hook g (OnFocus e) = OnFocus (g e)"
| "map_hook g (OnMouse k e) = OnMouse k (g e)"
| "map_hook g (OnSubmit e) = OnSubmit (g e)"

primrec embed :: "('e \<Rightarrow> 'f) \<Rightarrow> 'e node \<Rightarrow> 'f node" where
  "embed g (Txt s) = Txt s"
| "embed g (El t a dis hs cs) = El t a dis (map (map_hook g) hs) (map (embed g) cs)"

lemma fires_map_hook [simp]: "fires (map_hook g h) = g ` fires h"
  by (cases h) auto

lemma offers_embed [simp]: "offers (embed g n) = g ` offers n"
  by (induction n) (auto simp: image_UN image_Union)

lemma content_embed [simp]: "content (embed g n) = content n"
  by (induction n) (auto intro!: arg_cong [where f = concat])

lemma show_if_simps [simp]: "show_if True xs = xs" "show_if False xs = []"
  by (simp_all add: show_if_def)

lemma set_show_if [simp]: "set (show_if b xs) = (if b then set xs else {})"
  by (simp add: show_if_def)

lemma map_show_if: "map f (show_if b xs) = show_if b (map f xs)"
  by (simp add: show_if_def)

text \<open>An optional filter, as the pages apply them.\<close>

lemma if_filter: "(if b then filter P xs else xs) = filter (\<lambda>x. b \<longrightarrow> P x) xs"
  by simp

section \<open>Reachable states of a component\<close>

text \<open>
  A component is a state, a rendered tree of the state and an update function for its
  events.  Two kinds of steps: the user raises an event that the current tree offers,
  or the environment (a timer, a reply of the server, a new value of a property) raises
  one that it may raise in the current state.
\<close>

inductive ui_reach ::
  "('s \<Rightarrow> 'e node) \<Rightarrow> ('s \<Rightarrow> 'e \<Rightarrow> 's) \<Rightarrow> ('s \<Rightarrow> 'e \<Rightarrow> bool) \<Rightarrow> 's \<Rightarrow> 's \<Rightarrow> bool"
  for view :: "'s \<Rightarrow> 'e node" and upd :: "'s \<Rightarrow> 'e \<Rightarrow> 's" and env :: "'s \<Rightarrow> 'e \<Rightarrow> bool"
    and s0 :: 's
  where
    ui_start: "ui_reach view upd env s0 s0"
  | ui_user: "ui_reach view upd env s0 s \<Longrightarrow> e \<in> offers (view s) \<Longrightarrow>
      ui_reach view upd env s0 (upd s e)"
  | ui_env: "ui_reach view upd env s0 s \<Longrightarrow> env s e \<Longrightarrow>
      ui_reach view upd env s0 (upd s e)"

locale ui_component =
  fixes view :: "'s \<Rightarrow> 'e node"
    and upd :: "'s \<Rightarrow> 'e \<Rightarrow> 's"
    and env :: "'s \<Rightarrow> 'e \<Rightarrow> bool"
    and inv :: "'s \<Rightarrow> bool"
  assumes user_inv: "inv s \<Longrightarrow> e \<in> offers (view s) \<Longrightarrow> inv (upd s e)"
    and env_inv: "inv s \<Longrightarrow> env s e \<Longrightarrow> inv (upd s e)"
begin

lemma reach_inv:
  assumes "ui_reach view upd env s0 s" and "inv s0"
  shows "inv s"
  using assms by (induction rule: ui_reach.induct) (auto intro: user_inv env_inv)

end

section \<open>Tables of independent entries\<close>

text \<open>
  Several parts of the operator keep one entry per key and update one key at a time, with an
  output for the caller.  \<open>run_keyed\<close> is a sequence of such updates; the locale says what an
  update does to its own entry and that it leaves the others alone, and concludes that every
  key sees exactly the sequence of its own updates, whatever the interleaving.
\<close>

fun run_keyed :: "('k \<Rightarrow> 'e \<Rightarrow> 's \<Rightarrow> 's \<times> 'o option) \<Rightarrow> ('k \<times> 'e) list \<Rightarrow> 's \<Rightarrow> 's \<times> ('k \<times> 'o) list" where
  "run_keyed step [] s = (s, [])"
| "run_keyed step ((k, e) # es) s =
     (let (s1, out) = step k e s; (s2, outs) = run_keyed step es s1
      in (s2, (case out of None \<Rightarrow> outs | Some x \<Rightarrow> (k, x) # outs)))"

fun run_local :: "('e \<Rightarrow> 'v option \<Rightarrow> 'v option \<times> 'o option) \<Rightarrow> 'e list \<Rightarrow> 'v option \<Rightarrow> 'v option \<times> 'o list" where
  "run_local loc [] v = (v, [])"
| "run_local loc (e # es) v =
     (let (v1, out) = loc e v; (v2, outs) = run_local loc es v1
      in (v2, (case out of None \<Rightarrow> outs | Some x \<Rightarrow> x # outs)))"

definition of_key :: "'k \<Rightarrow> ('k \<times> 'a) list \<Rightarrow> 'a list" where
  "of_key k xs = map snd (filter (\<lambda>x. fst x = k) xs)"

lemma of_key_simps [simp]:
  "of_key k [] = []"
  "of_key k ((k', x) # xs) = (if k' = k then x # of_key k xs else of_key k xs)"
  "of_key k (xs @ ys) = of_key k xs @ of_key k ys"
  by (simp_all add: of_key_def)

lemma run_keyed_step:
  "fst (run_keyed step ((k, e) # es) s) = fst (run_keyed step es (fst (step k e s)))"
  "snd (run_keyed step ((k, e) # es) s) =
     map (Pair k) (case snd (step k e s) of None \<Rightarrow> [] | Some x \<Rightarrow> [x]) @ snd (run_keyed step es (fst (step k e s)))"
  by (simp_all add: case_prod_beta split: option.split)

lemma run_local_step:
  "fst (run_local loc (e # es) v) = fst (run_local loc es (fst (loc e v)))"
  "snd (run_local loc (e # es) v) =
     (case snd (loc e v) of None \<Rightarrow> [] | Some x \<Rightarrow> [x]) @ snd (run_local loc es (fst (loc e v)))"
  by (simp_all add: case_prod_beta split: option.split)

lemma run_local_append:
  "fst (run_local loc (xs @ ys) v) = fst (run_local loc ys (fst (run_local loc xs v)))"
  "snd (run_local loc (xs @ ys) v) =
     snd (run_local loc xs v) @ snd (run_local loc ys (fst (run_local loc xs v)))"
  by (induction xs arbitrary: v) (simp_all add: run_local_step del: run_local.simps(2))

lemma of_key_Pair [simp]: "of_key k (map (Pair k') xs) = (if k' = k then xs else [])"
  by (induction xs) auto

locale keyed_table =
  fixes get :: "'s \<Rightarrow> 'k \<Rightarrow> 'v option"
    and step :: "'k \<Rightarrow> 'e \<Rightarrow> 's \<Rightarrow> 's \<times> 'o option"
    and loc :: "'k \<Rightarrow> 'e \<Rightarrow> 'v option \<Rightarrow> 'v option \<times> 'o option"
    and ok :: "'s \<Rightarrow> bool"
  assumes step_ok: "ok s \<Longrightarrow> ok (fst (step k e s))"
    and step_own: "ok s \<Longrightarrow> get (fst (step k e s)) k = fst (loc k e (get s k))"
    and step_out: "ok s \<Longrightarrow> snd (step k e s) = snd (loc k e (get s k))"
    and step_other: "ok s \<Longrightarrow> k' \<noteq> k \<Longrightarrow> get (fst (step k e s)) k' = get s k'"
begin

lemma run_ok: "ok s \<Longrightarrow> ok (fst (run_keyed step es s))"
  by (induction es arbitrary: s) (auto simp: run_keyed_step step_ok simp del: run_keyed.simps(2))

lemma run_is_local:
  assumes "ok s"
  shows "get (fst (run_keyed step es s)) k = fst (run_local (loc k) (of_key k es) (get s k)) \<and>
    of_key k (snd (run_keyed step es s)) = snd (run_local (loc k) (of_key k es) (get s k))"
  using assms
proof (induction es arbitrary: s)
  case (Cons x es)
  obtain k' e where x: "x = (k', e)" by (cases x)
  show ?case
    using Cons.IH [OF step_ok [OF Cons.prems, of k' e]]
      step_own [OF Cons.prems] step_out [OF Cons.prems] step_other [OF Cons.prems]
    by (simp add: x run_keyed_step run_local_step del: run_keyed.simps(2) run_local.simps(2))
qed simp

end

end
