(* ===== verification/JsLib.thy ===== *)
theory JsLib
  imports Prelude "HOL-Library.Char_ord" "HOL-Library.List_Lexorder" "HOL-Library.Sublist"
    "HOL-Library.Multiset"
begin

text \<open>
  The part of the JavaScript standard library the web interface uses: string
  operations, the decimal form of integers, \<open>Array.prototype.sort\<close>, \<open>find\<close>,
  \<open>slice\<close> and the insertion order of \<open>Set\<close>.  A string is a list of code units;
  the model covers code units below 256, and case mapping and white space are those of
  ECMAScript on that range.
\<close>

section \<open>Strings\<close>

definition lower_unit :: "char \<Rightarrow> char" where
  "lower_unit c =
     (let n = of_char c :: nat
      in if (65 \<le> n \<and> n \<le> 90) \<or> (192 \<le> n \<and> n \<le> 222 \<and> n \<noteq> 215) then char_of (n + 32) else c)"

definition toLowerCase :: "string \<Rightarrow> string" where
  "toLowerCase s = map lower_unit s"

text \<open>Upper case on the ASCII letters, which is all that verdicts consist of.\<close>

definition upper_unit :: "char \<Rightarrow> char" where
  "upper_unit c = (let n = of_char c :: nat in if 97 \<le> n \<and> n \<le> 122 then char_of (n - 32) else c)"

definition toUpperCase :: "string \<Rightarrow> string" where
  "toUpperCase s = map upper_unit s"

definition startsWith :: "string \<Rightarrow> string \<Rightarrow> bool" where
  "startsWith s p \<longleftrightarrow> take (length p) s = p"

fun str_includes :: "string \<Rightarrow> string \<Rightarrow> bool" where
  "str_includes [] q = (q = [])"
| "str_includes (c # s) q = (startsWith (c # s) q \<or> str_includes s q)"

definition white :: "char \<Rightarrow> bool" where
  "white c = ((of_char c :: nat) \<in> {9, 10, 11, 12, 13, 32, 160})"

definition trim :: "string \<Rightarrow> string" where
  "trim s = rev (dropWhile white (rev (dropWhile white s)))"

text \<open>A string in a condition is true when it is not empty.\<close>

abbreviation truthy :: "string \<Rightarrow> bool" where
  "truthy s \<equiv> s \<noteq> []"

text \<open>The operator \<open>||\<close> on strings: the default replaces an empty or absent string.\<close>

definition or_str :: "string \<Rightarrow> string \<Rightarrow> string" where
  "or_str s d = (if truthy s then s else d)"

definition opt_or_str :: "string option \<Rightarrow> string \<Rightarrow> string" where
  "opt_or_str s d = (case s of Some t \<Rightarrow> or_str t d | None \<Rightarrow> d)"

text \<open>The idiom \<open>s || undefined\<close>.\<close>

definition str_opt :: "string \<Rightarrow> string option" where
  "str_opt s = (if truthy s then Some s else None)"

fun join :: "string \<Rightarrow> string list \<Rightarrow> string" where
  "join sep [] = []"
| "join sep [x] = x"
| "join sep (x # y # zs) = x @ sep @ join sep (y # zs)"

lemma startsWith_prefix: "startsWith s p \<longleftrightarrow> prefix p s"
proof
  assume "startsWith s p"
  then have "s = p @ drop (length p) s"
    by (metis append_take_drop_id startsWith_def)
  then show "prefix p s" by (metis prefixI)
qed (auto simp: startsWith_def prefix_def)

lemma startsWith_append [simp]: "startsWith (p @ s) p"
  by (simp add: startsWith_def)

lemma str_includes_sublist: "str_includes s q \<longleftrightarrow> sublist q s"
  by (induction s) (auto simp: startsWith_prefix sublist_Cons_right)

lemma str_includes_Nil [simp]: "str_includes s []"
  by (simp add: str_includes_sublist)

lemma str_includes_refl [simp]: "str_includes s s"
  by (simp add: str_includes_sublist)

lemma trim_eq_Nil: "trim s = [] \<longleftrightarrow> (\<forall>c\<in>set s. white c)"
proof -
  have "trim s = [] \<longleftrightarrow> (\<forall>c\<in>set (dropWhile white s). white c)"
    by (simp add: trim_def)
  also have "\<dots> \<longleftrightarrow> dropWhile white s = []"
    by (metis (no_types) hd_dropWhile hd_in_set empty_iff empty_set)
  finally show ?thesis by simp
qed

lemma or_str_nonempty: "truthy d \<Longrightarrow> truthy (or_str s d)"
  by (simp add: or_str_def)

lemma lower_unit_idem [simp]: "lower_unit (lower_unit c) = lower_unit c"
proof -
  have "of_char c < (256 :: nat)" by simp
  then show ?thesis by (auto simp: lower_unit_def Let_def)
qed

lemma toLowerCase_idem [simp]: "toLowerCase (toLowerCase s) = toLowerCase s"
  by (simp add: toLowerCase_def)

section \<open>Decimal form of integers\<close>

definition digit :: "nat \<Rightarrow> char" where
  "digit d = char_of (48 + d)"

fun dec_nat :: "nat \<Rightarrow> string" where
  "dec_nat n = (if n < 10 then [digit n] else dec_nat (n div 10) @ [digit (n mod 10)])"

declare dec_nat.simps [simp del]

definition dec :: "int \<Rightarrow> string" where
  "dec i = (if i < 0 then CHR ''-'' # dec_nat (nat (- i)) else dec_nat (nat i))"

definition undigit :: "char \<Rightarrow> nat" where
  "undigit c = of_char c - 48"

definition is_digit :: "char \<Rightarrow> bool" where
  "is_digit c \<longleftrightarrow> 48 \<le> (of_char c :: nat) \<and> (of_char c :: nat) \<le> 57"

definition undec_nat :: "string \<Rightarrow> nat" where
  "undec_nat s = foldl (\<lambda>n c. 10 * n + undigit c) 0 s"

lemma undigit_digit [simp]: "d < 10 \<Longrightarrow> undigit (digit d) = d"
  by (simp add: undigit_def digit_def)

lemma is_digit_digit [simp]: "d < 10 \<Longrightarrow> is_digit (digit d)"
  by (simp add: is_digit_def digit_def)

lemma undec_dec_nat [simp]: "undec_nat (dec_nat n) = n"
proof (induction n rule: dec_nat.induct)
  case (1 n)
  show ?case
  proof (cases "n < 10")
    case True
    then show ?thesis by (simp add: dec_nat.simps [of n] undec_nat_def)
  next
    case False
    with 1 have "undec_nat (dec_nat (n div 10)) = n div 10" by simp
    with False show ?thesis
      by (simp add: dec_nat.simps [of n] undec_nat_def)
  qed
qed

lemma dec_nat_inject [simp]: "dec_nat m = dec_nat n \<longleftrightarrow> m = n"
  by (metis undec_dec_nat)

lemma dec_nat_digits: "c \<in> set (dec_nat n) \<Longrightarrow> is_digit c"
proof (induction n rule: dec_nat.induct)
  case (1 n)
  then show ?case
    by (cases "n < 10") (auto simp: dec_nat.simps [of n])
qed

lemma dec_nat_nonempty [simp]: "dec_nat n \<noteq> []"
  by (subst dec_nat.simps) simp

lemma dec_of_nat: "dec (int n) = dec_nat n"
  by (simp add: dec_def)

lemma dec_nat_hd_digit: "is_digit (hd (dec_nat n))"
  by (rule dec_nat_digits [of _ n]) simp

lemma dec_inject [simp]: "dec i = dec j \<longleftrightarrow> i = j"
proof -
  have minus: "hd (dec_nat n) \<noteq> CHR ''-''" for n
    using dec_nat_hd_digit [of n] by (auto simp: is_digit_def)
  have "CHR ''-'' # dec_nat m \<noteq> dec_nat n" for m n
    using minus [of n] by (metis list.sel(1))
  then show ?thesis by (auto simp: dec_def dest: sym)
qed

text \<open>
  \<open>parseInt(s)\<close>: leading white space and a sign are skipped, a prefix \<open>0x\<close> selects
  base 16, and the longest prefix of digits is read; without a digit the result is NaN.
  The result is exact up to $2^{53}$.
\<close>

definition hex_value :: "char \<Rightarrow> nat option" where
  "hex_value c =
     (let n = of_char c :: nat
      in if 48 \<le> n \<and> n \<le> 57 then Some (n - 48)
         else if 65 \<le> n \<and> n \<le> 70 then Some (n - 55)
         else if 97 \<le> n \<and> n \<le> 102 then Some (n - 87) else None)"

definition undec_hex :: "string \<Rightarrow> nat" where
  "undec_hex s = foldl (\<lambda>n c. 16 * n + the (hex_value c)) 0 s"

definition parse_digits :: "string \<Rightarrow> nat option" where
  "parse_digits s =
     (if take 2 s = ''0x'' \<or> take 2 s = ''0X''
      then (let ds = takeWhile (\<lambda>c. hex_value c \<noteq> None) (drop 2 s)
            in if ds = [] then None else Some (undec_hex ds))
      else (let ds = takeWhile is_digit s in if ds = [] then None else Some (undec_nat ds)))"

definition parseInt :: "string \<Rightarrow> int option" where
  "parseInt s =
     (case dropWhile white s of
        [] \<Rightarrow> None
      | c # cs \<Rightarrow>
          if c = CHR ''-'' then map_option (\<lambda>n. - int n) (parse_digits cs)
          else if c = CHR ''+'' then map_option int (parse_digits cs)
          else map_option int (parse_digits (c # cs)))"

lemma digit_not_x: "is_digit c \<Longrightarrow> c \<noteq> CHR ''x'' \<and> c \<noteq> CHR ''X'' \<and> c \<noteq> CHR ''-'' \<and> c \<noteq> CHR ''+'' \<and> \<not> white c"
  by (auto simp: is_digit_def white_def)

lemma parse_digits_dec_nat: "parse_digits (dec_nat n) = Some n"
proof -
  have digits: "\<forall>c\<in>set (dec_nat n). is_digit c" using dec_nat_digits by blast
  have "take 2 (dec_nat n) \<noteq> [CHR ''0'', x]" if "\<not> is_digit x" for x
    using digits that by (metis in_set_takeD list.set_intros)
  moreover have "\<not> is_digit CHR ''x''" "\<not> is_digit CHR ''X''" by (simp_all add: is_digit_def)
  moreover have "takeWhile is_digit (dec_nat n) = dec_nat n"
    using digits by (subst takeWhile_eq_all_conv) blast
  ultimately show ?thesis by (simp add: parse_digits_def Let_def del: takeWhile_eq_all_conv)
qed

lemma parseInt_dec: "parseInt (dec i) = Some i"
proof (cases "i < 0")
  case True
  have "\<not> white CHR ''-''" by (simp add: white_def)
  with True show ?thesis by (simp add: parseInt_def dec_def parse_digits_dec_nat)
next
  case False
  obtain c cs where d: "dec_nat (nat i) = c # cs" by (cases "dec_nat (nat i)") auto
  have "is_digit c" using dec_nat_digits [of c "nat i"] d by simp
  with d False show ?thesis
    using parse_digits_dec_nat [of "nat i"] digit_not_x [of c] by (simp add: parseInt_def dec_def)
qed

section \<open>Arrays\<close>

text \<open>
  \<open>Array.prototype.sort\<close> with a comparison function is a stable sort, and it is fully
  determined when the comparison is consistent.  A comparison that yields NaN counts as
  equal.  The model inserts from the right: an element goes before the first one it does
  not compare greater than.
\<close>

type_synonym 'a comparator = "'a \<Rightarrow> 'a \<Rightarrow> int option"

definition cmp_gt :: "'a comparator \<Rightarrow> 'a \<Rightarrow> 'a \<Rightarrow> bool" where
  "cmp_gt cmp a b = (case cmp a b of Some d \<Rightarrow> d > 0 | None \<Rightarrow> False)"

fun js_insert :: "'a comparator \<Rightarrow> 'a \<Rightarrow> 'a list \<Rightarrow> 'a list" where
  "js_insert cmp x [] = [x]"
| "js_insert cmp x (y # ys) =
     (if cmp_gt cmp x y then y # js_insert cmp x ys else x # y # ys)"

definition js_sort :: "'a comparator \<Rightarrow> 'a list \<Rightarrow> 'a list" where
  "js_sort cmp xs = foldr (js_insert cmp) xs []"

lemma mset_js_insert [simp]: "mset (js_insert cmp x xs) = add_mset x (mset xs)"
  by (induction xs) auto

lemma mset_js_sort [simp]: "mset (js_sort cmp xs) = mset xs"
  by (induction xs) (auto simp: js_sort_def)

lemma set_js_sort [simp]: "set (js_sort cmp xs) = set xs"
  by (metis mset_js_sort set_mset_mset)

lemma length_js_sort [simp]: "length (js_sort cmp xs) = length xs"
  by (metis mset_js_sort size_mset)

lemma distinct_js_sort [simp]: "distinct (js_sort cmp xs) = distinct xs"
  by (metis mset_js_sort mset_eq_imp_distinct_iff)

text \<open>A comparison by a numeric key sorts as the library's stable \<open>sort_key\<close> does.\<close>

lemma js_insert_key:
  assumes "\<And>y. y \<in> set ys \<Longrightarrow> cmp_gt cmp x y \<longleftrightarrow> k y < (k x :: 'k :: linorder)"
  shows "js_insert cmp x ys = insort_key k x ys"
  using assms by (induction ys) (auto simp: not_less)

lemma js_sort_key:
  assumes "\<And>x y. x \<in> set xs \<Longrightarrow> y \<in> set xs \<Longrightarrow> cmp_gt cmp x y \<longleftrightarrow> k y < (k x :: 'k :: linorder)"
  shows "js_sort cmp xs = sort_key k xs"
  using assms
proof (induction xs)
  case Nil
  then show ?case by (simp add: js_sort_def)
next
  case (Cons x xs)
  then have IH: "js_sort cmp xs = sort_key k xs" by simp
  have "js_sort cmp (x # xs) = js_insert cmp x (js_sort cmp xs)"
    by (simp add: js_sort_def)
  also have "\<dots> = insort_key k x (js_sort cmp xs)"
    using Cons.prems by (intro js_insert_key) simp
  finally show ?case by (simp add: IH)
qed

text \<open>\<open>[...new Set(xs)]\<close>: the first occurrence of each element, in order.\<close>

fun js_set :: "'a list \<Rightarrow> 'a list" where
  "js_set [] = []"
| "js_set (x # xs) = x # filter (\<lambda>y. y \<noteq> x) (js_set xs)"

lemma set_js_set [simp]: "set (js_set xs) = set xs"
  by (induction xs) auto

lemma distinct_js_set [simp]: "distinct (js_set xs)"
  by (induction xs) auto

definition slice :: "nat \<Rightarrow> nat \<Rightarrow> 'a list \<Rightarrow> 'a list" where
  "slice i j xs = take (j - i) (drop i xs)"

lemma set_slice: "set (slice i j xs) \<subseteq> set xs"
  by (auto simp: slice_def dest: in_set_takeD in_set_dropD)

lemma length_slice: "length (slice i j xs) = min (j - i) (length xs - i)"
  by (simp add: slice_def)

text \<open>
  \<open>xs.slice(i, j)\<close> with any integers: a negative index counts from the end, and both are
  clamped to the array.
\<close>

definition rel_index :: "nat \<Rightarrow> int \<Rightarrow> nat" where
  "rel_index n i = (if i < 0 then nat (int n + i) else min (nat i) n)"

definition js_slice :: "int \<Rightarrow> int \<Rightarrow> 'a list \<Rightarrow> 'a list" where
  "js_slice i j xs = slice (rel_index (length xs) i) (rel_index (length xs) j) xs"

lemma js_slice_nat: "js_slice (int i) (int j) xs = slice i j xs"
proof (cases "length xs \<le> i")
  case False
  then show ?thesis
    by (cases "j \<le> length xs") (auto simp: js_slice_def rel_index_def slice_def)
qed (auto simp: js_slice_def rel_index_def slice_def)

text \<open>Consecutive slices of length \<open>n\<close> put together give the array back.\<close>

lemma slices_cover: "length xs \<le> k * n \<Longrightarrow> concat (map (\<lambda>p. slice (p * n) ((p + 1) * n) xs) [0..<k]) = xs"
proof (induction k arbitrary: xs)
  case 0
  then show ?case by simp
next
  case (Suc k)
  have shift: "slice (Suc p * n) ((Suc p + 1) * n) xs = slice (p * n) ((p + 1) * n) (drop n xs)" for p
    by (simp add: slice_def algebra_simps)
  have "concat (map (\<lambda>p. slice (p * n) ((p + 1) * n) xs) [0..<Suc k])
      = slice 0 n xs @ concat (map (\<lambda>p. slice (Suc p * n) ((Suc p + 1) * n) xs) [0..<k])"
    by (simp add: upt_conv_Cons del: upt_Suc flip: map_Suc_upt) (simp add: comp_def)
  also have "\<dots> = take n xs @ drop n xs"
    using Suc.IH [of "drop n xs"] Suc.prems by (simp only: shift) (simp add: slice_def)
  finally show ?case by simp
qed

end
