(* ===== verification/Json.thy ===== *)
theory Json
  imports JsLib
begin

text \<open>
  JSON values as the client and the server exchange them.  The numbers of the API are
  integers (counts and thresholds).  An object is the list of its fields in insertion
  order; \<open>JSON.stringify\<close> leaves out fields whose value is undefined, which is what
  \<open>opt_field\<close> expresses.
\<close>

datatype json =
    JNull
  | JBool bool
  | JNum int
  | JStr string
  | JArr "json list"
  | JObj "(string \<times> json) list"

definition opt_field :: "string \<Rightarrow> ('a \<Rightarrow> json) \<Rightarrow> 'a option \<Rightarrow> (string \<times> json) list" where
  "opt_field k f x = (case x of None \<Rightarrow> [] | Some v \<Rightarrow> [(k, f v)])"

text \<open>Property access \<open>v.k\<close> on a value that is not null: \<open>None\<close> is undefined.\<close>

fun jget :: "string \<Rightarrow> json \<Rightarrow> json option" where
  "jget k (JObj fs) = map_of fs k"
| "jget k _ = None"

text \<open>Truth of a property value in a condition.\<close>

fun jtruthy :: "json option \<Rightarrow> bool" where
  "jtruthy None = False"
| "jtruthy (Some JNull) = False"
| "jtruthy (Some (JBool b)) = b"
| "jtruthy (Some (JNum n)) = (n \<noteq> 0)"
| "jtruthy (Some (JStr s)) = truthy s"
| "jtruthy (Some (JArr _)) = True"
| "jtruthy (Some (JObj _)) = True"

text \<open>Conversion to a string, \<open>String(v)\<close>.\<close>

fun jstring :: "json \<Rightarrow> string" where
  "jstring JNull = ''null''"
| "jstring (JBool b) = (if b then ''true'' else ''false'')"
| "jstring (JNum n) = dec n"
| "jstring (JStr s) = s"
| "jstring (JArr vs) = join '','' (map (\<lambda>v. if v = JNull then [] else jstring v) vs)"
| "jstring (JObj _) = ''[object Object]''"

lemma map_of_opt_field:
  "map_of (opt_field k f x @ fs) k' =
     (if k' = k then (case x of None \<Rightarrow> map_of fs k' | Some v \<Rightarrow> Some (f v)) else map_of fs k')"
  by (auto simp: opt_field_def split: option.splits)

lemma opt_field_simps [simp]:
  "opt_field k f None = []" "opt_field k f (Some v) = [(k, f v)]"
  by (simp_all add: opt_field_def)

text \<open>
  Setting a property: an existing one keeps its place, a new one comes last.
\<close>

type_synonym fields = "(string \<times> json) list"

definition put :: "string \<Rightarrow> json \<Rightarrow> fields \<Rightarrow> fields" where
  "put k v fs =
     (if k \<in> fst ` set fs then map (\<lambda>kv. if fst kv = k then (k, v) else kv) fs else fs @ [(k, v)])"

text \<open>\<open>{...base, ...src}\<close>.\<close>

definition spread :: "fields \<Rightarrow> fields \<Rightarrow> fields" where
  "spread base src = fold (\<lambda>kv fs. put (fst kv) (snd kv) fs) src base"

lemma map_of_put [simp]: "map_of (put k v fs) = (map_of fs)(k \<mapsto> v)"
proof -
  have "map_of (map (\<lambda>kv. if fst kv = k then (k, v) else kv) fs) =
      (\<lambda>k'. if k' = k \<and> k \<in> fst ` set fs then Some v else map_of fs k')"
    by (induction fs) auto
  moreover have "map_of fs k = None" if "k \<notin> fst ` set fs" using that by (simp add: map_of_eq_None_iff)
  ultimately show ?thesis by (auto simp: put_def map_add_def fun_eq_iff split: option.splits)
qed

lemma map_of_spread: "distinct (map fst src) \<Longrightarrow> map_of (spread base src) = map_of base ++ map_of src"
proof (induction src arbitrary: base)
  case (Cons kv src)
  then have "fst kv \<notin> dom (map_of src)" by (simp add: dom_map_of_conv_image_fst)
  with Cons show ?case by (simp add: spread_def map_add_upd_left) (simp add: fun_eq_iff map_add_def)
qed (simp add: spread_def)

lemma spread_Nil: "distinct (map fst fs) \<Longrightarrow> spread [] fs = fs"
proof -
  have "distinct (map fst (acc @ fs)) \<Longrightarrow> spread acc fs = acc @ fs" for acc
    by (induction fs arbitrary: acc) (auto simp: spread_def put_def)
  then show "distinct (map fst fs) \<Longrightarrow> spread [] fs = fs" by (metis append_Nil)
qed

end
