(* ===== verification/Client.thy ===== *)
theory Client
  imports Json
begin

text \<open>
  \<open>ui/src/api/client.ts\<close>: the data types of the API, the token in the browser's local
  storage, the function \<open>request\<close> that every call goes through, and the calls.
  \<open>fetch\<close> belongs to the browser and is a parameter: it answers a request with a
  response or a network error.
\<close>

section \<open>Data types of the API\<close>

record CheckItem =
  ci_id :: string
  ci_description :: string
  ci_severity :: string

record ScheduleConfig =
  fullScan :: string
  failedRescan :: "string option"

record SecretRef =
  sr_name :: string
  sr_key :: "string option"

record LLMConfig =
  provider :: string
  model :: "string option"
  secretRef :: SecretRef

record ObjectMeta =
  m_name :: string
  m_namespace :: string
  m_creationTimestamp :: string

record PolicySpec =
  schedule :: ScheduleConfig
  llm :: LLMConfig
  checks :: "CheckItem list"
  targetNamespaces :: "string list option"
  notification :: "json option"
  escalationThreshold :: "int option"

record Summary =
  s_total :: int
  s_pass :: int
  s_warn :: int
  s_fail :: int

record Condition =
  c_type :: string
  c_status :: string
  c_reason :: string
  c_message :: string
  c_lastTransitionTime :: "string option"

record PolicyStatus =
  lastFullScanTime :: "string option"
  lastRescanTime :: "string option"
  lastResultName :: "string option"
  p_summary :: "Summary option"
  conditions :: "Condition list option"

record ChecklistPolicy =
  p_metadata :: ObjectMeta
  p_spec :: PolicySpec
  p_status :: "PolicyStatus option"

record ToolCall =
  toolName :: string
  tc_input :: json
  tc_output :: string

record CheckResult =
  cr_id :: string
  cr_description :: string
  cr_verdict :: string
  cr_reasoning :: string
  cr_severity :: "string option"
  cr_failedSince :: "string option"
  cr_toolCalls :: "ToolCall list option"

record ResultSpec =
  policyRef :: string
  scanType :: string
  startedAt :: string
  completedAt :: "string option"
  r_checks :: "CheckResult list option"
  r_summary :: "Summary option"

record ChecklistResult =
  r_metadata :: ObjectMeta
  r_spec :: ResultSpec
  r_phase :: "string option"

section \<open>The browser\<close>

record browser =
  token :: "string option"
  location :: string

definition isAuthenticated :: "browser \<Rightarrow> bool" where
  "isAuthenticated b \<longleftrightarrow> token b \<noteq> None"

definition logout :: "browser \<Rightarrow> browser" where
  "logout b = b\<lparr>token := None, location := ''/login''\<rparr>"

definition setToken :: "string \<Rightarrow> browser \<Rightarrow> browser" where
  "setToken t b = b\<lparr>token := Some t\<rparr>"

definition getToken :: "browser \<Rightarrow> string option" where
  "getToken b = token b"

section \<open>Requests\<close>

record http_request =
  rq_url :: string
  rq_method :: string
  rq_headers :: "(string \<times> string) list"
  rq_body :: "json option"

record http_response =
  rs_status :: nat
  rs_statusText :: string
  rs_json :: "json option"

definition rs_ok :: "http_response \<Rightarrow> bool" where
  "rs_ok r \<longleftrightarrow> 200 \<le> rs_status r \<and> rs_status r \<le> 299"

text \<open>
  What a call throws: the network error of \<open>fetch\<close>, the errors \<open>request\<close> makes, a
  response that is no JSON, a property read on null.
\<close>

datatype api_error =
    FetchError string
  | ApiError string
  | SyntaxError
  | TypeError

type_synonym fetch = "http_request \<Rightarrow> string + http_response"

record options =
  o_method :: string
  o_body :: "json option"

definition no_options :: options where
  "no_options = \<lparr>o_method = ''GET'', o_body = None\<rparr>"

definition request_headers :: "browser \<Rightarrow> (string \<times> string) list" where
  "request_headers b =
     (''Content-Type'', ''application/json'') #
     (case getToken b of
        Some t \<Rightarrow> (if truthy t then [(''Authorization'', ''Bearer '' @ t)] else [])
      | None \<Rightarrow> [])"

definition api_base :: "string option \<Rightarrow> string" where
  "api_base vite_api_base = opt_or_str vite_api_base ''/api/v1''"

text \<open>The message of a failed call: the \<open>error\<close> field of the body or the status text.\<close>

definition response_error :: "http_response \<Rightarrow> api_error" where
  "response_error resp =
     (case rs_json resp of
        None \<Rightarrow> ApiError (rs_statusText resp)
      | Some JNull \<Rightarrow> TypeError
      | Some v \<Rightarrow>
          (case jget ''error'' v of
             Some e \<Rightarrow> ApiError (if jtruthy (Some e) then jstring e else rs_statusText resp)
           | None \<Rightarrow> ApiError (rs_statusText resp)))"

text \<open>
  \<open>request\<close> builds its request from the browser state at the call and treats the
  outcome in the browser state at the time the response arrives; the two states may
  differ, because \<open>fetch\<close> is awaited in between.
\<close>

definition send_request :: "string option \<Rightarrow> browser \<Rightarrow> string \<Rightarrow> options \<Rightarrow> http_request" where
  "send_request base b path opts =
     \<lparr>rq_url = api_base base @ path, rq_method = o_method opts,
      rq_headers = request_headers b, rq_body = o_body opts\<rparr>"

definition receive_response ::
  "browser \<Rightarrow> string \<Rightarrow> string + http_response \<Rightarrow> browser \<times> (api_error + json)" where
  "receive_response b path outcome =
     (case outcome of
        Inl msg \<Rightarrow> (b, Inl (FetchError msg))
      | Inr resp \<Rightarrow>
          if rs_status resp = 401 \<and> \<not> startsWith path ''/login'' \<and> \<not> startsWith path ''/auth/''
          then (b\<lparr>token := None, location := ''/login''\<rparr>, Inl (ApiError ''unauthorized''))
          else if \<not> rs_ok resp then (b, Inl (response_error resp))
          else (case rs_json resp of
                  None \<Rightarrow> (b, Inl SyntaxError)
                | Some v \<Rightarrow> (b, Inr v)))"

definition request ::
  "string option \<Rightarrow> fetch \<Rightarrow> browser \<Rightarrow> string \<Rightarrow> options \<Rightarrow> browser \<times> (api_error + json)" where
  "request base fetch b path opts = receive_response b path (fetch (send_request base b path opts))"

section \<open>Bodies\<close>

definition json_of_check :: "CheckItem \<Rightarrow> json" where
  "json_of_check c =
     JObj [(''id'', JStr (ci_id c)), (''description'', JStr (ci_description c)),
           (''severity'', JStr (ci_severity c))]"

definition json_of_schedule :: "ScheduleConfig \<Rightarrow> json" where
  "json_of_schedule s =
     JObj ((''fullScan'', JStr (fullScan s)) # opt_field ''failedRescan'' JStr (failedRescan s))"

definition json_of_secretRef :: "SecretRef \<Rightarrow> json" where
  "json_of_secretRef r = JObj ((''name'', JStr (sr_name r)) # opt_field ''key'' JStr (sr_key r))"

definition json_of_llm :: "LLMConfig \<Rightarrow> json" where
  "json_of_llm l =
     JObj ((''provider'', JStr (provider l)) # opt_field ''model'' JStr (model l) @
           [(''secretRef'', json_of_secretRef (secretRef l))])"

definition json_of_spec :: "PolicySpec \<Rightarrow> json" where
  "json_of_spec s =
     JObj ([(''schedule'', json_of_schedule (schedule s)), (''llm'', json_of_llm (llm s)),
            (''checks'', JArr (map json_of_check (checks s)))]
           @ opt_field ''targetNamespaces'' (\<lambda>ns. JArr (map JStr ns)) (targetNamespaces s)
           @ opt_field ''notification'' (\<lambda>v. v) (notification s)
           @ opt_field ''escalationThreshold'' JNum (escalationThreshold s))"

text \<open>A policy as the form creates it: its metadata holds the name and the namespace only.\<close>

record PolicyDraft =
  d_name :: string
  d_namespace :: string
  d_spec :: PolicySpec

definition json_of_draft :: "PolicyDraft \<Rightarrow> json" where
  "json_of_draft d =
     JObj [(''metadata'', JObj [(''name'', JStr (d_name d)), (''namespace'', JStr (d_namespace d))]),
           (''spec'', json_of_spec (d_spec d))]"

section \<open>The calls\<close>

type_synonym api_call = "string \<times> options"

abbreviation get_opts :: options where
  "get_opts \<equiv> no_options"

definition login :: "string \<Rightarrow> string \<Rightarrow> api_call" where
  "login username password =
     (''/login'', \<lparr>o_method = ''POST'',
        o_body = Some (JObj [(''username'', JStr username), (''password'', JStr password)])\<rparr>)"

definition authCheck :: api_call where
  "authCheck = (''/auth/check'', get_opts)"

definition getInfo :: api_call where
  "getInfo = (''/info'', get_opts)"

definition listNamespaces :: api_call where
  "listNamespaces = (''/cluster/namespaces'', get_opts)"

definition listResources :: "string option \<Rightarrow> api_call" where
  "listResources ns =
     (''/cluster/resources'' @ (case ns of Some n \<Rightarrow> (if truthy n then ''?ns='' @ n else []) | None \<Rightarrow> []),
      get_opts)"

definition listPolicies :: "string option \<Rightarrow> api_call" where
  "listPolicies namespace =
     (''/policies'' @ (case namespace of
                         Some n \<Rightarrow> (if truthy n then ''?namespace='' @ n else []) | None \<Rightarrow> []),
      get_opts)"

definition getPolicy :: "string \<Rightarrow> string \<Rightarrow> api_call" where
  "getPolicy namespace name = (''/policies/'' @ namespace @ ''/'' @ name, get_opts)"

definition createPolicy :: "PolicyDraft \<Rightarrow> api_call" where
  "createPolicy policy = (''/policies'', \<lparr>o_method = ''POST'', o_body = Some (json_of_draft policy)\<rparr>)"

definition updatePolicy :: "string \<Rightarrow> string \<Rightarrow> PolicySpec \<Rightarrow> api_call" where
  "updatePolicy namespace name spec =
     (''/policies/'' @ namespace @ ''/'' @ name,
      \<lparr>o_method = ''PUT'', o_body = Some (json_of_spec spec)\<rparr>)"

definition deletePolicy :: "string \<Rightarrow> string \<Rightarrow> api_call" where
  "deletePolicy namespace name =
     (''/policies/'' @ namespace @ ''/'' @ name, \<lparr>o_method = ''DELETE'', o_body = None\<rparr>)"

text \<open>
  \<open>URLSearchParams.toString()\<close>: the form encoding.  A code unit from 128 on is encoded
  as its two UTF-8 bytes.
\<close>

definition hex_digit :: "nat \<Rightarrow> char" where
  "hex_digit d = (if d < 10 then char_of (48 + d) else char_of (55 + d))"

definition percent :: "nat \<Rightarrow> string" where
  "percent n = [CHR ''%'', hex_digit (n div 16), hex_digit (n mod 16)]"

definition form_safe :: "nat \<Rightarrow> bool" where
  "form_safe n \<longleftrightarrow> (48 \<le> n \<and> n \<le> 57) \<or> (65 \<le> n \<and> n \<le> 90) \<or> (97 \<le> n \<and> n \<le> 122)
     \<or> n \<in> {42, 45, 46, 95}"

definition form_unit :: "char \<Rightarrow> string" where
  "form_unit c =
     (let n = of_char c :: nat
      in if form_safe n then [c]
         else if n = 32 then ''+''
         else if n < 128 then percent n
         else percent (192 + n div 64) @ percent (128 + n mod 64))"

definition form_encode :: "string \<Rightarrow> string" where
  "form_encode s = concat (map form_unit s)"

definition form_query :: "(string \<times> string) list \<Rightarrow> string" where
  "form_query ps = join ''&'' (map (\<lambda>(k, v). form_encode k @ ''='' @ form_encode v) ps)"

definition listResults :: "string option \<Rightarrow> string option \<Rightarrow> api_call" where
  "listResults namespace policy =
     (let params = (case namespace of Some n \<Rightarrow> (if truthy n then [(''namespace'', n)] else []) | None \<Rightarrow> [])
                 @ (case policy of Some p \<Rightarrow> (if truthy p then [(''policy'', p)] else []) | None \<Rightarrow> []);
          qs = form_query params
      in (''/results'' @ (if truthy qs then ''?'' @ qs else []), get_opts))"

definition getResult :: "string \<Rightarrow> string \<Rightarrow> api_call" where
  "getResult namespace name = (''/results/'' @ namespace @ ''/'' @ name, get_opts)"

definition runNow :: "string \<Rightarrow> string \<Rightarrow> api_call" where
  "runNow namespace name =
     (''/run/'' @ namespace @ ''/'' @ name, \<lparr>o_method = ''POST'', o_body = None\<rparr>)"

definition getSettings :: api_call where
  "getSettings = (''/settings'', get_opts)"

definition updateSettings :: "json \<Rightarrow> api_call" where
  "updateSettings settings = (''/settings'', \<lparr>o_method = ''PUT'', o_body = Some settings\<rparr>)"

section \<open>Properties of \<open>request\<close>\<close>

text \<open>The paths of the calls that must not end the session on a 401.\<close>

lemma auth_exempt_calls:
  "startsWith (fst (login u p)) ''/login''" "startsWith (fst authCheck) ''/auth/''"
  by (simp_all add: login_def authCheck_def startsWith_def)

lemma request_session_cases:
  "fst (receive_response b path outcome) = b \<or> fst (receive_response b path outcome) = logout b"
  by (auto simp: receive_response_def logout_def split: sum.splits option.splits)

text \<open>
  a call succeeds exactly when the response has a 2xx status and a JSON body, and
  then returns that body; every other outcome is an error.
\<close>

theorem request_success:
  "snd (receive_response b path outcome) = Inr v \<longleftrightarrow>
     (\<exists>resp. outcome = Inr resp \<and> rs_ok resp \<and> rs_json resp = Some v)"
  by (auto simp: receive_response_def rs_ok_def split: sum.splits option.splits if_splits)

text \<open>
  the error a caller sees for the error bodies the API server writes: an object with
  a non-empty \<open>error\<close> text gives exactly that text.
\<close>

theorem request_error_message:
  assumes "\<not> rs_ok resp" and "rs_json resp = Some (JObj [(''error'', JStr msg)])" and "truthy msg"
    and "rs_status resp \<noteq> 401 \<or> startsWith path ''/login'' \<or> startsWith path ''/auth/''"
  shows "receive_response b path (Inr resp) = (b, Inl (ApiError msg))"
  using assms by (auto simp: receive_response_def response_error_def)

theorem request_error_message_witness:
  "receive_response \<lparr>token = None, location = ''/login''\<rparr> (fst (login ''admin'' ''x''))
     (Inr \<lparr>rs_status = 401, rs_statusText = ''Unauthorized'',
           rs_json = Some (JObj [(''error'', JStr ''invalid credentials'')])\<rparr>)
   = (\<lparr>token = None, location = ''/login''\<rparr>, Inl (ApiError ''invalid credentials''))"
  by (rule request_error_message) (simp_all add: rs_ok_def auth_exempt_calls)

text \<open>
  the bearer token travels with a call exactly when a non-empty token is stored.
\<close>

theorem request_bearer:
  "map_of (rq_headers (send_request base b path opts)) ''Authorization'' =
     (case token b of Some t \<Rightarrow> if truthy t then Some (''Bearer '' @ t) else None | None \<Rightarrow> None)"
  by (simp add: send_request_def request_headers_def getToken_def split: option.splits)

end
