(* ===== verification/Icons.thy ===== *)
theory Icons
  imports JsLib
begin

text \<open>
  \<open>ui/src/components/Icons.tsx\<close>: the icons as trees of SVG elements.
\<close>

record icon_props =
  ip_size :: "nat option"
  ip_className :: "string option"

abbreviation no_props :: icon_props where
  "no_props \<equiv> \<lparr>ip_size = None, ip_className = None\<rparr>"

abbreviation sized :: "nat \<Rightarrow> icon_props" where
  "sized n \<equiv> \<lparr>ip_size = Some n, ip_className = None\<rparr>"

definition svg_icon :: "attrs \<Rightarrow> nat \<Rightarrow> icon_props \<Rightarrow> 'e node list \<Rightarrow> 'e node" where
  "svg_icon style def_size p shapes =
     (let sz = dec_nat (case ip_size p of Some n \<Rightarrow> n | None \<Rightarrow> def_size)
      in El ''svg'' ([(''width'', sz), (''height'', sz), (''viewBox'', ''0 0 24 24'')] @ style
             @ (case ip_className p of Some c \<Rightarrow> [(''className'', c)] | None \<Rightarrow> [])) False [] shapes)"

abbreviation shape :: "string \<Rightarrow> attrs \<Rightarrow> 'e node" where
  "shape t as \<equiv> El t as False [] []"

definition line_style :: attrs where
  "line_style = [(''fill'', ''none''), (''stroke'', ''currentColor''), (''strokeWidth'', ''1.75''), (''strokeLinecap'', ''round''), (''strokeLinejoin'', ''round'')]"

definition solid_style :: attrs where
  "solid_style = [(''fill'', ''currentColor'')]"

definition cross_style :: attrs where
  "cross_style = [(''fill'', ''none''), (''stroke'', ''currentColor''), (''strokeWidth'', ''2''), (''strokeLinecap'', ''round'')]"

definition arrow_style :: attrs where
  "arrow_style = [(''fill'', ''none''), (''stroke'', ''currentColor''), (''strokeWidth'', ''2''), (''strokeLinecap'', ''round''), (''strokeLinejoin'', ''round'')]"

definition IconDashboard :: "icon_props \<Rightarrow> 'e node" where
  "IconDashboard p =
     svg_icon line_style 20 p
       [shape ''rect'' [(''x'', ''3''), (''y'', ''3''), (''width'', ''7''), (''height'', ''7''), (''rx'', ''1'')],
        shape ''rect'' [(''x'', ''14''), (''y'', ''3''), (''width'', ''7''), (''height'', ''4''), (''rx'', ''1'')],
        shape ''rect'' [(''x'', ''14''), (''y'', ''11''), (''width'', ''7''), (''height'', ''10''), (''rx'', ''1'')],
        shape ''rect'' [(''x'', ''3''), (''y'', ''14''), (''width'', ''7''), (''height'', ''7''), (''rx'', ''1'')]]"

definition IconPolicy :: "icon_props \<Rightarrow> 'e node" where
  "IconPolicy p =
     svg_icon line_style 20 p
       [shape ''path'' [(''d'', ''M12 2L3 7v6c0 5.55 3.84 10.74 9 12 5.16-1.26 9-6.45 9-12V7l-9-5z'')],
        shape ''path'' [(''d'', ''M9 12l2 2 4-4'')]]"

definition IconResult :: "icon_props \<Rightarrow> 'e node" where
  "IconResult p =
     svg_icon line_style 20 p
       [shape ''path'' [(''d'', ''M14 2H6a2 2 0 00-2 2v16a2 2 0 002 2h12a2 2 0 002-2V8z'')],
        shape ''polyline'' [(''points'', ''14 2 14 8 20 8'')],
        shape ''line'' [(''x1'', ''16''), (''y1'', ''13''), (''x2'', ''8''), (''y2'', ''13'')],
        shape ''line'' [(''x1'', ''16''), (''y1'', ''17''), (''x2'', ''8''), (''y2'', ''17'')],
        shape ''polyline'' [(''points'', ''10 9 9 9 8 9'')]]"

definition IconSettings :: "icon_props \<Rightarrow> 'e node" where
  "IconSettings p =
     svg_icon line_style 20 p
       [shape ''circle'' [(''cx'', ''12''), (''cy'', ''12''), (''r'', ''3'')],
        shape ''path'' [(''d'',
           ''M19.4 15a1.65 1.65 0 00.33 1.82l.06.06a2 2 0 010 2.83 2 2 0 01-2.83 0l-.06-.06a1.65 1.65 0 00-1.82-.33 ''
           @ ''1.65 1.65 0 00-1 1.51V21a2 2 0 01-4 0v-.09A1.65 1.65 0 009 19.4a1.65 1.65 0 00-1.82.33l-.06.06a2 2 0 ''
           @ ''01-2.83-2.83l.06-.06A1.65 1.65 0 004.68 15a1.65 1.65 0 00-1.51-1H3a2 2 0 010-4h.09A1.65 1.65 0 004.6 ''
           @ ''9a1.65 1.65 0 00-.33-1.82l-.06-.06a2 2 0 012.83-2.83l.06.06A1.65 1.65 0 009 4.68a1.65 1.65 0 ''
           @ ''001-1.51V3a2 2 0 014 0v.09a1.65 1.65 0 001 1.51 1.65 1.65 0 001.82-.33l.06-.06a2 2 0 012.83 ''
           @ ''2.83l-.06.06A1.65 1.65 0 0019.4 9a1.65 1.65 0 001.51 1H21a2 2 0 010 4h-.09a1.65 1.65 0 00-1.51 1z'')]]"

definition IconPlay :: "icon_props \<Rightarrow> 'e node" where
  "IconPlay p =
     svg_icon solid_style 16 p
       [shape ''polygon'' [(''points'', ''5 3 19 12 5 21 5 3'')]]"

definition IconPlus :: "icon_props \<Rightarrow> 'e node" where
  "IconPlus p =
     svg_icon cross_style 16 p
       [shape ''line'' [(''x1'', ''12''), (''y1'', ''5''), (''x2'', ''12''), (''y2'', ''19'')],
        shape ''line'' [(''x1'', ''5''), (''y1'', ''12''), (''x2'', ''19''), (''y2'', ''12'')]]"

definition IconTrash :: "icon_props \<Rightarrow> 'e node" where
  "IconTrash p =
     svg_icon line_style 16 p
       [shape ''polyline'' [(''points'', ''3 6 5 6 21 6'')],
        shape ''path'' [(''d'', ''M19 6v14a2 2 0 01-2 2H7a2 2 0 01-2-2V6m3 0V4a2 2 0 012-2h4a2 2 0 012 2v2'')]]"

definition IconChevron :: "icon_props \<Rightarrow> 'e node" where
  "IconChevron p =
     svg_icon arrow_style 16 p
       [shape ''polyline'' [(''points'', ''9 18 15 12 9 6'')]]"

definition IconBack :: "icon_props \<Rightarrow> 'e node" where
  "IconBack p =
     svg_icon arrow_style 16 p
       [shape ''polyline'' [(''points'', ''15 18 9 12 15 6'')]]"

definition IconFilter :: "icon_props \<Rightarrow> 'e node" where
  "IconFilter p =
     svg_icon line_style 16 p
       [shape ''polygon'' [(''points'', ''22 3 2 3 10 12.46 10 19 14 21 14 12.46 22 3'')]]"

definition IconX :: "icon_props \<Rightarrow> 'e node" where
  "IconX p =
     svg_icon cross_style 16 p
       [shape ''line'' [(''x1'', ''18''), (''y1'', ''6''), (''x2'', ''6''), (''y2'', ''18'')],
        shape ''line'' [(''x1'', ''6''), (''y1'', ''6''), (''x2'', ''18''), (''y2'', ''18'')]]"

definition IconHelp :: "icon_props \<Rightarrow> 'e node" where
  "IconHelp p =
     svg_icon line_style 16 p
       [shape ''circle'' [(''cx'', ''12''), (''cy'', ''12''), (''r'', ''10'')],
        shape ''path'' [(''d'', ''M9.09 9a3 3 0 0 1 5.83 1c0 2-3 3-3 3'')],
        shape ''line'' [(''x1'', ''12''), (''y1'', ''17''), (''x2'', ''12.01''), (''y2'', ''17'')]]"

definition IconEdit :: "icon_props \<Rightarrow> 'e node" where
  "IconEdit p =
     svg_icon line_style 16 p
       [shape ''path'' [(''d'', ''M11 4H4a2 2 0 0 0-2 2v14a2 2 0 0 0 2 2h14a2 2 0 0 0 2-2v-7'')],
        shape ''path'' [(''d'', ''M18.5 2.5a2.121 2.121 0 0 1 3 3L12 15l-4 1 1-4 9.5-9.5z'')]]"

definition IconClock :: "icon_props \<Rightarrow> 'e node" where
  "IconClock p =
     svg_icon line_style 16 p
       [shape ''circle'' [(''cx'', ''12''), (''cy'', ''12''), (''r'', ''10'')],
        shape ''polyline'' [(''points'', ''12 6 12 12 16 14'')]]"

lemma offers_svg_icon: "offers (svg_icon style n p shapes) = offers_all shapes"
  by (simp add: svg_icon_def Let_def)

lemma offers_icons [simp]:
  "offers (IconDashboard p) = {}" "offers (IconPolicy p) = {}" "offers (IconResult p) = {}" "offers (IconSettings p) = {}"
  "offers (IconPlay p) = {}" "offers (IconPlus p) = {}" "offers (IconTrash p) = {}" "offers (IconChevron p) = {}"
  "offers (IconBack p) = {}" "offers (IconFilter p) = {}" "offers (IconX p) = {}" "offers (IconHelp p) = {}"
  "offers (IconEdit p) = {}" "offers (IconClock p) = {}"
  by (simp_all add: offers_svg_icon IconDashboard_def IconPolicy_def IconResult_def IconSettings_def IconPlay_def IconPlus_def
      IconTrash_def IconChevron_def IconBack_def IconFilter_def IconX_def IconHelp_def IconEdit_def IconClock_def)

end
