(* ===== verification/Widgets.thy ===== *)
theory Widgets
  imports Icons
begin

text \<open>
  The building blocks under \<open>ui/src/components\<close>: badges, cards, buttons, form fields,
  empty and loading states, the modal dialog, the help tooltip and the error boundary.
  A stateless block is a function to a tree; inline styles appear where the code chooses
  between values.
\<close>

section \<open>Badge.tsx\<close>

datatype BadgeVariant = V_pass | V_warn | V_fail | V_info | V_neutral

primrec badge_background :: "BadgeVariant \<Rightarrow> string" where
  "badge_background V_pass = ''var(--success-muted)''"
| "badge_background V_warn = ''var(--warning-muted)''"
| "badge_background V_fail = ''var(--danger-muted)''"
| "badge_background V_info = ''var(--accent-muted)''"
| "badge_background V_neutral = ''var(--border)''"

primrec badge_color :: "BadgeVariant \<Rightarrow> string" where
  "badge_color V_pass = ''var(--success)''"
| "badge_color V_warn = ''var(--warning)''"
| "badge_color V_fail = ''var(--danger)''"
| "badge_color V_info = ''var(--accent)''"
| "badge_color V_neutral = ''var(--text-secondary)''"

definition Badge :: "BadgeVariant \<Rightarrow> 'e node list \<Rightarrow> 'e node" where
  "Badge variant children =
     El ''span'' [(''background'', badge_background variant), (''color'', badge_color variant)]
       False [] children"

definition verdict_variant :: "string \<Rightarrow> BadgeVariant" where
  "verdict_variant v =
     (if v = ''PASS'' then V_pass else if v = ''WARN'' then V_warn
      else if v = ''FAIL'' then V_fail else V_neutral)"

definition VerdictBadge :: "string \<Rightarrow> 'e node" where
  "VerdictBadge verdict = (let v = toUpperCase verdict in Badge (verdict_variant v) [Txt v])"

definition SeverityBadge :: "string \<Rightarrow> 'e node" where
  "SeverityBadge severity = Badge V_neutral [Txt ''severity: '', Txt severity]"

section \<open>Card.tsx\<close>

definition Card :: "'e option \<Rightarrow> bool \<Rightarrow> string \<Rightarrow> 'e node list \<Rightarrow> 'e node" where
  "Card onClick hoverable className children =
     (let isInteractive = (onClick \<noteq> None \<or> hoverable)
      in El ''div''
           ((''className'', (if isInteractive then ''card-hoverable'' else []) @ '' '' @ className) #
            (if isInteractive then [(''cursor'', ''pointer'')] else []))
           False (case onClick of Some e \<Rightarrow> [OnClick e] | None \<Rightarrow> []) children)"

abbreviation plain_card :: "'e node list \<Rightarrow> 'e node" where
  "plain_card \<equiv> Card None False []"

definition StatCard :: "string \<Rightarrow> string \<Rightarrow> string option \<Rightarrow> 'e node" where
  "StatCard value label color =
     plain_card
       [El ''div'' [(''color'', opt_or_str color ''var(--text-primary)'')] False [] [Txt value],
        tag ''div'' [Txt label]]"

section \<open>Button.tsx\<close>

datatype ButtonVariant = primary | secondary | danger | ghost

datatype ButtonSize = sm | md | lg

primrec variantStyles :: "ButtonVariant \<Rightarrow> attrs" where
  "variantStyles primary = [(''background'', ''var(--accent)''), (''color'', ''#fff''), (''border'', ''none'')]"
| "variantStyles secondary = [(''background'', ''transparent''), (''color'', ''var(--text-secondary)''),
     (''border'', ''1px solid var(--border)'')]"
| "variantStyles danger = [(''background'', ''var(--danger-muted)''), (''color'', ''var(--danger)''),
     (''border'', ''1px solid rgba(239,68,68,0.2)'')]"
| "variantStyles ghost = [(''background'', ''transparent''), (''color'', ''var(--text-secondary)''),
     (''border'', ''none'')]"

primrec sizeStyles :: "ButtonSize \<Rightarrow> attrs" where
  "sizeStyles sm = [(''padding'', ''5px 12px''), (''fontSize'', ''12''), (''borderRadius'', ''var(--radius-sm)'')]"
| "sizeStyles md = [(''padding'', ''8px 16px''), (''fontSize'', ''13''), (''borderRadius'', ''var(--radius-md)'')]"
| "sizeStyles lg = [(''padding'', ''10px 20px''), (''fontSize'', ''14''), (''borderRadius'', ''var(--radius-md)'')]"

definition Button :: "ButtonVariant \<Rightarrow> ButtonSize \<Rightarrow> 'e node list \<Rightarrow> bool \<Rightarrow> 'e \<Rightarrow> 'e node list \<Rightarrow> 'e node" where
  "Button variant sz icon disabled onClick children =
     El ''button''
       ([(''cursor'', if disabled then ''not-allowed'' else ''pointer''),
         (''opacity'', if disabled then ''0.5'' else ''1'')] @ variantStyles variant @ sizeStyles sz)
       disabled [OnClick onClick] (icon @ children)"

section \<open>EmptyState.tsx\<close>

definition EmptyState :: "'e node option \<Rightarrow> string \<Rightarrow> string option \<Rightarrow> 'e node option \<Rightarrow> 'e node" where
  "EmptyState icon title description action =
     tag ''div''
       ((case icon of Some i \<Rightarrow> [tag ''div'' [i]] | None \<Rightarrow> []) @
        [tag ''div'' [Txt title]] @
        (case description of Some d \<Rightarrow> show_if (truthy d) [tag ''div'' [Txt d]] | None \<Rightarrow> []) @
        (case action of Some a \<Rightarrow> [tag ''div'' [a]] | None \<Rightarrow> []))"

definition Spinner :: "nat \<Rightarrow> 'e node" where
  "Spinner sz = El ''div'' [(''width'', dec_nat sz), (''height'', dec_nat sz)] False [] []"

definition LoadingState :: "'e node" where
  "LoadingState = tag ''div'' [Spinner 28]"

section \<open>FormField.tsx\<close>

definition FormField :: "'e node list \<Rightarrow> 'e node list \<Rightarrow> 'e node" where
  "FormField label children = tag ''div'' (tag ''label'' label # children)"

definition Input :: "attrs \<Rightarrow> string \<Rightarrow> bool \<Rightarrow> (string \<Rightarrow> 'e) \<Rightarrow> 'e node" where
  "Input as value disabled onChange =
     El ''input'' (as @ [(''value'', value), (''className'', ''dtm-input '')]) disabled [OnChange onChange] []"

definition TextArea :: "attrs \<Rightarrow> string \<Rightarrow> (string \<Rightarrow> 'e) \<Rightarrow> 'e node" where
  "TextArea as value onChange =
     El ''textarea'' (as @ [(''value'', value), (''className'', ''dtm-input dtm-textarea '')]) False
       [OnChange onChange] []"

definition Select :: "string \<Rightarrow> (string \<Rightarrow> 'e) \<Rightarrow> (string \<times> string) list \<Rightarrow> 'e node" where
  "Select value onChange options =
     El ''select'' [(''value'', value), (''className'', ''dtm-input dtm-select '')] False
       [OnSelect (map fst options) onChange]
       (map (\<lambda>(v, label). El ''option'' [(''value'', v)] False [] [Txt label]) options)"

section \<open>HelpTooltip.tsx, from outside\<close>

text \<open>
  A help tooltip handles its events itself and reports nothing to the component it stands
  in; there it is a leaf with its text.  Its inside is in theory \<open>Tooltip\<close>.
\<close>

definition Help :: "string \<Rightarrow> 'e node" where
  "Help text = El ''HelpTooltip'' [(''text'', text)] False [] []"

section \<open>Modal.tsx\<close>

text \<open>
  The key handler listens on the window while the dialog is open; a click on the dark
  background or the close button, or the Escape key, calls \<open>onClose\<close>.  Clicks inside the
  dialog do not reach the background (\<open>stopPropagation\<close>).
\<close>

definition Modal :: "bool \<Rightarrow> 'e \<Rightarrow> string \<Rightarrow> 'e node list \<Rightarrow> 'e node list" where
  "Modal isOpen onClose title children =
     show_if isOpen
       [El ''div'' [(''role'', ''dialog''), (''aria-modal'', ''true''), (''aria-label'', title)] False
          [OnClick onClose, OnKey [''Escape''] (\<lambda>_. onClose)]
          [tag ''div''
             [tag ''div''
                [tag ''h3'' [Txt title],
                 El ''button'' [(''aria-label'', ''Close dialog'')] False [OnClick onClose] [IconX (sized 18)]],
              tag ''div'' children]]]"

section \<open>ErrorBoundary.tsx\<close>

record boundary =
  hasError :: bool
  b_error :: "string option"

definition init_boundary :: boundary where
  "init_boundary = \<lparr>hasError = False, b_error = None\<rparr>"

definition getDerivedStateFromError :: "string \<Rightarrow> boundary" where
  "getDerivedStateFromError message = \<lparr>hasError = True, b_error = Some message\<rparr>"

datatype 'e boundary_event = TryAgain | Child 'e

definition ErrorBoundary_view :: "boundary \<Rightarrow> 'e node list \<Rightarrow> 'e boundary_event node" where
  "ErrorBoundary_view s children =
     (if hasError s then
        tag ''div''
          [tag ''div'' [Txt ''Something went wrong''],
           tag ''div'' [Txt (opt_or_str (b_error s) ''An unexpected error occurred.'')],
           El ''button'' [] False [OnClick TryAgain] [Txt ''Try Again'']]
      else tag ''div'' (map (embed Child) children))"

fun boundary_step :: "boundary \<Rightarrow> 'e boundary_event \<Rightarrow> boundary" where
  "boundary_step s TryAgain = s\<lparr>hasError := False, b_error := None\<rparr>"
| "boundary_step s (Child e) = s"

section \<open>Actions offered by the blocks\<close>

declare Badge_def [widget_defs] VerdictBadge_def [widget_defs] SeverityBadge_def [widget_defs]
  StatCard_def [widget_defs] Card_def [widget_defs] Spinner_def [widget_defs]
  LoadingState_def [widget_defs] FormField_def [widget_defs] Input_def [widget_defs]
  TextArea_def [widget_defs] Select_def [widget_defs] Help_def [widget_defs]

lemma offers_leaves [simp]:
  "offers (VerdictBadge v) = {}" "offers (SeverityBadge v) = {}"
  "offers (StatCard v l c) = {}" "offers LoadingState = {}" "offers (Help t) = {}"
  by (simp_all add: widget_defs Let_def)

lemma offers_Badge [simp]: "offers (Badge v cs) = offers_all cs"
  by (simp add: widget_defs)

lemma offers_Card [simp]: "offers (Card c h n cs) = set_option c \<union> offers_all cs"
  by (cases c) (simp_all add: Card_def Let_def)

lemma offers_Button [simp]:
  "offers (Button v z i d e cs) = (if d then {} else {e}) \<union> offers_all i \<union> offers_all cs"
  by (auto simp: Button_def)

lemma offers_EmptyState [simp]:
  "offers (EmptyState i t d a) = (\<Union>n\<in>set_option i. offers n) \<union> (\<Union>n\<in>set_option a. offers n)"
  by (auto simp: EmptyState_def split: option.splits)

lemma offers_fields_widgets [simp]:
  "offers (FormField l cs) = offers_all l \<union> offers_all cs"
  "offers (Input as v d f) = (if d then {} else range f)"
  "offers (TextArea as v f) = range f"
  "offers (Select v f os) = f ` fst ` set os"
  by (auto simp: widget_defs)

lemma offers_Modal [simp]:
  "offers_all (Modal isOpen c t cs) = (if isOpen then insert c (offers_all cs) else {})"
  by (auto simp: Modal_def)

end
