(* ===== verification/Combobox.thy ===== *)
theory Combobox
  imports Widgets
begin

text \<open>
  \<open>ui/src/components/Combobox.tsx\<close>: a searchable selection control.  The selected values
  are a property owned by the parent; the component reports a change through \<open>onChange\<close>,
  and the parent passes the reported list back.  The model keeps the two together: \<open>cvalue\<close>
  is the property, and a call of \<open>onChange\<close> replaces it.
\<close>

section \<open>Properties, state, operations\<close>

record combo_props =
  cp_options :: "string list"
  cp_multi :: bool
  cp_placeholder :: "string option"
  cp_disabled :: bool
  cp_loading :: bool

record combo =
  cvalue :: "string list"
  copen :: bool
  csearch :: string

datatype combo_event =
    Outside
  | Trigger
  | Typed string
  | Focus
  | Key string
  | Toggle string
  | Remove string

definition filtered_options :: "combo_props \<Rightarrow> combo \<Rightarrow> string list" where
  "filtered_options p s =
     filter (\<lambda>opt. str_includes (toLowerCase opt) (toLowerCase (csearch s))) (cp_options p)"

definition close_combo :: "combo \<Rightarrow> combo" where
  "close_combo s = s\<lparr>copen := False, csearch := []\<rparr>"

definition toggle :: "combo_props \<Rightarrow> string \<Rightarrow> combo \<Rightarrow> combo" where
  "toggle p item s =
     (if cp_multi p then
        if item \<in> set (cvalue s) then s\<lparr>cvalue := filter (\<lambda>v. v \<noteq> item) (cvalue s)\<rparr>
        else s\<lparr>cvalue := cvalue s @ [item]\<rparr>
      else close_combo (s\<lparr>cvalue := [item]\<rparr>))"

definition combo_remove :: "string \<Rightarrow> combo \<Rightarrow> combo" where
  "combo_remove item s = s\<lparr>cvalue := filter (\<lambda>v. v \<noteq> item) (cvalue s)\<rparr>"

definition on_key :: "combo_props \<Rightarrow> string \<Rightarrow> combo \<Rightarrow> combo" where
  "on_key p k s =
     (let s' = (if k = ''Escape'' then close_combo s else s)
      in if k = ''Backspace'' \<and> csearch s = [] \<and> cp_multi p \<and> length (cvalue s) > 0
         then combo_remove (last (cvalue s)) s' else s')"

fun combo_step :: "combo_props \<Rightarrow> combo \<Rightarrow> combo_event \<Rightarrow> combo" where
  "combo_step p s Outside = close_combo s"
| "combo_step p s Trigger = (if \<not> cp_disabled p then s\<lparr>copen := True\<rparr> else s)"
| "combo_step p s (Typed t) = s\<lparr>csearch := t, copen := True\<rparr>"
| "combo_step p s Focus = s\<lparr>copen := True\<rparr>"
| "combo_step p s (Key k) = on_key p k s"
| "combo_step p s (Toggle item) = toggle p item s"
| "combo_step p s (Remove item) = combo_remove item s"

section \<open>The rendered control\<close>

definition wrapStyle :: attrs where
  "wrapStyle =
     [(''position'', ''relative'')]"

definition triggerStyle :: "bool \<Rightarrow> attrs" where
  "triggerStyle disabled =
     [(''display'', ''flex''), (''alignItems'', ''center''), (''gap'', ''4''),
      (''cursor'', if disabled then ''not-allowed'' else ''pointer''), (''flexWrap'', ''wrap''), (''minHeight'', ''38''),
      (''padding'', ''4px 12px''), (''opacity'', if disabled then ''0.5'' else ''1'')]"

definition inputStyle :: attrs where
  "inputStyle =
     [(''flex'', ''1''), (''minWidth'', ''60''), (''background'', ''transparent''), (''border'', ''none''),
      (''outline'', ''none''), (''color'', ''var(--text-primary)''), (''fontSize'', ''13''), (''fontFamily'', ''inherit''),
      (''padding'', ''5px 0'')]"

definition tagsStyle :: attrs where
  "tagsStyle =
     [(''display'', ''flex''), (''flexWrap'', ''wrap''), (''gap'', ''4'')]"

definition tagStyle :: attrs where
  "tagStyle =
     [(''display'', ''inline-flex''), (''alignItems'', ''center''), (''gap'', ''4''), (''padding'', ''2px 8px''),
      (''fontSize'', ''12''), (''background'', ''var(--accent-muted, rgba(99,102,241,0.15))''),
      (''color'', ''var(--accent)''), (''borderRadius'', ''var(--radius-sm)''), (''lineHeight'', ''18px'')]"

definition tagRemoveStyle :: attrs where
  "tagRemoveStyle =
     [(''cursor'', ''pointer''), (''fontSize'', ''14''), (''lineHeight'', ''1''), (''opacity'', ''0.7'')]"

definition dropdownStyle :: attrs where
  "dropdownStyle =
     [(''position'', ''absolute''), (''top'', ''100%''), (''left'', ''0''), (''right'', ''0''), (''marginTop'', ''4''),
      (''background'', ''var(--bg-card)''), (''border'', ''1px solid var(--border)''),
      (''borderRadius'', ''var(--radius-md)''), (''maxHeight'', ''200''), (''overflowY'', ''auto''), (''zIndex'', ''1000''),
      (''boxShadow'', ''0 8px 24px rgba(0,0,0,0.4)'')]"

definition emptyStyle :: attrs where
  "emptyStyle =
     [(''padding'', ''12px 16px''), (''fontSize'', ''13''), (''color'', ''var(--text-tertiary)''),
      (''textAlign'', ''center'')]"

definition optionStyle :: "bool \<Rightarrow> attrs" where
  "optionStyle selected =
     [(''display'', ''flex''), (''alignItems'', ''center''), (''gap'', ''8''), (''padding'', ''8px 12px''),
      (''cursor'', ''pointer''),
      (''background'', if selected then ''var(--accent-muted, rgba(99,102,241,0.1))'' else ''transparent''),
      (''transition'', ''background 0.1s'')]"

definition checkboxStyle :: "bool \<Rightarrow> attrs" where
  "checkboxStyle checked =
     [(''width'', ''16''), (''height'', ''16''), (''borderRadius'', ''3''),
      (''border'', if checked then ''1px solid var(--accent)'' else ''1px solid var(--border)''),
      (''background'', if checked then ''var(--accent)'' else ''transparent''), (''display'', ''flex''),
      (''alignItems'', ''center''), (''justifyContent'', ''center''), (''color'', ''#fff''), (''flexShrink'', ''0''),
      (''fontSize'', ''10'')]"

definition displayText :: "combo_props \<Rightarrow> combo \<Rightarrow> string" where
  "displayText p s = (if cp_multi p then [] else case cvalue s of [] \<Rightarrow> [] | v # _ \<Rightarrow> v)"

definition combo_placeholder :: "combo_props \<Rightarrow> combo \<Rightarrow> string" where
  "combo_placeholder p s =
     (if length (cvalue s) = 0 then opt_or_str (cp_placeholder p) ''Select...''
      else if cp_multi p then ''Search...'' else [])"

definition combo_option :: "combo_props \<Rightarrow> combo \<Rightarrow> string \<Rightarrow> combo_event node" where
  "combo_option p s opt =
     (let selected = (opt \<in> set (cvalue s))
      in El ''div'' (optionStyle selected)
           False [OnClick (Toggle opt)]
           (show_if (cp_multi p)
              [El ''span'' (checkboxStyle selected) False []
                 (show_if selected [El ''span'' [(''fontSize'', ''10'')] False [] [Txt ''check mark'']])] @
            [El ''span'' [(''fontSize'', ''13'')] False [] [Txt opt]]))"

definition combo_dropdown :: "combo_props \<Rightarrow> combo \<Rightarrow> combo_event node" where
  "combo_dropdown p s =
     El ''div'' dropdownStyle False []
       (if cp_loading p then [El ''div'' emptyStyle False [] [Txt ''Loading...'']]
        else if length (filtered_options p s) = 0
        then [El ''div'' emptyStyle False [] [Txt (if truthy (csearch s) then ''No matches'' else ''No options'')]]
        else map (combo_option p s) (filtered_options p s))"

definition combo_tags :: "combo \<Rightarrow> combo_event node" where
  "combo_tags s =
     El ''div'' tagsStyle False []
       (map (\<lambda>v. El ''span'' tagStyle False [] [Txt v, El ''span'' tagRemoveStyle False [OnClick (Remove v)] [Txt ''x'']]) (cvalue s))"

definition combo_arrow :: "'e node" where
  "combo_arrow =
     El ''svg'' [(''width'', ''12''), (''height'', ''12''), (''viewBox'', ''0 0 12 12''), (''flexShrink'', ''0''), (''opacity'', ''0.4'')] False []
       [shape ''path'' [(''d'', ''M3 4.5L6 7.5L9 4.5''), (''stroke'', ''currentColor''), (''strokeWidth'', ''1.5''), (''fill'', ''none''),
          (''strokeLinecap'', ''round''), (''strokeLinejoin'', ''round'')]]"

lemma offers_combo_arrow [simp]: "offers combo_arrow = {}"
  by (simp add: combo_arrow_def)

definition Combobox_view :: "combo_props \<Rightarrow> combo \<Rightarrow> combo_event node" where
  "Combobox_view p s =
     El ''div'' wrapStyle False []
       (El ''div'' ((''className'', ''dtm-input'') # triggerStyle (cp_disabled p)) False [OnClick Trigger]
          (show_if (cp_multi p \<and> length (cvalue s) > 0) [combo_tags s] @
           [El ''input''
              ([(''value'', if copen s then csearch s else displayText p s), (''placeholder'', combo_placeholder p s)] @ inputStyle)
              (cp_disabled p)
              [OnChange Typed, OnFocus Focus, OnKey [''Escape'', ''Backspace''] Key] [],
            combo_arrow])
        # show_if (copen s) [combo_dropdown p s])"

text \<open>The environment: a mouse press outside the control, which the document listens to.\<close>

definition combo_env :: "combo \<Rightarrow> combo_event \<Rightarrow> bool" where
  "combo_env s e \<longleftrightarrow> e = Outside"

definition mounted_combo :: "string list \<Rightarrow> combo" where
  "mounted_combo value = \<lparr>cvalue = value, copen = False, csearch = []\<rparr>"

abbreviation combo_reach :: "combo_props \<Rightarrow> string list \<Rightarrow> combo \<Rightarrow> bool" where
  "combo_reach p value \<equiv> ui_reach (Combobox_view p) (combo_step p) combo_env (mounted_combo value)"

section \<open>What the control offers\<close>

lemma offers_combo_option [simp]: "offers (combo_option p s opt) = {Toggle opt}"
  by (simp add: combo_option_def Let_def show_if_def)

lemma offers_combo_dropdown:
  "offers (combo_dropdown p s) = (if cp_loading p then {} else Toggle ` set (filtered_options p s))"
  by (auto simp: combo_dropdown_def)

lemma offers_combo_tags [simp]: "offers (combo_tags s) = Remove ` set (cvalue s)"
  by (auto simp: combo_tags_def)

lemma offers_Combobox:
  "offers (Combobox_view p s) =
     insert Trigger
       ((if cp_multi p then Remove ` set (cvalue s) else {})
        \<union> (if cp_disabled p then {} else range Typed \<union> {Focus, Key ''Escape'', Key ''Backspace''})
        \<union> (if copen s \<and> \<not> cp_loading p then Toggle ` set (filtered_options p s) else {}))"
  by (auto simp: Combobox_view_def offers_combo_dropdown show_if_def)

section \<open>Invariants\<close>

text \<open>
  The selection never holds a value twice; every selected value was selected from the start
  or is an option; and a control for one value holds at most one.
\<close>

definition combo_inv :: "combo_props \<Rightarrow> string list \<Rightarrow> combo \<Rightarrow> bool" where
  "combo_inv p v0 s \<longleftrightarrow>
     distinct (cvalue s) \<and> set (cvalue s) \<subseteq> set v0 \<union> set (cp_options p)
     \<and> (\<not> cp_multi p \<longrightarrow> length (cvalue s) \<le> 1)"

lemma filtered_options_subset: "set (filtered_options p s) \<subseteq> set (cp_options p)"
  by (auto simp: filtered_options_def)

lemma close_combo_simps [simp]:
  "cvalue (close_combo s) = cvalue s" "copen (close_combo s) = False" "csearch (close_combo s) = []"
  by (simp_all add: close_combo_def)

lemma combo_remove_inv: "combo_inv p v0 s \<Longrightarrow> combo_inv p v0 (combo_remove x s)"
  by (auto simp: combo_inv_def combo_remove_def intro: order_trans [OF length_filter_le])

lemma combo_inv_cvalue: "cvalue s' = cvalue s \<Longrightarrow> combo_inv p v0 s \<Longrightarrow> combo_inv p v0 s'"
  by (simp add: combo_inv_def)

lemma on_key_inv: "combo_inv p v0 s \<Longrightarrow> combo_inv p v0 (on_key p k s)"
  by (auto simp: on_key_def Let_def intro: combo_remove_inv combo_inv_cvalue)

lemma toggle_inv:
  "combo_inv p v0 s \<Longrightarrow> item \<in> set (cp_options p) \<Longrightarrow> combo_inv p v0 (toggle p item s)"
  by (auto simp: combo_inv_def toggle_def)

lemma combo_step_inv:
  assumes "combo_inv p v0 s" "e \<in> offers (Combobox_view p s) \<or> combo_env s e"
  shows "combo_inv p v0 (combo_step p s e)"
proof (cases e)
  case (Toggle item)
  with assms have "item \<in> set (cp_options p)"
    using filtered_options_subset [of p s]
    by (auto simp: offers_Combobox combo_env_def split: if_splits)
  with Toggle assms show ?thesis by (simp add: toggle_inv)
qed (use assms in \<open>auto intro: combo_remove_inv on_key_inv combo_inv_cvalue\<close>)

interpretation combo: ui_component "Combobox_view p" "combo_step p" combo_env "combo_inv p v0" for p v0
  by unfold_locales (auto intro: combo_step_inv)


definition demo_props :: "bool \<Rightarrow> bool \<Rightarrow> combo_props" where
  "demo_props multi disabled =
     \<lparr>cp_options = [''default'', ''kube-system''], cp_multi = multi, cp_placeholder = None,
      cp_disabled = disabled, cp_loading = False\<rparr>"


definition frozen :: "string list \<Rightarrow> combo \<Rightarrow> bool" where
  "frozen v0 s \<longleftrightarrow> cvalue s = v0 \<and> \<not> copen s"

lemma frozen_step:
  assumes "cp_disabled p" "\<not> cp_multi p" "frozen v0 s"
    "e \<in> offers (Combobox_view p s) \<or> combo_env s e"
  shows "frozen v0 (combo_step p s e)"
  using assms by (auto simp: offers_Combobox combo_env_def frozen_def)

text \<open>
  a disabled control for a single value (the namespace while a policy is edited) can
  never change: it stays closed and keeps its value.
\<close>

theorem combobox_disabled_single:
  assumes "combo_reach p v0 s" "cp_disabled p" "\<not> cp_multi p"
  shows "cvalue s = v0 \<and> \<not> copen s"
proof -
  have "ui_component (Combobox_view p) (combo_step p) combo_env (frozen v0)"
    using frozen_step [OF assms(2,3)] by unfold_locales auto
  then have "frozen v0 s"
    using assms(1) by (rule ui_component.reach_inv) (simp add: frozen_def mounted_combo_def)
  then show ?thesis by (simp add: frozen_def)
qed

theorem combobox_disabled_single_witness:
  "cvalue (combo_step (demo_props False True) (mounted_combo [''default'']) Outside) = [''default'']"
proof -
  have "combo_reach (demo_props False True) [''default'']
      (combo_step (demo_props False True) (mounted_combo [''default'']) Outside)"
    by (rule ui_env [OF ui_start]) (simp add: combo_env_def)
  from combobox_disabled_single [OF this] show ?thesis by (simp add: demo_props_def)
qed

text \<open>
  a disabled control for several values still offers the removal of each selected value
  (the tag's cross checks nothing), and a click on it changes the selection.
\<close>

theorem combobox_disabled_multi_editable:
  assumes "cp_multi p" "v \<in> set (cvalue s)"
  shows "Remove v \<in> offers (Combobox_view p s)
    \<and> cvalue (combo_step p s (Remove v)) = filter (\<lambda>w. w \<noteq> v) (cvalue s)"
  using assms by (simp add: offers_Combobox combo_remove_def)

theorem combobox_disabled_multi_editable_witness:
  "cp_disabled (demo_props True True)
   \<and> Remove ''default'' \<in> offers (Combobox_view (demo_props True True) (mounted_combo [''default'']))"
  using combobox_disabled_multi_editable [of "demo_props True True" "''default''" "mounted_combo [''default'']"]
  by (simp add: demo_props_def mounted_combo_def)

text \<open>
  selecting an option and deselecting it again in a control for several values restores
  the whole state of the control, the order of the selection included.
\<close>

theorem combobox_toggle_twice:
  assumes "cp_multi p" "item \<notin> set (cvalue s)"
  shows "toggle p item (toggle p item s) = s"
proof -
  have "filter (\<lambda>v. v \<noteq> item) (cvalue s) = cvalue s"
    using assms by (auto intro!: filter_True)
  then show ?thesis using assms by (simp add: toggle_def)
qed

theorem combobox_toggle_twice_witness:
  "toggle (demo_props True False) ''kube-system''
     (toggle (demo_props True False) ''kube-system'' (mounted_combo [''default'']))
   = mounted_combo [''default'']"
  by (rule combobox_toggle_twice) (simp_all add: demo_props_def mounted_combo_def)

end
