(* ===== verification/PolicyForm.thy ===== *)
theory PolicyForm
  imports Client Combobox
begin

text \<open>
  \<open>PolicyFormModal\<close> of \<open>ui/src/pages/Policies.tsx\<close>: the form that creates a policy or
  edits one.  Its context holds the properties and what the queries and the mutation report
  (\<open>react-query\<close> is a library of its own); a handler returns the new state of the form and
  the effects it asks for.
\<close>

section \<open>State\<close>

record form =
  f_name :: string
  f_namespace :: string
  f_provider :: string
  f_model :: string
  f_secretName :: string
  f_fullScan :: string
  f_failedRescan :: string
  f_targetNsList :: "string list"
  f_checks :: "CheckItem list"
  f_initialized :: bool
  f_showPreview :: bool
  f_nsCombo :: "bool \<times> string"
  f_targetCombo :: "bool \<times> string"

definition first_check :: CheckItem where
  "first_check = \<lparr>ci_id = ''check-1'', ci_description = [], ci_severity = ''warning''\<rparr>"

text \<open>
  The initial state.  The last two fields are the local states (open, search text) of the
  two comboboxes, which live as long as the dialog is shown.
\<close>

definition init_form :: form where
  "init_form =
     \<lparr>f_name = [], f_namespace = [], f_provider = ''claude'', f_model = [],
      f_secretName = ''dtm-llm-secret'', f_fullScan = ''0 */6 * * *'',
      f_failedRescan = ''*/30 * * * *'', f_targetNsList = [], f_checks = [first_check],
      f_initialized = False, f_showPreview = False, f_nsCombo = (False, []), f_targetCombo = (False, [])\<rparr>"

record form_ctx =
  fx_open :: bool
  fx_editPolicy :: "ChecklistPolicy option"
  fx_info :: "string option"
  fx_clusterNamespaces :: "string list"
  fx_nsLoading :: bool
  fx_isPending :: bool
  fx_error :: "string option"

definition isEdit :: "form_ctx \<Rightarrow> bool" where
  "isEdit x \<longleftrightarrow> fx_editPolicy x \<noteq> None"

definition defaultNs :: "form_ctx \<Rightarrow> string" where
  "defaultNs x = opt_or_str (fx_info x) ''dtm-system''"

section \<open>Operations\<close>

text \<open>The assignments during render: fill the form when editing starts, forget it when closed.\<close>

definition prefill :: "ChecklistPolicy \<Rightarrow> form \<Rightarrow> form" where
  "prefill p f =
     f\<lparr>f_name := m_name (p_metadata p), f_namespace := m_namespace (p_metadata p),
       f_provider := provider (llm (p_spec p)), f_model := opt_or_str (model (llm (p_spec p))) [],
       f_secretName := sr_name (secretRef (llm (p_spec p))),
       f_fullScan := fullScan (schedule (p_spec p)),
       f_failedRescan := opt_or_str (failedRescan (schedule (p_spec p))) [],
       f_targetNsList := (case targetNamespaces (p_spec p) of Some ns \<Rightarrow> ns | None \<Rightarrow> []),
       f_checks := checks (p_spec p), f_initialized := True\<rparr>"

definition form_render :: "form_ctx \<Rightarrow> form \<Rightarrow> form" where
  "form_render x f =
     (let f1 = (case fx_editPolicy x of
                  Some p \<Rightarrow> (if fx_open x \<and> \<not> f_initialized f then prefill p f else f)
                | None \<Rightarrow> f)
      in if \<not> fx_open x \<and> f_initialized f then f1\<lparr>f_initialized := False\<rparr> else f1)"

definition resetForm :: "form \<Rightarrow> form" where
  "resetForm f =
     f\<lparr>f_name := [], f_namespace := [], f_provider := ''claude'', f_model := [],
       f_secretName := ''dtm-llm-secret'', f_fullScan := ''0 */6 * * *'',
       f_failedRescan := ''*/30 * * * *'', f_targetNsList := [], f_checks := [first_check],
       f_initialized := False, f_showPreview := False,
       f_nsCombo := (False, []), f_targetCombo := (False, [])\<rparr>"

definition valid_check :: "CheckItem \<Rightarrow> bool" where
  "valid_check c \<longleftrightarrow> truthy (trim (ci_id c)) \<and> truthy (trim (ci_description c))"

definition validChecks :: "form \<Rightarrow> CheckItem list" where
  "validChecks f = filter valid_check (f_checks f)"

definition buildCR :: "form_ctx \<Rightarrow> form \<Rightarrow> json" where
  "buildCR x f =
     JObj
       [(''apiVersion'', JStr ''dtm.dtm.io/v1alpha1''),
        (''kind'', JStr ''ChecklistPolicy''),
        (''metadata'', JObj [(''name'', JStr (or_str (f_name f) ''my-policy'')),
                             (''namespace'', JStr (or_str (f_namespace f) (defaultNs x)))]),
        (''spec'', JObj
          ([(''schedule'', JObj ((''fullScan'', JStr (f_fullScan f)) #
               (if truthy (f_failedRescan f) then [(''failedRescan'', JStr (f_failedRescan f))] else []))),
            (''llm'', JObj ((''provider'', JStr (f_provider f)) #
               (if truthy (f_model f) then [(''model'', JStr (f_model f))] else []) @
               [(''secretRef'', JObj [(''name'', JStr (f_secretName f))])])),
            (''checks'', JArr (map (\<lambda>c. JObj [(''id'', JStr (ci_id c)),
               (''description'', JStr (ci_description c)), (''severity'', JStr (ci_severity c))])
               (validChecks f)))] @
           (if length (f_targetNsList f) > 0
            then [(''targetNamespaces'', JArr (map JStr (f_targetNsList f)))] else [])))]"

definition addCheck :: "form \<Rightarrow> form" where
  "addCheck f =
     f\<lparr>f_checks := f_checks f @ [\<lparr>ci_id = ''check-'' @ dec_nat (length (f_checks f) + 1),
                                  ci_description = [], ci_severity = ''warning''\<rparr>]\<rparr>"

definition drop_index :: "nat \<Rightarrow> 'a list \<Rightarrow> 'a list" where
  "drop_index idx xs = take idx xs @ drop (Suc idx) xs"

definition removeCheck :: "nat \<Rightarrow> form \<Rightarrow> form" where
  "removeCheck idx f =
     (if length (f_checks f) \<le> 1 then f else f\<lparr>f_checks := drop_index idx (f_checks f)\<rparr>)"

datatype check_field = F_id | F_description | F_severity

fun set_field :: "check_field \<Rightarrow> string \<Rightarrow> CheckItem \<Rightarrow> CheckItem" where
  "set_field F_id v c = c\<lparr>ci_id := v\<rparr>"
| "set_field F_description v c = c\<lparr>ci_description := v\<rparr>"
| "set_field F_severity v c = c\<lparr>ci_severity := v\<rparr>"

definition updateCheck :: "nat \<Rightarrow> check_field \<Rightarrow> string \<Rightarrow> form \<Rightarrow> form" where
  "updateCheck idx field v f =
     f\<lparr>f_checks := map (\<lambda>(i, c). if i = idx then set_field field v c else c) (enumerate 0 (f_checks f))\<rparr>"

datatype submission = UpdateMut PolicySpec | CreateMut PolicyDraft

definition form_spec :: "form \<Rightarrow> PolicySpec" where
  "form_spec f =
     \<lparr>schedule = \<lparr>fullScan = f_fullScan f, failedRescan = str_opt (f_failedRescan f)\<rparr>,
      llm = \<lparr>provider = f_provider f, model = str_opt (f_model f),
             secretRef = \<lparr>sr_name = f_secretName f, sr_key = None\<rparr>\<rparr>,
      checks = validChecks f,
      targetNamespaces = (if length (f_targetNsList f) > 0 then Some (f_targetNsList f) else None),
      notification = None, escalationThreshold = None\<rparr>"

definition handleSubmit :: "form_ctx \<Rightarrow> form \<Rightarrow> submission option" where
  "handleSubmit x f =
     (if \<not> truthy (trim (f_name f)) then None
      else if length (validChecks f) = 0 then None
      else if isEdit x then Some (UpdateMut (form_spec f))
      else Some (CreateMut \<lparr>d_name = f_name f, d_namespace = or_str (f_namespace f) (defaultNs x),
                            d_spec = form_spec f\<rparr>))"

text \<open>The call a mutation makes: the update goes to the name and namespace of the form.\<close>

fun mutation_call :: "form \<Rightarrow> submission \<Rightarrow> api_call" where
  "mutation_call f (CreateMut policy) = createPolicy policy"
| "mutation_call f (UpdateMut spec) = updatePolicy (f_namespace f) (f_name f) spec"

datatype form_effect =
    Mutate submission
  | InvalidateQueries string
  | EffToast string
  | OnClose

definition handleClose :: "form \<Rightarrow> form \<times> form_effect list" where
  "handleClose f = (resetForm f, [OnClose])"

definition mutation_onSuccess :: "form_ctx \<Rightarrow> form \<Rightarrow> form \<times> form_effect list" where
  "mutation_onSuccess x f =
     (let (f', es) = handleClose f
      in (f', [InvalidateQueries ''policies'',
               EffToast (if isEdit x then ''Policy updated'' else ''Policy created'')] @ es))"

section \<open>Events\<close>

datatype form_event =
    SetName string
  | NsCombo combo_event
  | SetProvider string
  | SetModel string
  | SetSecretName string
  | SetFullScan string
  | SetFailedRescan string
  | TargetCombo combo_event
  | AddCheck
  | RemoveCheck nat
  | UpdateCheck nat check_field string
  | TogglePreview
  | Submit
  | Cancel
  | MutationSucceeded
  | Rerender form_ctx

definition ns_props :: "form_ctx \<Rightarrow> combo_props" where
  "ns_props x =
     \<lparr>cp_options = fx_clusterNamespaces x, cp_multi = False, cp_placeholder = Some (defaultNs x),
      cp_disabled = isEdit x, cp_loading = fx_nsLoading x\<rparr>"

definition target_props :: "form_ctx \<Rightarrow> combo_props" where
  "target_props x =
     \<lparr>cp_options = fx_clusterNamespaces x, cp_multi = True, cp_placeholder = Some ''Select namespaces...'',
      cp_disabled = False, cp_loading = fx_nsLoading x\<rparr>"

definition ns_combo :: "form \<Rightarrow> combo" where
  "ns_combo f =
     \<lparr>cvalue = (if truthy (f_namespace f) then [f_namespace f] else []),
      copen = fst (f_nsCombo f), csearch = snd (f_nsCombo f)\<rparr>"

definition target_combo :: "form \<Rightarrow> combo" where
  "target_combo f =
     \<lparr>cvalue = f_targetNsList f, copen = fst (f_targetCombo f), csearch = snd (f_targetCombo f)\<rparr>"

text \<open>\<open>onChange={v => setNamespace(v[0] || '')}\<close>.\<close>

definition first_or_empty :: "string list \<Rightarrow> string" where
  "first_or_empty vs = (case vs of [] \<Rightarrow> [] | v # _ \<Rightarrow> v)"

fun form_step :: "form_ctx \<Rightarrow> form \<Rightarrow> form_event \<Rightarrow> form \<times> form_effect list" where
  "form_step x f (SetName v) = (f\<lparr>f_name := v\<rparr>, [])"
| "form_step x f (NsCombo e) =
     (let c = combo_step (ns_props x) (ns_combo f) e
      in (f\<lparr>f_namespace := first_or_empty (cvalue c), f_nsCombo := (copen c, csearch c)\<rparr>, []))"
| "form_step x f (SetProvider v) = (f\<lparr>f_provider := v\<rparr>, [])"
| "form_step x f (SetModel v) = (f\<lparr>f_model := v\<rparr>, [])"
| "form_step x f (SetSecretName v) = (f\<lparr>f_secretName := v\<rparr>, [])"
| "form_step x f (SetFullScan v) = (f\<lparr>f_fullScan := v\<rparr>, [])"
| "form_step x f (SetFailedRescan v) = (f\<lparr>f_failedRescan := v\<rparr>, [])"
| "form_step x f (TargetCombo e) =
     (let c = combo_step (target_props x) (target_combo f) e
      in (f\<lparr>f_targetNsList := cvalue c, f_targetCombo := (copen c, csearch c)\<rparr>, []))"
| "form_step x f AddCheck = (addCheck f, [])"
| "form_step x f (RemoveCheck idx) = (removeCheck idx f, [])"
| "form_step x f (UpdateCheck idx field v) = (updateCheck idx field v f, [])"
| "form_step x f TogglePreview = (f\<lparr>f_showPreview := \<not> f_showPreview f\<rparr>, [])"
| "form_step x f Submit = (f, case handleSubmit x f of Some m \<Rightarrow> [Mutate m] | None \<Rightarrow> [])"
| "form_step x f Cancel = handleClose f"
| "form_step x f MutationSucceeded = mutation_onSuccess x f"
| "form_step x f (Rerender x') = (f, [])"

text \<open>
  The form in its context: a handler runs in the current context, and the render that
  follows it or a change of the context makes the assignments of \<open>form_render\<close>.
\<close>

fun next_ctx :: "form_ctx \<Rightarrow> form_event \<Rightarrow> form_ctx" where
  "next_ctx x (Rerender x') = x'"
| "next_ctx x e = x"

definition form_upd :: "form_ctx \<times> form \<Rightarrow> form_event \<Rightarrow> form_ctx \<times> form" where
  "form_upd xf e =
     (let x' = next_ctx (fst xf) e in (x', form_render x' (fst (form_step (fst xf) (snd xf) e))))"

section \<open>The rendered form\<close>

text \<open>Typographic characters outside the modelled range are written in ASCII.\<close>

definition provider_options :: "(string \<times> string) list" where
  "provider_options = [(''claude'', ''Claude''), (''gemini'', ''Gemini''), (''openai'', ''OpenAI'')]"

definition severity_options :: "(string \<times> string) list" where
  "severity_options = [(''info'', ''Info''), (''warning'', ''Warning''), (''critical'', ''Critical'')]"

definition identity_fields :: "form_ctx \<Rightarrow> form \<Rightarrow> form_event node" where
  "identity_fields x f =
     tag ''div''
       [FormField [Txt ''Name''] [Input [(''placeholder'', ''my-policy'')] (f_name f) (isEdit x) SetName],
        FormField
          [Txt ''Namespace '', Help ''The Kubernetes namespace where this Policy CRD will be created. Leave empty to use the namespace where DTM is deployed.'']
          [embed NsCombo (Combobox_view (ns_props x) (ns_combo f))]]"

definition llm_fields :: "form \<Rightarrow> form_event node" where
  "llm_fields f =
     tag ''div''
       [FormField [Txt ''LLM Provider''] [Select (f_provider f) SetProvider provider_options],
        FormField [Txt ''Model (optional)'']
          [Input [(''placeholder'', ''claude-haiku-4-5-20251001'')] (f_model f) False SetModel],
        FormField
          [Txt ''Secret Name '', Help ''Name of the Kubernetes Secret containing the LLM API key. Must be in the same namespace as the Policy.'']
          [Input [] (f_secretName f) False SetSecretName]]"

definition schedule_fields :: "form \<Rightarrow> form_event node" where
  "schedule_fields f =
     tag ''div''
       [FormField [Txt ''Full Scan Schedule '', Help (''Cron schedule for running all checks.'' @ [CHR 0x5C] @ ''ne.g. 0 */6 * * * (every 6 hours)'')]
          [Input [(''placeholder'', ''0 */6 * * *'')] (f_fullScan f) False SetFullScan],
        FormField
          [Txt ''Failed Rescan Schedule '', Help ''Cron schedule for re-checking only failed items. A shorter interval helps detect recovery faster.'']
          [Input [(''placeholder'', ''*/30 * * * *'')] (f_failedRescan f) False SetFailedRescan]]"

definition target_field :: "form_ctx \<Rightarrow> form \<Rightarrow> form_event node" where
  "target_field x f =
     FormField
       [Txt ''Target Namespaces '', Help ''Namespaces the LLM will inspect. Leave empty to scan all accessible namespaces.'']
       [embed TargetCombo (Combobox_view (target_props x) (target_combo f))]"

definition check_card :: "form \<Rightarrow> nat \<times> CheckItem \<Rightarrow> form_event node" where
  "check_card f ic =
     (let idx = fst ic; check = snd ic
      in plain_card
           [tag ''div''
              [FormField [Txt ''Check ID'']
                 [Input [(''placeholder'', ''pod-health'')] (ci_id check) False (UpdateCheck idx F_id)],
               tag ''div''
                 [FormField [Txt ''Severity '', Help ''Importance level of this check. Used for alert escalation.\<newline>* info: informational\<newline>* warning: needs attention\<newline>* critical: urgent'']
                    [Select (ci_severity check) (UpdateCheck idx F_severity) severity_options],
                  Button ghost sm [] (length (f_checks f) \<le> 1) (RemoveCheck idx) [IconTrash (sized 14)]]],
            FormField [Txt ''Description '', Help ''Describe what to verify in plain language. The LLM reads this text and inspects the cluster accordingly. No need to structure it - just write naturally.'']
              [TextArea [(''rows'', ''2''), (''placeholder'', ''Verify that all pods in the default namespace are running and not in CrashLoopBackOff...'')] (ci_description check) (UpdateCheck idx F_description)]])"

definition checks_editor :: "form \<Rightarrow> form_event node" where
  "checks_editor f =
     tag ''div''
       [tag ''div''
          [tag ''label'' [Txt ''Checks ('', Txt (dec_nat (length (f_checks f))), Txt '')''],
           Button secondary sm [IconPlus (sized 12)] False AddCheck [Txt ''Add Check'']],
        tag ''div'' (map (check_card f) (enumerate 0 (f_checks f)))]"

definition yaml_preview :: "(json \<Rightarrow> string) \<Rightarrow> form_ctx \<Rightarrow> form \<Rightarrow> form_event node" where
  "yaml_preview yaml_dump x f =
     tag ''div''
       (Button ghost sm [] False TogglePreview
          [Txt (if f_showPreview f then ''^ Hide YAML Preview'' else ''v Preview YAML'')]
        # show_if (f_showPreview f) [tag ''pre'' [Txt (yaml_dump (buildCR x f))]])"

definition form_footer :: "form_ctx \<Rightarrow> form \<Rightarrow> form_event node list" where
  "form_footer x f =
     (case fx_error x of Some m \<Rightarrow> [tag ''div'' [Txt ''Error: '', Txt m]] | None \<Rightarrow> []) @
     [tag ''div''
        [Button secondary md [] False Cancel [Txt ''Cancel''],
         Button primary md [] (fx_isPending x \<or> \<not> truthy (trim (f_name f))) Submit
           [Txt (if fx_isPending x then (if isEdit x then ''Saving...'' else ''Creating...'')
                 else (if isEdit x then ''Save Changes'' else ''Create Policy''))]]]"

definition PolicyFormModal_view :: "(json \<Rightarrow> string) \<Rightarrow> form_ctx \<Rightarrow> form \<Rightarrow> form_event node" where
  "PolicyFormModal_view yaml_dump x f =
     tag ''div''
       (Modal (fx_open x) Cancel (if isEdit x then ''Edit Policy'' else ''Create Policy'')
          ([identity_fields x f, llm_fields f, schedule_fields f, target_field x f, checks_editor f,
            yaml_preview yaml_dump x f] @ form_footer x f))"

text \<open>
  The environment: the library reports the end of a mutation, the mouse is pressed outside
  a combobox, and queries, the mutation or the parent change the context; the policy being
  edited stays the same for the life of the component.
\<close>

definition form_env :: "form_ctx \<times> form \<Rightarrow> form_event \<Rightarrow> bool" where
  "form_env xf e \<longleftrightarrow>
     e \<in> {MutationSucceeded, NsCombo Outside, TargetCombo Outside}
     \<or> (\<exists>x'. e = Rerender x' \<and> fx_editPolicy x' = fx_editPolicy (fst xf))"

definition form_view :: "(json \<Rightarrow> string) \<Rightarrow> form_ctx \<times> form \<Rightarrow> form_event node" where
  "form_view yaml_dump xf = PolicyFormModal_view yaml_dump (fst xf) (snd xf)"

definition mounted_form :: "form_ctx \<Rightarrow> form_ctx \<times> form" where
  "mounted_form x = (x, form_render x init_form)"

abbreviation form_reach :: "(json \<Rightarrow> string) \<Rightarrow> form_ctx \<Rightarrow> form_ctx \<times> form \<Rightarrow> bool" where
  "form_reach yaml_dump x \<equiv> ui_reach (form_view yaml_dump) form_upd form_env (mounted_form x)"

section \<open>What the form offers\<close>

lemma offers_check_card:
  "offers (check_card f (i, c)) =
     range (UpdateCheck i F_id) \<union> range (UpdateCheck i F_description)
     \<union> UpdateCheck i F_severity ` {''info'', ''warning'', ''critical''}
     \<union> (if length (f_checks f) \<le> 1 then {} else {RemoveCheck i})"
  by (auto simp: check_card_def Let_def severity_options_def)

lemma offers_checks_editor:
  "offers (checks_editor f) =
     insert AddCheck (\<Union>ic\<in>set (enumerate 0 (f_checks f)). offers (check_card f ic))"
  by (simp add: checks_editor_def)

lemma offers_fields:
  "offers (identity_fields x f) =
     (if isEdit x then {} else range SetName) \<union> NsCombo ` offers (Combobox_view (ns_props x) (ns_combo f))"
  "offers (llm_fields f) =
     SetProvider ` {''claude'', ''gemini'', ''openai''} \<union> range SetModel \<union> range SetSecretName"
  "offers (schedule_fields f) = range SetFullScan \<union> range SetFailedRescan"
  "offers (target_field x f) = TargetCombo ` offers (Combobox_view (target_props x) (target_combo f))"
  "offers (yaml_preview yd x f) = {TogglePreview}"
  "offers_all (form_footer x f) =
     insert Cancel (if fx_isPending x \<or> \<not> truthy (trim (f_name f)) then {} else {Submit})"
  by (simp_all add: identity_fields_def llm_fields_def schedule_fields_def target_field_def
      yaml_preview_def provider_options_def show_if_def Un_assoc)
     (cases "fx_error x"; auto simp: form_footer_def)

lemma offers_form:
  "offers (form_view yd (x, f)) =
     (if fx_open x then
        insert Cancel
          (offers (identity_fields x f) \<union> offers (llm_fields f) \<union> offers (schedule_fields f)
           \<union> offers (target_field x f) \<union> offers (checks_editor f) \<union> offers (yaml_preview yd x f)
           \<union> offers_all (form_footer x f))
      else {})"
  by (simp add: form_view_def PolicyFormModal_view_def Un_assoc)

text \<open>The guards of the events the form offers.\<close>

lemma form_offer_cases:
  assumes "e \<in> offers (form_view yd (x, f))"
  shows "e = SetName v \<Longrightarrow> \<not> isEdit x"
    and "e = NsCombo c \<Longrightarrow> c \<in> offers (Combobox_view (ns_props x) (ns_combo f))"
    and "e = SetProvider v \<Longrightarrow> v \<in> {''claude'', ''gemini'', ''openai''}"
    and "e = TargetCombo c \<Longrightarrow> c \<in> offers (Combobox_view (target_props x) (target_combo f))"
    and "e = UpdateCheck i F_severity v \<Longrightarrow> v \<in> {''info'', ''warning'', ''critical''}"
    and "e = Submit \<Longrightarrow> \<not> fx_isPending x \<and> truthy (trim (f_name f))"
    and "e \<noteq> MutationSucceeded" and "e \<noteq> Rerender x'"
  using assms
  by (auto simp: offers_form offers_fields offers_checks_editor offers_check_card split: if_splits)

section \<open>Editing\<close>

text \<open>
  What an unchanged form sends back for a policy: empty optional texts and an empty list of
  namespaces become absent fields, and the fields the form does not know are gone.
\<close>

definition resent_spec :: "PolicySpec \<Rightarrow> PolicySpec" where
  "resent_spec s =
     \<lparr>schedule = \<lparr>fullScan = fullScan (schedule s),
        failedRescan = Option.bind (failedRescan (schedule s)) str_opt\<rparr>,
      llm = \<lparr>provider = provider (llm s), model = Option.bind (model (llm s)) str_opt,
        secretRef = \<lparr>sr_name = sr_name (secretRef (llm s)), sr_key = None\<rparr>\<rparr>,
      checks = checks s,
      targetNamespaces = (case targetNamespaces s of Some (n # ns) \<Rightarrow> Some (n # ns) | _ \<Rightarrow> None),
      notification = None, escalationThreshold = None\<rparr>"

lemma str_opt_opt_or_str [simp]: "str_opt (opt_or_str v []) = Option.bind v str_opt"
  by (cases v) (auto simp: str_opt_def opt_or_str_def or_str_def)

lemma form_spec_prefill:
  "list_all valid_check (checks (p_spec p)) \<Longrightarrow> form_spec (prefill p f) = resent_spec (p_spec p)"
  by (auto simp: form_spec_def resent_spec_def prefill_def validChecks_def list_all_iff
      split: option.splits list.splits intro!: filter_True)

lemma unchanged_submit:
  assumes "fx_editPolicy x = Some p" "fx_open x" "\<not> f_initialized f"
    and "truthy (trim (m_name (p_metadata p)))"
    and "checks (p_spec p) \<noteq> []" "list_all valid_check (checks (p_spec p))"
  shows "handleSubmit x (form_render x f) = Some (UpdateMut (resent_spec (p_spec p)))"
    and "f_name (form_render x f) = m_name (p_metadata p)" "f_namespace (form_render x f) = m_namespace (p_metadata p)"
proof -
  have r: "form_render x f = prefill p f"
    using assms by (simp add: form_render_def)
  have "validChecks (prefill p f) = checks (p_spec p)"
    using assms(6) by (auto simp: validChecks_def prefill_def list_all_iff intro!: filter_True)
  then show "handleSubmit x (form_render x f) = Some (UpdateMut (resent_spec (p_spec p)))"
    using assms by (simp add: r handleSubmit_def isEdit_def form_spec_prefill) (simp add: prefill_def)
  show "f_name (form_render x f) = m_name (p_metadata p)" "f_namespace (form_render x f) = m_namespace (p_metadata p)"
    by (simp_all add: r prefill_def)
qed

text \<open>
  opening the edit dialog of a policy and saving it unchanged sends the schedule, the
  provider, the model, the secret name, the checks and the target namespaces of the policy
  back as they are, but never its notification settings, its escalation threshold or the key
  within the secret: the update carries none of the three.
\<close>

theorem edit_unchanged_submit:
  assumes "fx_editPolicy x = Some p" "fx_open x" "\<not> f_initialized f"
    and "truthy (trim (m_name (p_metadata p)))"
    and "checks (p_spec p) \<noteq> []" "list_all valid_check (checks (p_spec p))"
  shows "handleSubmit x (form_render x f) = Some (UpdateMut (resent_spec (p_spec p)))
    \<and> notification (resent_spec (p_spec p)) = None
    \<and> escalationThreshold (resent_spec (p_spec p)) = None
    \<and> sr_key (secretRef (llm (resent_spec (p_spec p)))) = None"
  using unchanged_submit(1) [OF assms] by (simp add: resent_spec_def)

definition demo_policy :: ChecklistPolicy where
  "demo_policy =
     \<lparr>p_metadata = \<lparr>m_name = ''prod'', m_namespace = ''dtm-system'', m_creationTimestamp = ''2026-01-01T00:00:00Z''\<rparr>,
      p_spec = \<lparr>schedule = \<lparr>fullScan = ''0 * * * *'', failedRescan = None\<rparr>,
        llm = \<lparr>provider = ''claude'', model = None, secretRef = \<lparr>sr_name = ''s'', sr_key = Some ''token''\<rparr>\<rparr>,
        checks = [\<lparr>ci_id = ''pods'', ci_description = ''all pods run'', ci_severity = ''critical''\<rparr>],
        targetNamespaces = None, notification = Some (JObj [(''slack'', JObj [])]),
        escalationThreshold = Some 3\<rparr>,
      p_status = None\<rparr>"

definition demo_ctx :: "ChecklistPolicy option \<Rightarrow> form_ctx" where
  "demo_ctx ep =
     \<lparr>fx_open = True, fx_editPolicy = ep, fx_info = None, fx_clusterNamespaces = [''default''],
      fx_nsLoading = False, fx_isPending = False, fx_error = None\<rparr>"

lemma trim_nonempty: "c \<in> set s \<Longrightarrow> \<not> white c \<Longrightarrow> truthy (trim s)"
  by (auto simp: trim_eq_Nil)

lemma demo_policy_valid:
  "list_all valid_check (checks (p_spec demo_policy))" "truthy (trim (m_name (p_metadata demo_policy)))"
  by (simp_all add: demo_policy_def valid_check_def trim_eq_Nil) (simp_all add: white_def)

theorem edit_unchanged_submit_witness:
  "notification (p_spec demo_policy) \<noteq> None
   \<and> handleSubmit (demo_ctx (Some demo_policy)) (form_render (demo_ctx (Some demo_policy)) init_form)
     = Some (UpdateMut (resent_spec (p_spec demo_policy)))"
  using edit_unchanged_submit [of "demo_ctx (Some demo_policy)" demo_policy init_form] demo_policy_valid
  by (simp add: demo_ctx_def init_form_def) (simp add: demo_policy_def)

text \<open>The form keeps the name and the namespace of the policy it edits.\<close>

definition edit_inv :: "ChecklistPolicy \<Rightarrow> form_ctx \<times> form \<Rightarrow> bool" where
  "edit_inv p xf \<longleftrightarrow>
     (let x = fst xf; f = snd xf
      in fx_editPolicy x = Some p \<and> (fx_open x \<longrightarrow> f_initialized f) \<and> \<not> fst (f_nsCombo f)
         \<and> (f_initialized f \<longrightarrow> f_name f = m_name (p_metadata p) \<and> f_namespace f = m_namespace (p_metadata p)))"

lemma edit_inv_render:
  assumes "fx_editPolicy x = Some p" "\<not> fst (f_nsCombo f)"
    and "f_initialized f \<Longrightarrow> f_name f = m_name (p_metadata p) \<and> f_namespace f = m_namespace (p_metadata p)"
  shows "edit_inv p (x, form_render x f)"
  using assms by (auto simp: edit_inv_def form_render_def prefill_def Let_def)

lemma ns_combo_frozen:
  assumes "isEdit x" "\<not> fst (f_nsCombo f)"
    and "c \<in> offers (Combobox_view (ns_props x) (ns_combo f)) \<or> c = Outside"
  shows "first_or_empty (cvalue (combo_step (ns_props x) (ns_combo f) c)) = f_namespace f
    \<and> \<not> copen (combo_step (ns_props x) (ns_combo f) c)"
proof -
  have "frozen (cvalue (ns_combo f)) (combo_step (ns_props x) (ns_combo f) c)"
    using assms by (intro frozen_step) (auto simp: ns_props_def frozen_def ns_combo_def combo_env_def)
  then show ?thesis by (auto simp: frozen_def first_or_empty_def ns_combo_def)
qed

lemma form_step_edit:
  assumes "edit_inv p (x, f)" "e \<in> offers (form_view yd (x, f)) \<or> form_env (x, f) e"
  shows "\<not> fst (f_nsCombo (fst (form_step x f e)))"
    and "f_initialized (fst (form_step x f e)) \<Longrightarrow>
      f_name (fst (form_step x f e)) = m_name (p_metadata p)
      \<and> f_namespace (fst (form_step x f e)) = m_namespace (p_metadata p)"
proof -
  have ed: "isEdit x" using assms(1) by (auto simp: edit_inv_def isEdit_def)
  have "\<not> fst (f_nsCombo (fst (form_step x f e))) \<and> (f_initialized (fst (form_step x f e)) \<longrightarrow>
      f_name (fst (form_step x f e)) = m_name (p_metadata p)
      \<and> f_namespace (fst (form_step x f e)) = m_namespace (p_metadata p))"
  proof (cases e)
    case (SetName v)
    then show ?thesis using assms(2) ed form_offer_cases(1) [of e yd x f v] by (auto simp: form_env_def)
  next
    case (NsCombo c)
    with assms(2) have "c \<in> offers (Combobox_view (ns_props x) (ns_combo f)) \<or> c = Outside"
      using form_offer_cases(2) [of e yd x f c] by (auto simp: form_env_def)
    from ns_combo_frozen [OF ed _ this] NsCombo assms(1) show ?thesis
      by (auto simp: edit_inv_def Let_def)
  qed (use assms(1) in \<open>auto simp: edit_inv_def Let_def addCheck_def removeCheck_def updateCheck_def
        handleClose_def resetForm_def mutation_onSuccess_def\<close>)
  then show "\<not> fst (f_nsCombo (fst (form_step x f e)))"
    and "f_initialized (fst (form_step x f e)) \<Longrightarrow>
      f_name (fst (form_step x f e)) = m_name (p_metadata p)
      \<and> f_namespace (fst (form_step x f e)) = m_namespace (p_metadata p)" by auto
qed

lemma edit_inv_step:
  assumes "edit_inv p xf" "e \<in> offers (form_view yd xf) \<or> form_env xf e"
  shows "edit_inv p (form_upd xf e)"
proof -
  obtain x f where xf: "xf = (x, f)" by (cases xf)
  have "fx_editPolicy (next_ctx x e) = Some p"
    using assms form_offer_cases(8) [of e yd x f "next_ctx x e"]
    by (cases e) (auto simp: xf edit_inv_def Let_def form_env_def)
  then show ?thesis
    using form_step_edit [of p x f e yd] assms
    by (auto simp: xf form_upd_def Let_def intro!: edit_inv_render)
qed

interpretation form_edit: ui_component "form_view yd" form_upd form_env "edit_inv p" for yd p
  by unfold_locales (auto intro: edit_inv_step)

text \<open>
  whatever happens to the form while a policy is edited, a submission is an update, and
  the call it makes is a PUT to the name and namespace of that very policy.
\<close>

theorem edit_updates_its_policy:
  assumes "form_reach yd x0 (x, f)" "fx_editPolicy x0 = Some p" "fx_open x"
    and "handleSubmit x f = Some m"
  shows "\<exists>spec. m = UpdateMut spec
    \<and> mutation_call f m = updatePolicy (m_namespace (p_metadata p)) (m_name (p_metadata p)) spec"
proof -
  have "edit_inv p (mounted_form x0)"
    using assms(2) by (auto simp: mounted_form_def init_form_def intro!: edit_inv_render)
  with assms(1) have "edit_inv p (x, f)" by (rule form_edit.reach_inv)
  with assms(3,4) show ?thesis
    by (auto simp: edit_inv_def Let_def handleSubmit_def isEdit_def split: if_splits)
qed

theorem edit_updates_its_policy_witness:
  "\<exists>spec. handleSubmit (demo_ctx (Some demo_policy)) (form_render (demo_ctx (Some demo_policy)) init_form)
       = Some (UpdateMut spec)
     \<and> mutation_call (form_render (demo_ctx (Some demo_policy)) init_form) (UpdateMut spec)
       = updatePolicy ''dtm-system'' ''prod'' spec"
proof -
  let ?x = "demo_ctx (Some demo_policy)"
  define f where "f = form_render ?x init_form"
  have "form_reach (\<lambda>_. []) ?x (?x, f)" by (metis ui_start mounted_form_def f_def)
  moreover have ctx: "fx_editPolicy ?x = Some demo_policy" "fx_open ?x" by (simp_all add: demo_ctx_def)
  moreover have "f = prefill demo_policy init_form"
    using ctx by (simp add: f_def form_render_def init_form_def)
  then have "handleSubmit ?x f \<noteq> None"
    using demo_policy_valid ctx
    by (simp add: handleSubmit_def isEdit_def validChecks_def prefill_def) (simp add: demo_policy_def)
  then obtain m where "handleSubmit ?x f = Some m" by blast
  moreover have "m_namespace (p_metadata demo_policy) = ''dtm-system''"
    "m_name (p_metadata demo_policy) = ''prod''" by (simp_all add: demo_policy_def)
  ultimately show ?thesis
    using edit_updates_its_policy [of "\<lambda>_. []" ?x ?x f demo_policy m] by (auto simp flip: f_def)
qed

section \<open>Creating\<close>

text \<open>The constraints of the custom resource definition on a policy's spec.\<close>

definition provider_valid :: "string \<Rightarrow> bool" where
  "provider_valid v \<longleftrightarrow> v \<in> {''claude'', ''gemini'', ''openai''}"

definition severity_valid :: "string \<Rightarrow> bool" where
  "severity_valid v \<longleftrightarrow> v \<in> {''critical'', ''warning'', ''info''}"

definition crd_valid :: "PolicySpec \<Rightarrow> bool" where
  "crd_valid s \<longleftrightarrow>
     provider_valid (provider (llm s)) \<and> checks s \<noteq> [] \<and> (\<forall>c\<in>set (checks s). severity_valid (ci_severity c))"

definition create_inv :: "form_ctx \<times> form \<Rightarrow> bool" where
  "create_inv xf \<longleftrightarrow>
     fx_editPolicy (fst xf) = None
     \<and> f_provider (snd xf) \<in> {''claude'', ''gemini'', ''openai''}
     \<and> f_checks (snd xf) \<noteq> []
     \<and> (\<forall>c\<in>set (f_checks (snd xf)). ci_severity c \<in> {''critical'', ''warning'', ''info''})"

lemma set_drop_index: "set (drop_index i xs) \<subseteq> set xs"
  by (auto simp: drop_index_def dest: in_set_takeD in_set_dropD)

lemma length_drop_index: "i < length xs \<Longrightarrow> length (drop_index i xs) = length xs - 1"
  by (simp add: drop_index_def)

lemma drop_index_nonempty: "\<not> length xs \<le> 1 \<Longrightarrow> drop_index i xs \<noteq> []"
  by (cases "i < length xs") (auto simp: drop_index_def dest: length_drop_index)

lemma create_inv_render:
  "create_inv (x, f) \<Longrightarrow> create_inv (x, form_render x f)"
  by (simp add: create_inv_def form_render_def Let_def)

lemma updateCheck_checks:
  "length (f_checks (updateCheck i fd v f)) = length (f_checks f)"
  "c \<in> set (f_checks (updateCheck i fd v f)) \<Longrightarrow>
     c \<in> set (f_checks f) \<or> (\<exists>c0\<in>set (f_checks f). c = set_field fd v c0)"
  by (auto simp: updateCheck_def in_set_enumerate_eq split: if_splits)

lemma updateCheck_nth:
  "j < length (f_checks f) \<Longrightarrow>
     f_checks (updateCheck i fd v f) ! j = (if j = i then set_field fd v (f_checks f ! j) else f_checks f ! j)"
  by (simp add: updateCheck_def nth_enumerate_eq)

lemma create_inv_form_step:
  assumes "create_inv (x, f)" "e \<in> offers (form_view yd (x, f)) \<or> form_env (x, f) e"
  shows "create_inv (x, fst (form_step x f e))"
proof (cases e)
  case (SetProvider v)
  then show ?thesis
    using assms form_offer_cases(3) [of e yd x f v] by (auto simp: create_inv_def form_env_def)
next
  case (UpdateCheck i fd v)
  have "fd = F_severity \<Longrightarrow> v \<in> {''info'', ''warning'', ''critical''}"
    using assms(2) UpdateCheck form_offer_cases(5) [of e yd x f i v] by (auto simp: form_env_def)
  then have "ci_severity (set_field fd v c) \<in> {''critical'', ''warning'', ''info''}"
    if "ci_severity c \<in> {''critical'', ''warning'', ''info''}" for c
    using that by (cases fd) auto
  then have "\<forall>c\<in>set (f_checks (updateCheck i fd v f)). ci_severity c \<in> {''critical'', ''warning'', ''info''}"
    using assms(1) updateCheck_checks(2) [of _ i fd v f] unfolding create_inv_def by (metis snd_conv)
  moreover have "f_checks (updateCheck i fd v f) \<noteq> []"
    using assms(1) updateCheck_checks(1) [of i fd v f] by (auto simp: create_inv_def)
  ultimately show ?thesis
    using assms(1) UpdateCheck by (simp add: create_inv_def) (simp add: updateCheck_def)
next
  case (RemoveCheck i)
  then show ?thesis
    using assms(1) set_drop_index [of i "f_checks f"] drop_index_nonempty [of "f_checks f" i]
    by (auto simp: create_inv_def removeCheck_def)
qed (use assms(1) in \<open>auto simp: create_inv_def addCheck_def handleClose_def resetForm_def
      mutation_onSuccess_def first_check_def Let_def\<close>)

lemma create_inv_step:
  assumes "create_inv xf" "e \<in> offers (form_view yd xf) \<or> form_env xf e"
  shows "create_inv (form_upd xf e)"
proof -
  obtain x f where xf: "xf = (x, f)" by (cases xf)
  have "fx_editPolicy (next_ctx x e) = None"
    using assms form_offer_cases(8) [of e yd x f "next_ctx x e"]
    by (cases e) (auto simp: xf create_inv_def form_env_def)
  moreover have "create_inv (x, fst (form_step x f e))"
    using create_inv_form_step [of x f e yd] assms xf by simp
  ultimately have "create_inv (next_ctx x e, fst (form_step x f e))" by (simp add: create_inv_def)
  then show ?thesis by (simp add: xf form_upd_def Let_def create_inv_render)
qed

interpretation form_create: ui_component "form_view yd" form_upd form_env create_inv for yd
  by unfold_locales (auto intro: create_inv_step)

lemma create_reach_inv:
  assumes "form_reach yd x0 (x, f)" "fx_editPolicy x0 = None"
  shows "create_inv (x, f)"
proof -
  have "create_inv (x0, init_form)"
    using assms(2) by (simp add: create_inv_def init_form_def first_check_def)
  then have "create_inv (mounted_form x0)" by (simp add: mounted_form_def create_inv_render)
  with assms(1) show ?thesis by (rule form_create.reach_inv)
qed

text \<open>
  C16: every policy the create dialog can submit, after any sequence of user actions, meets
  the constraints of the resource definition (a known provider, at least one check, known
  severities); every check it carries has a non-blank id and description, and the name is
  not blank.
\<close>

theorem create_submits_valid_policy:
  assumes "form_reach yd x0 (x, f)" "fx_editPolicy x0 = None" "handleSubmit x f = Some m"
  shows "\<exists>d. m = CreateMut d \<and> crd_valid (d_spec d) \<and> list_all valid_check (checks (d_spec d))
    \<and> truthy (trim (d_name d)) \<and> truthy (d_namespace d)"
proof -
  have "create_inv (x, f)" using assms(1,2) by (rule create_reach_inv)
  moreover have "truthy (defaultNs x)" by (auto simp: defaultNs_def opt_or_str_def or_str_def split: option.splits)
  ultimately show ?thesis
    using assms(3)
    by (auto simp: handleSubmit_def isEdit_def create_inv_def crd_valid_def provider_valid_def severity_valid_def form_spec_def
        validChecks_def list_all_iff or_str_def split: if_splits)
qed

definition filled_form :: form where
  "filled_form = form_render (demo_ctx None)
     (updateCheck 0 F_description ''all pods run'' (init_form\<lparr>f_name := ''prod''\<rparr>))"

text \<open>A run of the form under a list of events, each one offered by the tree at its turn.\<close>

fun form_run :: "form_ctx \<times> form \<Rightarrow> form_event list \<Rightarrow> form_ctx \<times> form" where
  "form_run xf [] = xf"
| "form_run xf (e # es) = form_run (form_upd xf e) es"

fun offered_run :: "(json \<Rightarrow> string) \<Rightarrow> form_ctx \<times> form \<Rightarrow> form_event list \<Rightarrow> bool" where
  "offered_run yd xf [] = True"
| "offered_run yd xf (e # es) = (e \<in> offers (form_view yd xf) \<and> offered_run yd (form_upd xf e) es)"

lemma offered_run_reach:
  "form_reach yd x0 xf \<Longrightarrow> offered_run yd xf es \<Longrightarrow> form_reach yd x0 (form_run xf es)"
proof (induction es arbitrary: xf)
  case (Cons e es)
  then have "form_reach yd x0 (form_upd xf e)" by (simp add: ui_user)
  with Cons show ?case by simp
qed simp

lemma create_offers:
  assumes "fx_open x" "\<not> isEdit x"
  shows "SetName v \<in> offers (form_view yd (x, f))" "AddCheck \<in> offers (form_view yd (x, f))"
    "i < length (f_checks f) \<Longrightarrow> UpdateCheck i F_description v \<in> offers (form_view yd (x, f))"
    "i < length (f_checks f) \<Longrightarrow> \<not> length (f_checks f) \<le> 1 \<Longrightarrow> RemoveCheck i \<in> offers (form_view yd (x, f))"
proof -
  have card: "e \<in> offers (checks_editor f)" if "i < length (f_checks f)" "e \<in> offers (check_card f (i, f_checks f ! i))" for e
    using that by (auto simp: offers_checks_editor in_set_enumerate_eq intro!: bexI [of _ "(i, f_checks f ! i)"])
  show "SetName v \<in> offers (form_view yd (x, f))" "AddCheck \<in> offers (form_view yd (x, f))"
    using assms by (simp_all add: offers_form offers_fields offers_checks_editor)
  show "UpdateCheck i F_description v \<in> offers (form_view yd (x, f))" if "i < length (f_checks f)"
    using assms card [OF that, of "UpdateCheck i F_description v"]
    by (simp add: offers_form offers_check_card)
  show "RemoveCheck i \<in> offers (form_view yd (x, f))" if "i < length (f_checks f)" "\<not> length (f_checks f) \<le> 1"
    using assms that card [OF that(1), of "RemoveCheck i"] by (simp add: offers_form offers_check_card)
qed

lemma demo_ctx_simps [simp]:
  "fx_open (demo_ctx e)" "fx_editPolicy (demo_ctx e) = e" "isEdit (demo_ctx e) = (e \<noteq> None)"
  "defaultNs (demo_ctx e) = ''dtm-system''"
  by (simp_all add: demo_ctx_def isEdit_def defaultNs_def opt_or_str_def)

lemma form_render_demo [simp]: "form_render (demo_ctx None) f = f"
  by (simp add: form_render_def)

lemma mounted_demo: "mounted_form (demo_ctx None) = (demo_ctx None, init_form)"
  by (simp add: mounted_form_def)

lemma form_upd_demo: "form_upd (demo_ctx None, f) e =
    (case e of Rerender x' \<Rightarrow> (x', form_render x' f) | _ \<Rightarrow> (demo_ctx None, fst (form_step (demo_ctx None) f e)))"
  by (cases e) (simp_all add: form_upd_def Let_def)

lemma demo_submits:
  assumes "f_name f = ''prod''" "f_checks f = [first_check\<lparr>ci_description := ''all pods run''\<rparr>]"
  shows "\<exists>d. handleSubmit (demo_ctx None) f = Some (CreateMut d)"
proof -
  have "truthy (trim ''prod'')" "valid_check (first_check\<lparr>ci_description := ''all pods run''\<rparr>)"
    by (simp_all add: valid_check_def first_check_def trim_eq_Nil white_def)
  with assms show ?thesis by (simp add: handleSubmit_def validChecks_def)
qed

definition create_events :: "form_event list" where
  "create_events = [SetName ''prod'', UpdateCheck 0 F_description ''all pods run'']"

theorem create_submits_valid_policy_witness:
  "\<exists>d. handleSubmit (demo_ctx None) (snd (form_run (mounted_form (demo_ctx None)) create_events))
       = Some (CreateMut d) \<and> crd_valid (d_spec d)"
proof -
  define f where "f = snd (form_run (mounted_form (demo_ctx None)) create_events)"
  have run: "form_run (mounted_form (demo_ctx None)) create_events = (demo_ctx None, f)"
    by (simp add: f_def create_events_def mounted_demo form_upd_demo)
  have "offered_run (\<lambda>_. []) (mounted_form (demo_ctx None)) create_events"
    by (simp add: create_events_def mounted_demo form_upd_demo create_offers init_form_def)
  then have r: "form_reach (\<lambda>_. []) (demo_ctx None) (demo_ctx None, f)"
    using offered_run_reach [OF ui_start] run by metis
  have "f_name f = ''prod''" "f_checks f = [first_check\<lparr>ci_description := ''all pods run''\<rparr>]"
    by (simp_all add: f_def create_events_def mounted_demo form_upd_demo updateCheck_def init_form_def)
  then obtain m where m: "handleSubmit (demo_ctx None) f = Some m" using demo_submits by blast
  from create_submits_valid_policy [OF r _ m] m show ?thesis by (auto simp flip: f_def)
qed

text \<open>
  for a policy to be created, the YAML preview is what the dialog sends: the previewed
  resource is the submitted body with \<open>apiVersion\<close> and \<open>kind\<close> put in front.
\<close>

theorem preview_is_submission:
  assumes "handleSubmit x f = Some (CreateMut d)"
  shows "\<exists>fields. json_of_draft d = JObj fields
    \<and> buildCR x f = JObj ([(''apiVersion'', JStr ''dtm.dtm.io/v1alpha1''), (''kind'', JStr ''ChecklistPolicy'')] @ fields)"
proof -
  have name: "truthy (f_name f)" using assms by (auto simp: handleSubmit_def trim_def split: if_splits)
  have d: "d = \<lparr>d_name = f_name f, d_namespace = or_str (f_namespace f) (defaultNs x), d_spec = form_spec f\<rparr>"
    using assms by (auto simp: handleSubmit_def split: if_splits)
  show ?thesis
    using name by (simp add: d json_of_draft_def buildCR_def json_of_spec_def json_of_schedule_def
        json_of_llm_def json_of_secretRef_def json_of_check_def form_spec_def str_opt_def or_str_def)
qed

theorem preview_is_submission_witness:
  "\<exists>d fields. handleSubmit (demo_ctx None) filled_form = Some (CreateMut d) \<and> json_of_draft d = JObj fields
     \<and> buildCR (demo_ctx None) filled_form
       = JObj ([(''apiVersion'', JStr ''dtm.dtm.io/v1alpha1''), (''kind'', JStr ''ChecklistPolicy'')] @ fields)"
proof -
  have "f_name filled_form = ''prod''" "f_checks filled_form = [first_check\<lparr>ci_description := ''all pods run''\<rparr>]"
    by (simp_all add: filled_form_def updateCheck_def init_form_def)
  then obtain d where "handleSubmit (demo_ctx None) filled_form = Some (CreateMut d)"
    using demo_submits by blast
  with preview_is_submission [OF this] show ?thesis by blast
qed

section \<open>Check ids\<close>

definition duplicate_events :: "form_event list" where
  "duplicate_events =
     [SetName ''prod'', AddCheck, RemoveCheck 0, AddCheck,
      UpdateCheck 0 F_description ''all pods run'', UpdateCheck 1 F_description ''nodes are ready'']"

text \<open>
  the dialog makes up duplicate check ids.  Adding a check, removing the first one and
  adding another gives two checks with the id \<open>check-2\<close>, and with their descriptions
  filled in the policy is submitted that way.
\<close>

theorem duplicate_check_ids:
  "\<exists>x f d. form_reach yd (demo_ctx None) (x, f) \<and> handleSubmit x f = Some (CreateMut d)
     \<and> map ci_id (checks (d_spec d)) = [''check-2'', ''check-2'']"
proof -
  define f where "f = snd (form_run (mounted_form (demo_ctx None)) duplicate_events)"
  note ev = duplicate_events_def mounted_demo form_upd_demo init_form_def addCheck_def removeCheck_def
    drop_index_def updateCheck_def
  have run: "form_run (mounted_form (demo_ctx None)) duplicate_events = (demo_ctx None, f)"
    by (simp add: f_def duplicate_events_def mounted_demo form_upd_demo)
  have "offered_run yd (mounted_form (demo_ctx None)) duplicate_events"
    by (simp add: ev create_offers)
  then have r: "form_reach yd (demo_ctx None) (demo_ctx None, f)"
    using offered_run_reach [OF ui_start] run by metis
  have two: "dec_nat 2 = ''2''" by code_simp
  have "f_name f = ''prod''"
    "map ci_id (f_checks f) = [''check-2'', ''check-2'']"
    "map ci_description (f_checks f) = [''all pods run'', ''nodes are ready'']"
    using two by (simp_all add: f_def ev numeral_2_eq_2)
  moreover from this obtain c1 c2 where "f_checks f = [c1, c2]" by (cases "f_checks f") auto
  ultimately show ?thesis using r
    by (intro exI [of _ "demo_ctx None"] exI [of _ f])
       (simp add: handleSubmit_def validChecks_def valid_check_def form_spec_def trim_eq_Nil white_def)
qed

end
