(* ===== verification/Doubles.thy ===== *)
theory Doubles
  imports Complex_Main "HOL-Library.Log_Nat"
begin

text \<open>
  JavaScript numbers.  A quotient or a product of doubles is the exact result rounded to
  the nearest double, ties to the even one.  \<open>fl\<close> is that rounding on the rationals, for
  results in the normal range (exponents are not bounded here: every number the interface
  computes lies between $2^{-100}$ and $2^{63}$ or is zero).
\<close>

section \<open>Rounding to the nearest double\<close>

text \<open>The exponent of the binade of a positive rational: $2^e \le x < 2^{e+1}$.\<close>

definition expo :: "rat \<Rightarrow> int" where
  "expo x = (if 1 \<le> x then int (floorlog 2 (nat \<lfloor>x\<rfloor>)) - 1 else - int (ceillog2 (nat \<lceil>1 / x\<rceil>)))"

text \<open>Round to an integer, ties to even.\<close>

definition rne :: "rat \<Rightarrow> int" where
  "rne x =
     (let f = \<lfloor>x\<rfloor>; d = x - of_int f
      in if d < 1 / 2 then f else if d > 1 / 2 then f + 1 else if even f then f else f + 1)"

definition ulp :: "rat \<Rightarrow> rat" where
  "ulp x = 2 powi (expo x - 52)"

definition fl_pos :: "rat \<Rightarrow> rat" where
  "fl_pos x = of_int (rne (x / ulp x)) * ulp x"

definition fl :: "rat \<Rightarrow> rat" where
  "fl x = (if x = 0 then 0 else if x > 0 then fl_pos x else - fl_pos (- x))"

text \<open>Division, multiplication and \<open>Math.floor\<close>, \<open>Math.round\<close> on doubles.\<close>

definition js_div :: "rat \<Rightarrow> rat \<Rightarrow> rat" where
  "js_div a b = fl (a / b)"

definition js_mult :: "rat \<Rightarrow> rat \<Rightarrow> rat" where
  "js_mult a b = fl (a * b)"

definition js_round :: "rat \<Rightarrow> int" where
  "js_round x = \<lfloor>x + 1 / 2\<rfloor>"

section \<open>Integer rounding\<close>

lemma js_round_of_int [simp]: "js_round (of_int n) = n"
  by (simp add: js_round_def floor_eq_iff)

lemma js_round_error: "\<bar>of_int (js_round x) - x\<bar> \<le> 1 / 2"
  unfolding js_round_def by linarith

lemma js_round_mono: "x \<le> y \<Longrightarrow> js_round x \<le> js_round y"
  by (simp add: js_round_def floor_mono)

lemma rne_bounds: "of_int (rne x) \<le> x + 1 / 2" "x - 1 / 2 \<le> of_int (rne x)"
  by (auto simp: rne_def Let_def) linarith+

lemma rne_of_int [simp]: "rne (of_int n) = n"
  by (simp add: rne_def)

lemma rne_mono: "x \<le> y \<Longrightarrow> rne x \<le> rne y"
proof -
  assume xy: "x \<le> y"
  then have fl: "\<lfloor>x\<rfloor> \<le> \<lfloor>y\<rfloor>" by (rule floor_mono)
  show ?thesis
  proof (cases "\<lfloor>x\<rfloor> = \<lfloor>y\<rfloor>")
    case True
    with xy show ?thesis by (auto simp: rne_def Let_def)
  next
    case False
    with fl have "\<lfloor>x\<rfloor> + 1 \<le> \<lfloor>y\<rfloor>" by simp
    moreover have "rne x \<le> \<lfloor>x\<rfloor> + 1" by (simp add: rne_def Let_def)
    moreover have "\<lfloor>y\<rfloor> \<le> rne y" by (simp add: rne_def Let_def)
    ultimately show ?thesis by simp
  qed
qed

section \<open>Binades\<close>

lemma expo_ge1:
  assumes "1 \<le> x"
  shows "2 powi expo x \<le> x \<and> x < 2 powi (expo x + 1) \<and> 0 \<le> expo x"
proof -
  define n where "n = nat \<lfloor>x\<rfloor>"
  define l where "l = floorlog 2 n"
  have n: "0 < n" "of_nat n = (of_int \<lfloor>x\<rfloor> :: rat)"
    using assms by (auto simp: n_def le_floor_iff)
  have b: "2 ^ (l - 1) \<le> n" "n < 2 ^ l"
    using floorlog_bounds [of n 2] n by (auto simp: l_def)
  have l: "0 < l" using n by (simp add: l_def floorlog_def)
  have e: "expo x = int (l - 1)" "expo x + 1 = int l"
    using assms l by (auto simp: expo_def l_def n_def)
  have "(2 :: rat) ^ (l - 1) = of_nat (2 ^ (l - 1))" by simp
  also have "\<dots> \<le> of_nat n" using b by (subst of_nat_le_iff) simp
  also have "\<dots> \<le> x" using n by simp
  finally have lo: "(2 :: rat) ^ (l - 1) \<le> x" .
  have "x < of_int \<lfloor>x\<rfloor> + 1" by linarith
  also have "\<dots> = of_nat (n + 1)" using n by simp
  also have "\<dots> \<le> of_nat (2 ^ l)" using b by (subst of_nat_le_iff) simp
  finally have hi: "x < 2 ^ l" by simp
  have "2 powi expo x = (2 :: rat) ^ (l - 1)" by (simp only: e(1) power_int_of_nat)
  moreover have "2 powi (expo x + 1) = (2 :: rat) ^ l" by (simp only: e(2) power_int_of_nat)
  ultimately show ?thesis using lo hi e by simp
qed

lemma expo_lt1:
  assumes "0 < x" "x < 1"
  shows "2 powi expo x \<le> x \<and> x < 2 powi (expo x + 1) \<and> expo x < 0"
proof -
  define n where "n = nat \<lceil>1 / x\<rceil>"
  define k where "k = ceillog2 n"
  have inv: "1 < 1 / x" using assms by simp
  then have n: "2 \<le> n" "of_nat n = (of_int \<lceil>1 / x\<rceil> :: rat)"
    by (auto simp: n_def) linarith
  have b: "n \<le> 2 ^ k" "2 ^ k < 2 * n"
    using le_two_power_ceillog2 [of n] two_power_ceillog2_gt [of n] n by (auto simp: k_def)
  have k: "0 < k" using b n by (cases k) auto
  have e: "expo x = - int k" "expo x + 1 = - int (k - 1)"
    using assms k by (auto simp: expo_def k_def n_def)
  have "1 / x \<le> of_nat n" using n by simp
  also have "\<dots> \<le> of_nat (2 ^ k)" using b by (subst of_nat_le_iff) simp
  finally have "1 / x \<le> 2 ^ k" by simp
  then have lo: "1 / 2 ^ k \<le> x" using assms by (simp add: field_simps)
  have "2 ^ (k - 1) < n" using b k by (cases k) auto
  then have "2 ^ (k - 1) + 1 \<le> n" by simp
  then have "of_nat (2 ^ (k - 1) + 1) \<le> (of_nat n :: rat)" by (simp only: of_nat_le_iff)
  then have "(of_nat (2 ^ (k - 1)) :: rat) \<le> of_nat n - 1" by simp
  also have "\<dots> < 1 / x" using n by (simp add: n_def) linarith
  finally have "2 ^ (k - 1) < 1 / x" by simp
  then have hi: "x < 1 / 2 ^ (k - 1)" using assms by (simp add: field_simps)
  have "2 powi expo x = 1 / (2 :: rat) ^ k"
    by (simp only: e(1) power_int_minus power_int_of_nat inverse_eq_divide)
  moreover have "2 powi (expo x + 1) = 1 / (2 :: rat) ^ (k - 1)"
    by (simp only: e(2) power_int_minus power_int_of_nat inverse_eq_divide)
  ultimately show ?thesis using lo hi e k by simp
qed

lemma expo_bounds:
  assumes "0 < x"
  shows "2 powi expo x \<le> x" "x < 2 powi (expo x + 1)"
  using expo_ge1 [of x] expo_lt1 [of x] assms by (cases "1 \<le> x"; auto)+

lemma expo_mono:
  assumes "0 < x" "x \<le> y"
  shows "expo x \<le> expo y"
proof (rule ccontr)
  assume "\<not> ?thesis"
  then have "expo y + 1 \<le> expo x" by simp
  then have "(2 :: rat) powi (expo y + 1) \<le> 2 powi expo x" by (intro power_int_increasing) auto
  also have "\<dots> \<le> x" using assms by (intro expo_bounds)
  finally show False using assms expo_bounds(2) [of y] by simp
qed

lemma expo_less:
  assumes "0 < x" "x < 2 powi (e + 1)"
  shows "expo x \<le> e"
proof (rule ccontr)
  assume "\<not> ?thesis"
  then have "(2 :: rat) powi (e + 1) \<le> 2 powi expo x" by (intro power_int_increasing) auto
  with assms expo_bounds(1) [of x] show False by simp
qed

lemma ulp_pos [simp]: "0 < ulp x"
  by (simp add: ulp_def)

lemma ulp_nonzero [simp]: "ulp x \<noteq> 0" "0 \<le> ulp x"
  using ulp_pos [of x] by linarith+

lemma binade_ulp: "of_int (2 ^ 53) * ulp x = 2 powi (expo x + 1)" "of_int (2 ^ 52) * ulp x = 2 powi expo x"
proof -
  have "of_int (2 ^ n) * ulp x = 2 powi (expo x + (int n - 52))" for n
  proof -
    have "of_int (2 ^ n) = (2 :: rat) powi int n" by simp
    then have "of_int (2 ^ n) * ulp x = 2 powi (int n + (expo x - 52))"
      by (simp add: ulp_def power_int_add)
    then show ?thesis by (simp add: algebra_simps)
  qed
  from this [of 53] this [of 52] show "of_int (2 ^ 53) * ulp x = 2 powi (expo x + 1)"
    "of_int (2 ^ 52) * ulp x = 2 powi expo x" by simp_all
qed

section \<open>Rounding error, exact results, monotonicity\<close>

lemma fl_pos_error:
  shows "fl_pos x \<le> x + ulp x / 2" "x - ulp x / 2 \<le> fl_pos x"
proof -
  have "of_int (rne (x / ulp x)) * ulp x \<le> (x / ulp x + 1 / 2) * ulp x"
    by (intro mult_right_mono rne_bounds) simp
  then show "fl_pos x \<le> x + ulp x / 2"
    by (simp add: fl_pos_def distrib_right)
  have "(x / ulp x - 1 / 2) * ulp x \<le> of_int (rne (x / ulp x)) * ulp x"
    by (intro mult_right_mono rne_bounds) simp
  then show "x - ulp x / 2 \<le> fl_pos x"
    by (simp add: fl_pos_def left_diff_distrib)
qed

text \<open>A multiple of the unit in the last place is not changed.\<close>

lemma fl_pos_exact: "x = of_int n * ulp x \<Longrightarrow> fl_pos x = x"
proof -
  assume x: "x = of_int n * ulp x"
  then have "x / ulp x = of_int n" by (metis nonzero_mult_div_cancel_right ulp_pos less_irrefl)
  with x show ?thesis by (simp add: fl_pos_def)
qed

lemma powi_multiple:
  assumes "e \<le> (f :: int)"
  obtains m :: int where "(2 :: rat) powi f = of_int m * 2 powi e"
proof
  have "(2 :: rat) powi f = 2 powi (f - e) * 2 powi e"
    by (simp flip: power_int_add)
  also have "(2 :: rat) powi (f - e) = of_int (2 ^ nat (f - e))"
    using assms by (simp add: power_int_def)
  finally show "(2 :: rat) powi f = of_int (2 ^ nat (f - e)) * 2 powi e" .
qed

lemma fl_pos_power: "fl_pos (2 powi e) = 2 powi e"
proof -
  have "expo (2 powi e) \<le> e" by (rule expo_less) (auto intro: power_int_strict_increasing)
  then obtain m :: int where "(2 :: rat) powi e = of_int m * 2 powi (expo (2 powi e) - 52)"
    using powi_multiple [of "expo (2 powi e) - 52" e] by auto
  then show ?thesis by (intro fl_pos_exact) (simp add: ulp_def)
qed

lemma fl_pos_mono:
  assumes "0 < x" "x \<le> y"
  shows "fl_pos x \<le> fl_pos y"
proof (cases "expo x = expo y")
  case True
  then have u: "ulp x = ulp y" by (simp add: ulp_def)
  have "x / ulp y \<le> y / ulp y"
    using assms by (intro divide_right_mono) auto
  then have "rne (x / ulp y) \<le> rne (y / ulp y)" by (rule rne_mono)
  then show ?thesis by (simp add: fl_pos_def u)
next
  case False
  with expo_mono [OF assms] have e: "expo x + 1 \<le> expo y" by simp
  define b where "b = (2 :: rat) powi (expo x + 1)"
  have "b / ulp x = of_int (2 ^ 53)"
    by (simp add: b_def ulp_def flip: power_int_diff)
  moreover have "x / ulp x \<le> b / ulp x"
    using expo_bounds(2) [OF assms(1)] by (intro divide_right_mono) (auto simp: b_def)
  ultimately have "rne (x / ulp x) \<le> 2 ^ 53"
    by (metis rne_mono rne_of_int)
  then have "fl_pos x \<le> of_int (2 ^ 53) * ulp x"
    unfolding fl_pos_def by (intro mult_right_mono) (simp_all only: of_int_le_iff ulp_nonzero)
  also have "\<dots> = b" by (simp only: b_def binade_ulp)
  also have "b \<le> 2 powi expo y" unfolding b_def using e by (intro power_int_increasing) auto
  also have "\<dots> \<le> fl_pos y"
  proof -
    have "(2 :: rat) powi expo y / ulp y = of_int (2 ^ 52)"
      by (simp add: ulp_def flip: power_int_diff)
    moreover have "2 powi expo y / ulp y \<le> y / ulp y"
      using assms expo_bounds(1) [of y] by (intro divide_right_mono) auto
    ultimately have "2 ^ 52 \<le> rne (y / ulp y)" by (metis rne_mono rne_of_int)
    then have "of_int (2 ^ 52) * ulp y \<le> fl_pos y"
      unfolding fl_pos_def by (intro mult_right_mono) (simp_all only: of_int_le_iff ulp_nonzero)
    then show ?thesis by (simp only: binade_ulp)
  qed
  finally show ?thesis .
qed

lemma fl_0 [simp]: "fl 0 = 0"
  by (simp add: fl_def)

lemma fl_minus: "fl (- x) = - fl x"
  by (simp add: fl_def)

lemma fl_pos_nonneg: "0 < x \<Longrightarrow> 0 \<le> fl_pos x"
proof -
  assume "0 < x"
  then have "rne 0 \<le> rne (x / ulp x)" by (intro rne_mono) simp
  then show ?thesis by (simp add: fl_pos_def rne_def)
qed

lemma fl_sign: "0 \<le> x \<Longrightarrow> 0 \<le> fl x" "x \<le> 0 \<Longrightarrow> fl x \<le> 0"
  by (auto simp: fl_def intro: fl_pos_nonneg)

lemma fl_mono: "x \<le> y \<Longrightarrow> fl x \<le> fl y"
proof -
  assume xy: "x \<le> y"
  consider "0 < x" | "y < 0" | "x \<le> 0" "0 \<le> y" by linarith
  then show ?thesis
  proof cases
    case 1
    with xy show ?thesis by (simp add: fl_def fl_pos_mono)
  next
    case 2
    with xy show ?thesis by (simp add: fl_def fl_pos_mono)
  next
    case 3
    with fl_sign show ?thesis by (meson order_trans)
  qed
qed

lemma fl_pos_of_nat:
  assumes "0 < n" "n \<le> 2 ^ 53"
  shows "fl_pos (of_nat n) = of_nat n"
proof (cases "n = 2 ^ 53")
  case True
  then show ?thesis using fl_pos_power [of 53] by simp
next
  case False
  with assms have "n < 2 ^ 53" by simp
  then have "of_nat n < (of_nat (2 ^ 53) :: rat)" by (simp only: of_nat_less_iff)
  then have "of_nat n < (2 :: rat) powi (52 + 1)" by simp
  then have "expo (of_nat n) - 52 \<le> 0"
    using expo_less [of "of_nat n" 52] assms by simp
  then obtain m :: int where "(2 :: rat) powi 0 = of_int m * ulp (of_nat n)"
    unfolding ulp_def by (rule powi_multiple)
  then have "of_nat n = of_int (int n * m) * ulp (of_nat n)" by simp
  then show ?thesis by (rule fl_pos_exact)
qed

lemma fl_of_int: "\<bar>n\<bar> \<le> 2 ^ 53 \<Longrightarrow> fl (of_int n) = of_int n"
proof -
  assume n: "\<bar>n\<bar> \<le> 2 ^ 53"
  consider "n = 0" | "0 < n" | "n < 0" by linarith
  then show ?thesis
  proof cases
    case 1
    then show ?thesis by simp
  next
    case 2
    with n show ?thesis using fl_pos_of_nat [of "nat n"] by (simp add: fl_def)
  next
    case 3
    with n show ?thesis using fl_pos_of_nat [of "nat (- n)"] by (simp add: fl_def)
  qed
qed

lemma fl_of_nat: "n \<le> 2 ^ 53 \<Longrightarrow> fl (of_nat n) = of_nat n"
  using fl_of_int [of "int n"] by simp

lemma fl_numeral_bound: "x \<le> of_nat n \<Longrightarrow> n \<le> 2 ^ 53 \<Longrightarrow> fl x \<le> of_nat n"
  by (metis fl_mono fl_of_nat)

section \<open>Rounding error\<close>

lemma fl_rel_error:
  assumes "0 \<le> x"
  shows "\<bar>fl x - x\<bar> \<le> x / 2 ^ 53"
proof (cases "x = 0")
  case False
  with assms have x: "0 < x" by simp
  have "ulp x * 2 ^ 52 \<le> x"
    using expo_bounds(1) [OF x] binade_ulp(2) [of x] by (simp add: mult.commute)
  then have "ulp x / 2 \<le> x / 2 ^ 53" by simp
  with fl_pos_error [of x] have "\<bar>fl_pos x - x\<bar> \<le> x / 2 ^ 53" by linarith
  with x show ?thesis by (simp add: fl_def)
qed simp

text \<open>A rounded value is a double: rounding it again changes nothing.\<close>

lemma fl_pos_idem:
  assumes "0 < x"
  shows "fl_pos (fl_pos x) = fl_pos x"
proof -
  have lo: "2 powi expo x \<le> fl_pos x"
    using fl_pos_mono [of "2 powi expo x" x] expo_bounds(1) [OF assms] by (simp add: fl_pos_power)
  have hi: "fl_pos x \<le> 2 powi (expo x + 1)"
    using fl_pos_mono [of x "2 powi (expo x + 1)"] expo_bounds(2) [OF assms] assms
    by (simp add: fl_pos_power)
  show ?thesis
  proof (cases "fl_pos x = 2 powi (expo x + 1)")
    case True
    then show ?thesis by (simp only: fl_pos_power)
  next
    case False
    have pos: "0 < fl_pos x" using lo by (rule order_less_le_trans [rotated]) simp
    have "expo (fl_pos x) \<le> expo x" using hi False pos by (intro expo_less) auto
    moreover have "expo x \<le> expo (fl_pos x)"
    proof (rule ccontr)
      assume "\<not> ?thesis"
      then have "2 powi (expo (fl_pos x) + 1) \<le> (2 :: rat) powi expo x"
        by (intro power_int_increasing) auto
      with expo_bounds(2) [OF pos] lo show False by linarith
    qed
    ultimately have "ulp (fl_pos x) = ulp x" by (simp add: ulp_def)
    then show ?thesis using fl_pos_exact [of "fl_pos x" "rne (x / ulp x)"] by (simp add: fl_pos_def)
  qed
qed

lemma fl_pos_positive:
  assumes "0 < x"
  shows "0 < fl_pos x"
proof -
  have "2 powi expo x \<le> fl_pos x"
    using fl_pos_mono [of "2 powi expo x" x] expo_bounds(1) [OF assms] by (simp add: fl_pos_power)
  then show ?thesis by (rule order_less_le_trans [rotated]) simp
qed

lemma fl_positive [simp]: "0 < fl x \<longleftrightarrow> 0 < x"
  using fl_pos_positive [of x] fl_pos_positive [of "- x"] by (auto simp: fl_def)

lemma fl_idem [simp]: "fl (fl x) = fl x"
proof -
  consider "x = 0" | "0 < x" | "x < 0" by linarith
  then show ?thesis
  proof cases
    case 2
    then show ?thesis by (simp add: fl_def fl_pos_idem fl_pos_positive)
  next
    case 3
    then have "0 < fl_pos (- x)" by (intro fl_pos_positive) simp
    with 3 show ?thesis by (simp add: fl_def fl_pos_idem)
  qed simp
qed

text \<open>A fraction of a double, computed as \<open>(a / b) * c\<close>.\<close>

lemma fl_fraction_error:
  assumes "0 \<le> q" "0 \<le> c"
  shows "\<bar>fl (fl q * c) - q * c\<bar> \<le> q * c * 3 / 2 ^ 53"
proof -
  define a b where "a = fl q * c" and "b = q * c"
  define d where "d = b / 2 ^ 53"
  have ab: "0 \<le> a" "0 \<le> b" using fl_sign(1) [OF assms(1)] assms by (simp_all add: a_def b_def)
  have "\<bar>a - b\<bar> = \<bar>fl q - q\<bar> * c"
    using assms(2) by (simp add: a_def b_def abs_mult flip: left_diff_distrib)
  also have "\<dots> \<le> q / 2 ^ 53 * c" using fl_rel_error [OF assms(1)] assms(2) by (rule mult_right_mono)
  finally have near: "\<bar>a - b\<bar> \<le> d" by (simp add: b_def d_def)
  moreover have "d \<le> b" using ab(2) by (simp add: d_def)
  ultimately have "a \<le> b * 2" by linarith
  then have "a / 2 ^ 53 \<le> d * 2" by (simp add: d_def)
  with fl_rel_error [OF ab(1)] have "\<bar>fl a - a\<bar> \<le> d * 2" by (rule order_trans)
  with near have "\<bar>fl a - b\<bar> \<le> d * 3" by linarith
  then have "\<bar>fl a - b\<bar> \<le> b * 3 / 2 ^ 53" by (simp add: d_def)
  then show ?thesis by (simp add: a_def b_def)
qed

section \<open>Floor of a quotient\<close>

text \<open>
  \<open>Math.floor(a / b)\<close> on doubles is exact integer division for every non-negative
  integer \<open>a\<close> a double holds exactly and every positive integer \<open>b\<close>.
\<close>

lemma ulp_quotient:
  assumes "0 < a" "a < 2 ^ 53" "0 < b"
  shows "ulp (of_int a / of_int b) / 2 < 1 / of_int b"
proof -
  define q where "q = of_int a / (of_int b :: rat)"
  have q: "0 < q" using assms by (simp add: q_def)
  have "ulp q * 2 ^ 52 * of_int b \<le> q * of_int b"
    using expo_bounds(1) [OF q] binade_ulp(2) [of q] assms
    by (intro mult_right_mono) (auto simp: mult.commute)
  also have "\<dots> = of_int a" using assms by (simp add: q_def)
  also have "\<dots> < (of_int (2 ^ 53) :: rat)" using assms by (simp only: of_int_less_iff)
  finally have "ulp q * of_int b < 2" by simp
  then show ?thesis using assms by (simp add: field_simps flip: q_def)
qed

lemma int_quotient_range:
  assumes "0 \<le> a" "a < (2 :: int) ^ 53" "0 < b"
  shows "0 \<le> a div b" "a div b < 2 ^ 53"
  using assms zdiv_mono2 [of a 1 b] by (auto simp: pos_imp_zdiv_nonneg_iff)

lemma floor_fl_div:
  assumes "0 \<le> a" "a < 2 ^ 53" "0 < b"
  shows "\<lfloor>js_div (of_int a) (of_int b)\<rfloor> = a div b"
proof (cases "a = 0")
  case True
  then show ?thesis by (simp add: js_div_def)
next
  case False
  define q where "q = of_int a / (of_int b :: rat)"
  define k where "k = a div b"
  have q: "0 < q" using False assms by (simp add: q_def)
  note k = int_quotient_range [OF assms, folded k_def]
  have "of_int k \<le> q"
    using assms by (simp add: k_def q_def floor_divide_of_int_eq flip: le_floor_iff)
  then have "fl (of_int k) \<le> fl q" by (rule fl_mono)
  then have lo: "of_int k \<le> fl q" using k by (simp add: fl_of_int)
  have "a < (k + 1) * b"
    unfolding k_def distrib_right
    using pos_mod_bound [OF assms(3), of a] div_mult_mod_eq [of a b] by linarith
  then have "a + 1 \<le> (k + 1) * b" by simp
  then have "of_int (a + 1) \<le> (of_int ((k + 1) * b) :: rat)" by (simp only: of_int_le_iff)
  then have gap: "q \<le> of_int k + 1 - 1 / of_int b"
    using assms by (simp add: q_def field_simps)
  have "ulp q / 2 < 1 / of_int b" using ulp_quotient [of a b] False assms by (simp add: q_def)
  with gap fl_pos_error(1) [of q] have "fl_pos q < of_int k + 1" by linarith
  then have hi: "fl q < of_int k + 1" using q by (simp add: fl_def)
  show ?thesis using lo hi by (simp add: js_div_def q_def k_def floor_eq_iff)
qed

text \<open>The same for \<open>Math.ceil(a / b)\<close>.\<close>

lemma ceiling_fl_div:
  assumes "0 \<le> a" "a < 2 ^ 53" "0 < b"
  shows "\<lceil>js_div (of_int a) (of_int b)\<rceil> = (a + b - 1) div b"
proof (cases "b dvd a")
  case True
  then obtain k where k: "a = b * k" by blast
  then have "k < 2 ^ 53" "0 \<le> k" using int_quotient_range [OF assms] assms by auto
  then have "fl (of_int k) = of_int k" by (intro fl_of_int) simp
  moreover have "(a + b - 1) div b = k" using assms k by (simp flip: add_diff_eq)
  ultimately show ?thesis using assms k by (simp add: js_div_def)
next
  case False
  define q where "q = of_int a / (of_int b :: rat)"
  define k where "k = a div b"
  have a: "0 < a" using False assms(1) by (cases "a = 0") auto
  have q: "0 < q" using a assms by (simp add: q_def)
  note k = int_quotient_range [OF assms, folded k_def]
  have eq: "a = k * b + a mod b" by (simp add: k_def)
  have m: "0 < a mod b" "a mod b < b"
    using False pos_mod_sign [OF assms(3), of a] pos_mod_bound [OF assms(3), of a]
    by (auto simp: dvd_eq_mod_eq_0 order_less_le)
  have bound: "a \<le> (k + 1) * b" "k * b + 1 \<le> a" using eq m by (auto simp: distrib_right)
  from bound(1) have "of_int a \<le> (of_int ((k + 1) * b) :: rat)" by (simp only: of_int_le_iff)
  then have "q \<le> of_int (k + 1)" using assms by (simp add: q_def field_simps)
  then have "fl q \<le> fl (of_int (k + 1))" by (rule fl_mono)
  then have hi: "fl q \<le> of_int (k + 1)" using k by (subst (asm) fl_of_int) auto
  from bound(2) have "of_int (k * b + 1) \<le> (of_int a :: rat)" by (simp only: of_int_le_iff)
  then have "(of_int k * of_int b + 1) / of_int b \<le> q"
    unfolding q_def using assms by (intro divide_right_mono) auto
  then have gap: "of_int k + 1 / of_int b \<le> q" using assms by (simp add: add_divide_distrib)
  have "ulp q / 2 < 1 / of_int b" using ulp_quotient [of a b] a assms by (simp add: q_def)
  with gap fl_pos_error(2) [of q] have "of_int k < fl q" using q by (simp add: fl_def)
  moreover have "(a + b - 1) div b = k + 1"
  proof -
    have "a + b - 1 = (a mod b - 1) + (k + 1) * b" using eq by (simp add: distrib_right)
    moreover have "((a mod b - 1) + (k + 1) * b) div b = (k + 1) + (a mod b - 1) div b"
      using assms by (intro div_mult_self1) simp
    moreover have "(a mod b - 1) div b = 0" using m by (intro div_pos_pos_trivial) auto
    ultimately show ?thesis by (simp only: add_0_right)
  qed
  ultimately show ?thesis using hi by (simp add: js_div_def q_def ceiling_eq_iff)
qed

lemma floor_fl_div_neg:
  assumes "a < 0" "0 < b"
  shows "\<lfloor>js_div (of_int a) (of_int b)\<rfloor> \<le> 0"
proof -
  have "fl (of_int a / of_int b) \<le> 0"
    using assms by (intro fl_sign) (simp add: divide_le_0_iff)
  then have "\<lfloor>fl (of_int a / of_int b)\<rfloor> \<le> \<lfloor>0 :: rat\<rfloor>" by (rule floor_mono)
  then show ?thesis by (simp add: js_div_def)
qed

end
