(* ===== verification/Format.thy ===== *)
theory Format
  imports JsLib Doubles
begin

text \<open>
  \<open>ui/src/utils/format.ts\<close>.  A timestamp is a string; \<open>new Date(s).getTime()\<close> is a
  parameter \<open>date\<close> (the milliseconds since the epoch, \<open>None\<close> for NaN), because
  ECMAScript leaves the accepted formats other than its own to the engine.
  \<open>iso_time\<close> is its value on the format the API server writes,
  \<open>YYYY-MM-DDThh:mm:ssZ\<close>.
\<close>

section \<open>Timestamps\<close>

type_synonym date_parser = "string \<Rightarrow> int option"

text \<open>Days from 1970-01-01 to a civil date, counting the year from March.\<close>

definition days_from_civil :: "int \<Rightarrow> int \<Rightarrow> int \<Rightarrow> int" where
  "days_from_civil y m d =
     (let y' = (if m \<le> 2 then y - 1 else y);
          m' = (if m \<le> 2 then m + 9 else m - 3)
      in 365 * y' + y' div 4 - y' div 100 + y' div 400 + (153 * m' + 2) div 5 + d - 1 - 719468)"

definition num_at :: "nat \<Rightarrow> nat \<Rightarrow> string \<Rightarrow> int option" where
  "num_at i n s =
     (let w = take n (drop i s)
      in if length w = n \<and> list_all is_digit w then Some (int (undec_nat w)) else None)"

definition sep_at :: "nat \<Rightarrow> char \<Rightarrow> string \<Rightarrow> bool" where
  "sep_at i c s \<longleftrightarrow> i < length s \<and> s ! i = c"

definition month_days :: "int \<Rightarrow> int \<Rightarrow> int" where
  "month_days y m =
     (if m = 2 then (if (y mod 4 = 0 \<and> y mod 100 \<noteq> 0) \<or> y mod 400 = 0 then 29 else 28)
      else if m \<in> {4, 6, 9, 11} then 30 else 31)"

definition iso_time :: date_parser where
  "iso_time s =
     (if length s = 20 \<and> sep_at 4 CHR ''-'' s \<and> sep_at 7 CHR ''-'' s \<and> sep_at 10 CHR ''T'' s
         \<and> sep_at 13 CHR '':'' s \<and> sep_at 16 CHR '':'' s \<and> sep_at 19 CHR ''Z'' s
      then (case (num_at 0 4 s, num_at 5 2 s, num_at 8 2 s, num_at 11 2 s, num_at 14 2 s, num_at 17 2 s) of
          (Some y, Some mo, Some d, Some h, Some mi, Some sec) \<Rightarrow>
            if 1 \<le> mo \<and> mo \<le> 12 \<and> 1 \<le> d \<and> d \<le> month_days y mo \<and> h \<le> 23 \<and> mi \<le> 59 \<and> sec \<le> 59
            then Some (1000 * (sec + 60 * (mi + 60 * (h + 24 * days_from_civil y mo d))))
            else None
        | _ \<Rightarrow> None)
      else None)"

section \<open>The formatting functions\<close>

definition timeAgo :: "date_parser \<Rightarrow> int \<Rightarrow> string \<Rightarrow> string" where
  "timeAgo date now dateStr =
     (case date dateStr of
        None \<Rightarrow> ''NaNd ago''
      | Some t \<Rightarrow>
          let diff = now - t;
              mins = \<lfloor>js_div (of_int diff) 60000\<rfloor>
          in if mins < 1 then ''just now''
             else if mins < 60 then dec mins @ ''m ago''
             else let hrs = \<lfloor>js_div (of_int mins) 60\<rfloor>
                  in if hrs < 24 then dec hrs @ ''h ago''
                     else dec \<lfloor>js_div (of_int hrs) 24\<rfloor> @ ''d ago'')"

definition formatDuration :: "int option \<Rightarrow> string" where
  "formatDuration ms =
     (case ms of
        None \<Rightarrow> ''NaNm NaNs''
      | Some m \<Rightarrow>
          let secs = \<lfloor>js_div (of_int m) 1000\<rfloor>
          in if secs < 60 then dec secs @ ''s''
             else let mins = \<lfloor>js_div (of_int secs) 60\<rfloor>;
                      remainSecs = secs mod 60
                  in dec mins @ ''m '' @ dec remainSecs @ ''s'')"

section \<open>What they compute\<close>

lemma floor_js_div:
  assumes "0 \<le> a" "a < 2 ^ 53"
  shows "\<lfloor>js_div (of_int a) (numeral n)\<rfloor> = a div numeral n"
  using floor_fl_div [of a "numeral n"] assms by simp

lemma div_in_range:
  assumes "0 \<le> a" "a < 2 ^ 53"
  shows "0 \<le> a div numeral n" "a div numeral n < (2 :: int) ^ 53"
  using zdiv_mono2 [of a 1 "numeral n"] assms by (auto simp: pos_imp_zdiv_nonneg_iff)

lemma div_chain: "(a :: int) div numeral m div numeral n = a div (numeral m * numeral n)"
  by (simp only: zdiv_zmult2_eq [of "numeral n"] zero_le_numeral)

lemmas js_quot = floor_js_div div_in_range div_chain

text \<open>
  for a timestamp that parses, at most $2^{53}$ ms back, \<open>timeAgo\<close> is the elapsed
  time in whole minutes, hours or days by exact integer division of the milliseconds,
  although the code divides doubles step by step; anything under a minute, including a
  timestamp in the future, reads \<open>just now\<close>.
\<close>

theorem timeAgo_spec:
  assumes "date s = Some t" and "now - t < 2 ^ 53"
  shows "timeAgo date now s =
    (let d = now - t
     in if d < 60000 then ''just now''
        else if d < 3600000 then dec (d div 60000) @ ''m ago''
        else if d < 86400000 then dec (d div 3600000) @ ''h ago''
        else dec (d div 86400000) @ ''d ago'')"
proof (cases "now - t < 0")
  case True
  then have "\<lfloor>js_div (of_int (now - t)) 60000\<rfloor> \<le> 0"
    using floor_fl_div_neg [of "now - t" 60000] by simp
  with True assms show ?thesis by (simp add: timeAgo_def Let_def)
next
  case False
  define d where "d = now - t"
  from False assms have d: "0 \<le> d" "d < 2 ^ 53" by (auto simp: d_def)
  have quot: "\<lfloor>js_div (of_int d) 60000\<rfloor> = d div 60000"
    "\<lfloor>js_div (of_int (d div 60000)) 60\<rfloor> = d div 3600000"
    "\<lfloor>js_div (of_int (d div 3600000)) 24\<rfloor> = d div 86400000"
    using d by (simp_all add: js_quot)
  have "timeAgo date now s =
    (if d div 60000 < 1 then ''just now''
     else if d div 60000 < 60 then dec (d div 60000) @ ''m ago''
     else if d div 3600000 < 24 then dec (d div 3600000) @ ''h ago''
     else dec (d div 86400000) @ ''d ago'')"
    unfolding timeAgo_def Let_def assms(1) option.case d_def [symmetric] quot by (rule refl)
  moreover have "d div 60000 < 1 \<longleftrightarrow> d < 60000" "d div 60000 < 60 \<longleftrightarrow> d < 3600000"
    "d div 3600000 < 24 \<longleftrightarrow> d < 86400000"
    by linarith+
  ultimately show ?thesis by (simp add: Let_def flip: d_def)
qed

theorem timeAgo_spec_witness:
  "timeAgo iso_time 1700000000000 ''2023-11-14T20:00:00Z'' = ''2h ago''"
proof -
  have t: "iso_time ''2023-11-14T20:00:00Z'' = Some 1699992000000" by code_simp
  have two: "dec 2 = ''2''" by code_simp
  show ?thesis
    using timeAgo_spec [of iso_time "''2023-11-14T20:00:00Z''" 1699992000000 1700000000000] t two
    by simp
qed

text \<open>The closed form of \<open>formatDuration\<close>.\<close>

lemma formatDuration_eq:
  assumes "0 \<le> m" "m < 2 ^ 53"
  shows "formatDuration (Some m) =
    (if m < 60000 then dec (m div 1000) @ ''s''
     else dec (m div 60000) @ ''m '' @ dec (m div 1000 mod 60) @ ''s'')"
proof -
  have "m div 1000 < 60 \<longleftrightarrow> m < 60000" by linarith
  with assms show ?thesis
    by (simp add: formatDuration_def Let_def js_quot)
qed

lemma dec_no_m: "0 \<le> i \<Longrightarrow> CHR ''m'' \<notin> set (dec i)"
  by (auto simp: dec_def is_digit_def dest!: dec_nat_digits)

lemma minutes_inject:
  assumes "0 \<le> a" "0 \<le> b"
  shows "dec a @ CHR ''m'' # CHR '' '' # u = dec b @ CHR ''m'' # CHR '' '' # v \<longleftrightarrow> a = b \<and> u = v"
proof
  assume eq: "dec a @ CHR ''m'' # CHR '' '' # u = dec b @ CHR ''m'' # CHR '' '' # v"
  have "takeWhile (\<lambda>c. c \<noteq> CHR ''m'') (dec i @ CHR ''m'' # CHR '' '' # w) = dec i" if "0 \<le> i" for i w
    using dec_no_m [OF that] by (subst takeWhile_append2) auto
  then have "dec a = dec b" using eq assms by metis
  with eq show "a = b \<and> u = v" by simp
qed simp

text \<open>
  for durations of at most $2^{53}$ ms, two durations read the same exactly when they
  are the same number of whole seconds: the minutes-and-seconds text loses nothing but the
  milliseconds.
\<close>

theorem formatDuration_seconds:
  assumes "0 \<le> m" "m < 2 ^ 53" "0 \<le> n" "n < 2 ^ 53"
  shows "formatDuration (Some m) = formatDuration (Some n) \<longleftrightarrow> m div 1000 = n div 1000"
proof -
  have mixed: "dec a @ ''s'' \<noteq> dec b @ ''m '' @ w" if "0 \<le> a" "0 \<le> b" for a b w
  proof
    assume "dec a @ ''s'' = dec b @ ''m '' @ w"
    then have "CHR ''m'' \<in> set (dec a @ ''s'')" by simp
    then show False using dec_no_m [OF that(1)] by simp
  qed
  have chain: "i div 1000 div 60 = i div 60000" for i :: int by (simp add: div_chain)
  have split: "m div 1000 = n div 1000 \<longleftrightarrow>
      m div 60000 = n div 60000 \<and> m div 1000 mod 60 = n div 1000 mod 60"
    by (metis chain div_mult_mod_eq)
  have less: "i < 60000 \<longleftrightarrow> i div 1000 < 60" for i :: int by linarith
  have nonneg: "0 \<le> i div 1000" "0 \<le> i div 60000" if "0 \<le> i" for i :: int
    using that by (simp_all add: pos_imp_zdiv_nonneg_iff)
  consider "m < 60000" "n < 60000" | "m < 60000" "\<not> n < 60000" | "\<not> m < 60000" "n < 60000"
    | "\<not> m < 60000" "\<not> n < 60000" by blast
  then show ?thesis
  proof cases
    case 1
    with assms show ?thesis by (simp add: formatDuration_eq)
  next
    case 2
    with assms mixed [of "m div 1000" "n div 60000"] nonneg less [of m] less [of n] show ?thesis
      by (simp add: formatDuration_eq)
  next
    case 3
    with assms mixed [of "n div 1000" "m div 60000"] nonneg less [of m] less [of n] show ?thesis
      by (metis formatDuration_eq)
  next
    case 4
    with assms nonneg split show ?thesis by (simp add: formatDuration_eq minutes_inject)
  qed
qed

theorem formatDuration_seconds_witness:
  "formatDuration (Some 135000) = formatDuration (Some 135999)"
  using formatDuration_seconds [of 135000 135999] by simp

end
