(* ===== verification/Policies.thy ===== *)
theory Policies
  imports PolicyForm Format
begin

text \<open>
  \<open>ui/src/pages/Policies.tsx\<close> around the policy form: the list of policies, the detail
  view, the confirmation of a deletion and the badges for a policy's conditions.  The form
  of theory \<open>PolicyForm\<close> is part of the page's state: the page opens and closes it, and
  the handlers of the form run in the context the page gives it.
\<close>

section \<open>Conditions\<close>

text \<open>\<open>xs.find(p)\<close> is the library's \<open>find\<close>.\<close>

definition is_true :: "string \<Rightarrow> Condition \<Rightarrow> bool" where
  "is_true ty c \<longleftrightarrow> c_type c = ty \<and> c_status c = ''True''"

definition policy_conditions :: "ChecklistPolicy \<Rightarrow> Condition list" where
  "policy_conditions p =
     (case Option.bind (p_status p) conditions of Some cs \<Rightarrow> cs | None \<Rightarrow> [])"

definition getLatestCondition :: "ChecklistPolicy \<Rightarrow> Condition option" where
  "getLatestCondition p =
     (case policy_conditions p of
        [] \<Rightarrow> None
      | c # cs \<Rightarrow>
          (case find (is_true ''Degraded'') (c # cs) of
             Some d \<Rightarrow> Some d
           | None \<Rightarrow>
               (case find (is_true ''Available'') (c # cs) of
                  Some a \<Rightarrow> Some a
                | None \<Rightarrow> Some c)))"

definition ConditionBadge :: "ChecklistPolicy \<Rightarrow> 'e node" where
  "ConditionBadge p =
     (case getLatestCondition p of
        None \<Rightarrow> tag ''span'' [Txt ''-'']
      | Some cond \<Rightarrow>
          if is_true ''Degraded'' cond then
            El ''span'' [(''title'', c_message cond)] False [] [Badge V_fail [Txt ''Error'']]
          else if is_true ''Available'' cond then Badge V_pass [Txt ''Healthy'']
          else Badge V_neutral [Txt (c_type cond)])"

text \<open>The card at the end of the detail view.\<close>

definition since :: "date_parser \<Rightarrow> int \<Rightarrow> Condition \<Rightarrow> 'e node list" where
  "since date now c =
     (case c_lastTransitionTime c of
        Some t \<Rightarrow> show_if (truthy t) [tag ''span'' [Txt (timeAgo date now t)]]
      | None \<Rightarrow> [])"

definition health_status :: "date_parser \<Rightarrow> int \<Rightarrow> ChecklistPolicy \<Rightarrow> 'e node list" where
  "health_status date now p =
     (case policy_conditions p of
        [] \<Rightarrow> [plain_card [Badge V_neutral [Txt ''Pending''], tag ''span'' [Txt ''No scan has been executed yet'']]]
      | cs \<Rightarrow>
          (case find (is_true ''Degraded'') cs of
             Some d \<Rightarrow>
               [plain_card [tag ''div'' ([Badge V_fail [Txt ''Error''], tag ''span'' [Txt (c_reason d)]] @ since date now d),
                            tag ''div'' [Txt (c_message d)]]]
           | None \<Rightarrow>
               (case find (is_true ''Available'') cs of
                  Some a \<Rightarrow>
                    [plain_card [tag ''div'' ([Badge V_pass [Txt ''Healthy''], tag ''span'' [Txt (c_message a)]] @ since date now a)]]
                | None \<Rightarrow> [])))"

section \<open>State\<close>

text \<open>What the queries and the mutation of the form report, besides the page's own state.\<close>

record form_data =
  fd_info :: "string option"
  fd_namespaces :: "string list"
  fd_nsLoading :: bool
  fd_isPending :: bool
  fd_error :: "string option"

record policies_page =
  pp_selected :: "ChecklistPolicy option"
  pp_showCreate :: bool
  pp_deleteTarget :: "(string \<times> string) option"
  pp_data :: "ChecklistPolicy list option"
  pp_isLoading :: bool
  pp_runPending :: bool
  pp_deletePending :: bool
  pp_showEdit :: bool
  pp_detailRun :: bool
  pp_form :: form
  pp_formData :: form_data

definition pp_policies :: "policies_page \<Rightarrow> ChecklistPolicy list" where
  "pp_policies s = (case pp_data s of Some ps \<Rightarrow> ps | None \<Rightarrow> [])"

text \<open>The properties the page passes to the form: to create in the list, to edit in the detail view.\<close>

definition page_ctx :: "policies_page \<Rightarrow> form_ctx" where
  "page_ctx s =
     \<lparr>fx_open = (if pp_selected s = None then pp_showCreate s else pp_showEdit s),
      fx_editPolicy = pp_selected s, fx_info = fd_info (pp_formData s),
      fx_clusterNamespaces = fd_namespaces (pp_formData s), fx_nsLoading = fd_nsLoading (pp_formData s),
      fx_isPending = fd_isPending (pp_formData s), fx_error = fd_error (pp_formData s)\<rparr>"

definition page_render :: "policies_page \<Rightarrow> policies_page" where
  "page_render s = s\<lparr>pp_form := form_render (page_ctx s) (pp_form s)\<rparr>"

definition init_data :: form_data where
  "init_data = \<lparr>fd_info = None, fd_namespaces = [], fd_nsLoading = True, fd_isPending = False, fd_error = None\<rparr>"

definition init_policies :: "ChecklistPolicy list option \<Rightarrow> policies_page" where
  "init_policies cached =
     page_render
       \<lparr>pp_selected = None, pp_showCreate = False, pp_deleteTarget = None, pp_data = cached,
        pp_isLoading = (cached = None), pp_runPending = False, pp_deletePending = False,
        pp_showEdit = False, pp_detailRun = False, pp_form = init_form, pp_formData = init_data\<rparr>"

section \<open>Events\<close>

datatype policies_event =
    OpenCreate
  | SelectPolicy ChecklistPolicy
  | BackToList
  | OpenEdit
  | RunNow string string
  | RunSucceeded string
  | RunFailed string
  | DetailRun string string
  | DetailRunSucceeded string
  | DetailRunFailed string
  | AskDelete string string
  | DeleteClosed
  | DeleteConfirmed
  | DeleteSucceeded
  | DeleteFailed string
  | FormEv form_event
  | PoliciesData "ChecklistPolicy list"
  | PoliciesFailed
  | FormDataChanged form_data

datatype policies_effect =
    Call api_call
  | ShowToast string
  | ShowError string
  | Invalidate string

text \<open>
  A view that is mounted starts with a fresh form and mutations of its own.  A reply to a
  mutation of a form that is no longer mounted only shows its message and is left out.
\<close>

definition fresh_view :: "policies_page \<Rightarrow> policies_page" where
  "fresh_view s =
     s\<lparr>pp_showEdit := False, pp_detailRun := False, pp_form := init_form,
       pp_formData := (pp_formData s)\<lparr>fd_isPending := False, fd_error := None\<rparr>\<rparr>"

fun form_effect_page :: "policies_page \<Rightarrow> form_effect \<Rightarrow> policies_page" where
  "form_effect_page s OnClose =
     (if pp_selected s = None then s\<lparr>pp_showCreate := False\<rparr> else s\<lparr>pp_showEdit := False\<rparr>)"
| "form_effect_page s (Mutate m) = s\<lparr>pp_formData := (pp_formData s)\<lparr>fd_isPending := True, fd_error := None\<rparr>\<rparr>"
| "form_effect_page s (InvalidateQueries k) = s"
| "form_effect_page s (EffToast m) = s"

fun form_effect_out :: "form \<Rightarrow> form_effect \<Rightarrow> policies_effect list" where
  "form_effect_out f (Mutate m) = [Call (mutation_call f m)]"
| "form_effect_out f (InvalidateQueries k) = [Invalidate k]"
| "form_effect_out f (EffToast m) = [ShowToast m]"
| "form_effect_out f OnClose = []"

fun policies_handler :: "policies_page \<Rightarrow> policies_event \<Rightarrow> policies_page \<times> policies_effect list" where
  "policies_handler s OpenCreate = (s\<lparr>pp_showCreate := True\<rparr>, [])"
| "policies_handler s (SelectPolicy p) = (fresh_view (s\<lparr>pp_selected := Some p\<rparr>), [])"
| "policies_handler s BackToList = (fresh_view (s\<lparr>pp_selected := None\<rparr>), [])"
| "policies_handler s OpenEdit = (s\<lparr>pp_showEdit := True\<rparr>, [])"
| "policies_handler s (RunNow ns name) = (s\<lparr>pp_runPending := True\<rparr>, [Call (runNow ns name)])"
| "policies_handler s (RunSucceeded name) =
     (s\<lparr>pp_runPending := False\<rparr>, [ShowToast (''Scan triggered for '' @ name), Invalidate ''policies''])"
| "policies_handler s (RunFailed msg) =
     (s\<lparr>pp_runPending := False\<rparr>, [ShowError (''Failed to trigger scan: '' @ msg)])"
| "policies_handler s (DetailRun ns name) = (s\<lparr>pp_detailRun := True\<rparr>, [Call (runNow ns name)])"
| "policies_handler s (DetailRunSucceeded name) =
     (s\<lparr>pp_detailRun := False\<rparr>, [ShowToast (''Scan triggered for '' @ name), Invalidate ''policies''])"
| "policies_handler s (DetailRunFailed msg) =
     (s\<lparr>pp_detailRun := False\<rparr>, [ShowError (''Failed to trigger scan: '' @ msg)])"
| "policies_handler s (AskDelete ns name) = (s\<lparr>pp_deleteTarget := Some (ns, name)\<rparr>, [])"
| "policies_handler s DeleteClosed = (s\<lparr>pp_deleteTarget := None\<rparr>, [])"
| "policies_handler s DeleteConfirmed =
     (case pp_deleteTarget s of
        Some (ns, name) \<Rightarrow>
          (s\<lparr>pp_deleteTarget := None, pp_deletePending := True\<rparr>, [Call (deletePolicy ns name)])
      | None \<Rightarrow> (s, []))"
| "policies_handler s DeleteSucceeded = (s\<lparr>pp_deletePending := False\<rparr>, [Invalidate ''policies''])"
| "policies_handler s (DeleteFailed msg) = (s\<lparr>pp_deletePending := False\<rparr>, [])"
| "policies_handler s (FormEv e) =
     (let (f, es) = form_step (page_ctx s) (pp_form s) e
      in (fold (\<lambda>ef s. form_effect_page s ef) es (s\<lparr>pp_form := f\<rparr>),
          concat (map (form_effect_out (pp_form s)) es)))"
| "policies_handler s (PoliciesData ps) = (s\<lparr>pp_data := Some ps, pp_isLoading := False\<rparr>, [])"
| "policies_handler s PoliciesFailed = (s\<lparr>pp_isLoading := False\<rparr>, [])"
| "policies_handler s (FormDataChanged d) = (s\<lparr>pp_formData := d\<rparr>, [])"

definition policies_step :: "policies_page \<Rightarrow> policies_event \<Rightarrow> policies_page \<times> policies_effect list" where
  "policies_step s e = (let (s', es) = policies_handler s e in (page_render s', es))"

section \<open>The rendered list\<close>

definition status_counts :: "ChecklistPolicy \<Rightarrow> 'e node list" where
  "status_counts p =
     (case Option.bind (p_status p) p_summary of
        Some u \<Rightarrow>
          show_if (s_warn u > 0 \<or> s_fail u > 0)
            [tag ''span'' [Txt (dec (s_pass u)), Txt ''P'',
               Txt (if s_warn u > 0 then '' '' @ dec (s_warn u) @ ''W'' else []),
               Txt (if s_fail u > 0 then '' '' @ dec (s_fail u) @ ''F'' else [])]]
      | None \<Rightarrow> [])"

definition policy_row :: "date_parser \<Rightarrow> int \<Rightarrow> policies_page \<Rightarrow> ChecklistPolicy \<Rightarrow> policies_event node" where
  "policy_row date now s p =
     (let ns = m_namespace (p_metadata p); name = m_name (p_metadata p)
      in El ''tr'' [(''key'', ns @ ''/'' @ name)] False []
           [tag ''td'' [El ''span'' [] False [OnClick (SelectPolicy p)] [Txt name]],
            tag ''td'' [Badge V_neutral [Txt ns]],
            tag ''td'' [Txt (provider (llm (p_spec p)))],
            tag ''td'' [Txt (dec_nat (length (checks (p_spec p))))],
            tag ''td'' [Txt (fullScan (schedule (p_spec p)))],
            tag ''td'' [case Option.bind (p_status p) lastFullScanTime of
                          Some t \<Rightarrow> if truthy t then tag ''span'' [IconClock (sized 12), Txt (timeAgo date now t)] else Txt ''-''
                        | None \<Rightarrow> Txt ''-''],
            tag ''td'' [tag ''div'' (ConditionBadge p # status_counts p)],
            tag ''td'' [tag ''div''
              [Button secondary sm [IconPlay (sized 12)] (pp_runPending s) (RunNow ns name) [Txt ''Run''],
               Button danger sm [IconTrash (sized 12)] False (AskDelete ns name) []]]])"

definition DeletePolicyModal :: "(string \<times> string) option \<Rightarrow> bool \<Rightarrow> policies_event node list" where
  "DeletePolicyModal target isPending =
     Modal (target \<noteq> None) DeleteClosed ''Delete Policy''
       [tag ''div''
          [tag ''div'' [Txt ''Are you sure you want to delete '',
             tag ''strong'' [Txt (case target of Some (ns, name) \<Rightarrow> name | None \<Rightarrow> [])], Txt ''?''],
           tag ''div'' [Txt ''All scan history (ChecklistResults) for this policy will be permanently deleted. This action cannot be undone.'']],
        tag ''div''
          [Button secondary md [] False DeleteClosed [Txt ''Cancel''],
           Button danger md [] isPending DeleteConfirmed [Txt (if isPending then ''Deleting...'' else ''Delete Policy'')]]]"

definition policies_list :: "(json \<Rightarrow> string) \<Rightarrow> date_parser \<Rightarrow> int \<Rightarrow> policies_page \<Rightarrow> policies_event node" where
  "policies_list yaml_dump date now s =
     tag ''div''
       ([tag ''div''
           [tag ''div''
              [tag ''div'' [Txt ''Policies''],
               tag ''div'' [Txt (dec_nat (length (pp_policies s))), Txt '' checklist '',
                 Txt (if length (pp_policies s) = 1 then ''policy'' else ''policies'')]],
            Button primary md [IconPlus no_props] False OpenCreate [Txt ''New Policy'']]] @
        [if pp_policies s = [] then
           EmptyState (Some (IconPolicy (sized 40))) ''No policies yet''
             (Some ''Create a ChecklistPolicy to define verification checks for your cluster.'')
             (Some (Button primary md [IconPlus no_props] False OpenCreate [Txt ''Create Policy'']))
         else
           plain_card [tag ''div'' [tag ''table''
             [tag ''thead'' [tag ''tr'' (map (\<lambda>h. tag ''th'' [Txt h])
                [''Name'', ''Namespace'', ''Provider'', ''Checks'', ''Schedule'', ''Last Scan'', ''Status'', ''Actions''])],
              tag ''tbody'' (map (policy_row date now s) (pp_policies s))]]],
         embed FormEv (PolicyFormModal_view yaml_dump (page_ctx s) (pp_form s))] @
        DeletePolicyModal (pp_deleteTarget s) (pp_deletePending s))"

section \<open>The rendered detail view\<close>

definition InfoRow :: "string \<Rightarrow> string \<Rightarrow> 'e node" where
  "InfoRow label v = tag ''div'' [tag ''span'' [Txt label], tag ''span'' [Txt v]]"

definition MiniStat :: "string \<Rightarrow> int \<Rightarrow> string option \<Rightarrow> 'e node" where
  "MiniStat label v color =
     tag ''div'' [El ''div'' [(''color'', opt_or_str color ''var(--text-primary)'')] False [] [Txt (dec v)],
                  tag ''div'' [Txt label]]"

definition ago_or_never :: "date_parser \<Rightarrow> int \<Rightarrow> string option \<Rightarrow> string" where
  "ago_or_never date now t =
     (case t of Some u \<Rightarrow> if truthy u then timeAgo date now u else ''Never'' | None \<Rightarrow> ''Never'')"

definition info_cards :: "date_parser \<Rightarrow> int \<Rightarrow> ChecklistPolicy \<Rightarrow> 'e node" where
  "info_cards date now p =
     (let sp = p_spec p
      in tag ''div''
           [plain_card
              [tag ''div'' [Txt ''Configuration''],
               InfoRow ''Provider'' (provider (llm sp) @
                 (case model (llm sp) of Some m \<Rightarrow> if truthy m then '' ('' @ m @ '')'' else [] | None \<Rightarrow> [])),
               InfoRow ''Secret'' (sr_name (secretRef (llm sp))),
               InfoRow ''Namespaces'' (opt_or_str (map_option (join '', '') (targetNamespaces sp)) ''All''),
               InfoRow ''Escalation''
                 (dec (case escalationThreshold sp of Some n \<Rightarrow> if n = 0 then 5 else n | None \<Rightarrow> 5) @ '' failures'')],
            plain_card
              [tag ''div'' [Txt ''Schedule''],
               InfoRow ''Full Scan'' (fullScan (schedule sp)),
               InfoRow ''Rescan'' (opt_or_str (failedRescan (schedule sp)) ''Disabled''),
               InfoRow ''Last Full Scan'' (ago_or_never date now (Option.bind (p_status p) lastFullScanTime)),
               InfoRow ''Last Rescan'' (ago_or_never date now (Option.bind (p_status p) lastRescanTime))],
            plain_card
              [tag ''div'' [Txt ''Summary''],
               case Option.bind (p_status p) p_summary of
                 Some u \<Rightarrow> tag ''div''
                   [MiniStat ''Total'' (s_total u) None, MiniStat ''Pass'' (s_pass u) (Some ''var(--success)''),
                    MiniStat ''Warn'' (s_warn u) (Some ''var(--warning)''), MiniStat ''Fail'' (s_fail u) (Some ''var(--danger)'')]
               | None \<Rightarrow> tag ''div'' [Txt ''No scan data yet'']]])"

definition checks_table :: "ChecklistPolicy \<Rightarrow> 'e node" where
  "checks_table p =
     plain_card [tag ''table''
       [tag ''thead'' [tag ''tr'' [tag ''th'' [Txt ''ID''], tag ''th'' [Txt ''Severity''], tag ''th'' [Txt ''Description'']]],
        tag ''tbody'' (map (\<lambda>c. El ''tr'' [(''key'', ci_id c)] False []
            [tag ''td'' [Txt (ci_id c)], tag ''td'' [SeverityBadge (ci_severity c)], tag ''td'' [Txt (ci_description c)]])
          (checks (p_spec p)))]]"

definition PolicyDetail :: "(json \<Rightarrow> string) \<Rightarrow> date_parser \<Rightarrow> int \<Rightarrow> policies_page \<Rightarrow> ChecklistPolicy \<Rightarrow> policies_event node" where
  "PolicyDetail yaml_dump date now s p =
     (let ns = m_namespace (p_metadata p); name = m_name (p_metadata p)
      in tag ''div''
           ([tag ''div''
               [tag ''div''
                  [Button ghost sm [IconBack no_props] False BackToList [],
                   tag ''div'' [tag ''div'' [Txt name], tag ''div'' [Txt ns]]],
                tag ''div''
                  [Button secondary md [IconEdit (sized 14)] False OpenEdit [Txt ''Edit''],
                   Button primary md [IconPlay (sized 14)] (pp_detailRun s) (DetailRun ns name)
                     [Txt (if pp_detailRun s then ''Running...'' else ''Run Now'')]]],
             info_cards date now p,
             tag ''div'' [Txt ''Checks ('', Txt (dec_nat (length (checks (p_spec p)))), Txt '')''],
             checks_table p] @
            health_status date now p @
            [embed FormEv (PolicyFormModal_view yaml_dump (page_ctx s) (pp_form s))]))"

definition Policies_view :: "(json \<Rightarrow> string) \<Rightarrow> date_parser \<Rightarrow> int \<Rightarrow> policies_page \<Rightarrow> policies_event node" where
  "Policies_view yaml_dump date now s =
     (if pp_isLoading s then LoadingState
      else (case pp_selected s of
              Some p \<Rightarrow> PolicyDetail yaml_dump date now s p
            | None \<Rightarrow> policies_list yaml_dump date now s))"

section \<open>One reading of the conditions\<close>

text \<open>What the conditions of a policy say: an error before health, health before anything else.\<close>

datatype health = No_conditions | Error_since Condition | Healthy_since Condition | Other_condition Condition

definition policy_health :: "ChecklistPolicy \<Rightarrow> health" where
  "policy_health p =
     (let cs = policy_conditions p; ds = filter (is_true ''Degraded'') cs; avs = filter (is_true ''Available'') cs
      in if cs = [] then No_conditions else if ds \<noteq> [] then Error_since (hd ds)
         else if avs \<noteq> [] then Healthy_since (hd avs) else Other_condition (hd cs))"

primrec badge_of_health :: "health \<Rightarrow> 'e node" where
  "badge_of_health No_conditions = tag ''span'' [Txt ''-'']"
| "badge_of_health (Error_since c) = El ''span'' [(''title'', c_message c)] False [] [Badge V_fail [Txt ''Error'']]"
| "badge_of_health (Healthy_since c) = Badge V_pass [Txt ''Healthy'']"
| "badge_of_health (Other_condition c) = Badge V_neutral [Txt (c_type c)]"

primrec card_of_health :: "date_parser \<Rightarrow> int \<Rightarrow> health \<Rightarrow> 'e node list" where
  "card_of_health date now No_conditions =
     [plain_card [Badge V_neutral [Txt ''Pending''], tag ''span'' [Txt ''No scan has been executed yet'']]]"
| "card_of_health date now (Error_since c) =
     [plain_card [tag ''div'' ([Badge V_fail [Txt ''Error''], tag ''span'' [Txt (c_reason c)]] @ since date now c),
                  tag ''div'' [Txt (c_message c)]]]"
| "card_of_health date now (Healthy_since c) =
     [plain_card [tag ''div'' ([Badge V_pass [Txt ''Healthy''], tag ''span'' [Txt (c_message c)]] @ since date now c)]]"
| "card_of_health date now (Other_condition c) = []"

lemma find_filter: "find P xs = (if filter P xs = [] then None else Some (hd (filter P xs)))"
  by (induction xs) auto

lemma hd_filter: "filter P xs \<noteq> [] \<Longrightarrow> P (hd (filter P xs))"
  by (metis filter_eq_Cons_iff list.collapse)

lemma condition_kinds: "is_true ''Degraded'' c \<Longrightarrow> \<not> is_true ''Available'' c"
  by (auto simp: is_true_def)

text \<open>
  the badge of the list and the card of the detail view read the conditions alike: an
  error when some condition is \<open>Degraded\<close> and true, whatever the others say, else health
  when some is \<open>Available\<close> and true.
\<close>

theorem condition_views_agree:
  "ConditionBadge p = badge_of_health (policy_health p)
   \<and> health_status date now p = card_of_health date now (policy_health p)"
proof (cases "policy_conditions p")
  case (Cons c cs)
  let ?D = "filter (is_true ''Degraded'') (c # cs)" and ?A = "filter (is_true ''Available'') (c # cs)"
  consider "?D \<noteq> []" | "?D = []" "?A \<noteq> []" | "?D = []" "?A = []" by blast
  then show ?thesis
  proof cases
    case 1
    then show ?thesis using hd_filter [OF 1]
      by (simp only: ConditionBadge_def getLatestCondition_def health_status_def policy_health_def Cons
          find_filter Let_def list.case) simp
  next
    case 2
    have "is_true ''Available'' (hd ?A)" by (rule hd_filter [OF 2(2)])
    then have "\<not> is_true ''Degraded'' (hd ?A)" using condition_kinds by blast
    with 2 \<open>is_true ''Available'' (hd ?A)\<close> show ?thesis
      by (simp only: ConditionBadge_def getLatestCondition_def health_status_def policy_health_def Cons
          find_filter Let_def list.case) simp
  next
    case 3
    then show ?thesis
      by (auto simp: ConditionBadge_def getLatestCondition_def health_status_def policy_health_def Cons
          find_filter Let_def split: if_splits)
  qed
qed (simp add: ConditionBadge_def getLatestCondition_def health_status_def policy_health_def)

section \<open>Deletion\<close>

text \<open>
  a deletion is requested in one way only: the user confirms it in the dialog, which is
  open for the policy chosen before, and the call deletes that policy.
\<close>

theorem delete_needs_confirmation:
  assumes "Call c \<in> set (snd (policies_step s e))" "o_method (snd c) = ''DELETE''"
  shows "e = DeleteConfirmed \<and> (\<exists>ns name. pp_deleteTarget s = Some (ns, name) \<and> c = deletePolicy ns name)"
proof -
  have form: "o_method (snd (mutation_call f m)) \<noteq> ''DELETE''" for f m
    by (cases m) (simp_all add: createPolicy_def updatePolicy_def)
  have run: "o_method (snd (runNow ns name)) \<noteq> ''DELETE''" for ns name by (simp add: runNow_def)
  have out: "Call c \<notin> set (form_effect_out f ef)" for f ef
    using assms(2) form by (cases ef) auto
  show ?thesis
    using assms out run
    by (cases e) (auto simp: policies_step_def split: prod.splits option.splits)
qed

definition demo_page :: policies_page where
  "demo_page = init_policies (Some [demo_policy])"

theorem delete_needs_confirmation_witness:
  "Call (deletePolicy ''dtm-system'' ''prod'')
     \<in> set (snd (policies_step (fst (policies_step demo_page (AskDelete ''dtm-system'' ''prod''))) DeleteConfirmed))
   \<and> (\<exists>ns name. pp_deleteTarget (fst (policies_step demo_page (AskDelete ''dtm-system'' ''prod''))) = Some (ns, name)
        \<and> deletePolicy ''dtm-system'' ''prod'' = deletePolicy ns name)"
proof -
  let ?s = "fst (policies_step demo_page (AskDelete ''dtm-system'' ''prod''))"
  have c: "Call (deletePolicy ''dtm-system'' ''prod'') \<in> set (snd (policies_step ?s DeleteConfirmed))"
    by (simp add: policies_step_def page_render_def)
  have "o_method (snd (deletePolicy ''dtm-system'' ''prod'')) = ''DELETE''" by (simp add: deletePolicy_def)
  from delete_needs_confirmation [OF c this] c show ?thesis by blast
qed

section \<open>Editing twice\<close>

text \<open>A run of events, without the effects.\<close>

definition page_run :: "policies_page \<Rightarrow> policies_event list \<Rightarrow> policies_page" where
  "page_run s es = foldl (\<lambda>s e. fst (policies_step s e)) s es"

lemma page_run_simps [simp]:
  "page_run s [] = s" "page_run s (e # es) = page_run (fst (policies_step s e)) es"
  by (simp_all add: page_run_def)

text \<open>
  C40: the detail view keeps the copy of the policy it was opened with.  After an edit has been
  saved and the list has been refreshed with the new policy, opening the form again fills it
  from the old copy: saving it untouched sends the old spec and undoes the first edit.
\<close>

theorem second_edit_reverts_first:
  assumes "pp_selected s = Some p"
    and "list_all valid_check (checks (p_spec p))" "checks (p_spec p) \<noteq> []" "truthy (trim (m_name (p_metadata p)))"
  shows "snd (policies_step (page_run s [FormEv MutationSucceeded, PoliciesData ps, OpenEdit]) (FormEv Submit))
     = [Call (updatePolicy (m_namespace (p_metadata p)) (m_name (p_metadata p)) (resent_spec (p_spec p)))]"
proof -
  let ?s = "page_run s [FormEv MutationSucceeded, PoliciesData ps, OpenEdit]"
  have sel: "pp_selected ?s = Some p"
    using assms(1)
    by (simp add: policies_step_def page_render_def mutation_onSuccess_def handleClose_def Let_def)
  have "\<not> f_initialized (pp_form (page_run s [FormEv MutationSucceeded, PoliciesData ps]))"
    using assms(1)
    by (simp add: policies_step_def page_render_def mutation_onSuccess_def handleClose_def Let_def
        page_ctx_def form_render_def resetForm_def)
  then obtain f where form: "pp_form ?s = prefill p f"
    using assms(1)
    by (simp add: policies_step_def page_render_def mutation_onSuccess_def handleClose_def Let_def
        page_ctx_def form_render_def resetForm_def)
  have "validChecks (prefill p f) = checks (p_spec p)"
    using assms(2) by (auto simp: validChecks_def prefill_def list_all_iff intro!: filter_True)
  then have "handleSubmit (page_ctx ?s) (pp_form ?s) = Some (UpdateMut (resent_spec (p_spec p)))"
    unfolding form using assms sel
    by (simp add: handleSubmit_def isEdit_def form_spec_prefill del: page_run_simps) (simp add: prefill_def page_ctx_def)
  then show ?thesis
    by (simp add: policies_step_def form del: page_run_simps) (simp add: prefill_def)
qed

theorem second_edit_reverts_first_witness:
  "snd (policies_step (page_run (page_run demo_page [SelectPolicy demo_policy, OpenEdit])
       [FormEv MutationSucceeded, PoliciesData [], OpenEdit]) (FormEv Submit))
   = [Call (updatePolicy ''dtm-system'' ''prod'' (resent_spec (p_spec demo_policy)))]"
proof -
  have m: "m_namespace (p_metadata demo_policy) = ''dtm-system''" "m_name (p_metadata demo_policy) = ''prod''"
    "checks (p_spec demo_policy) \<noteq> []"
    by (simp_all add: demo_policy_def)
  show ?thesis unfolding m(1,2) [symmetric]
    by (rule second_edit_reverts_first)
       (use demo_policy_valid m(3) in \<open>simp_all add: policies_step_def page_render_def fresh_view_def Let_def\<close>)
qed

end
