(* ===== verification/JsonText.thy ===== *)
theory JsonText
  imports Json
begin

text \<open>
  \<open>JSON.stringify(v)\<close> and \<open>JSON.stringify(v, null, 2)\<close>: the text of a JSON value,
  with the indentation unit \<open>gap\<close> (empty, or two blanks) and the indentation \<open>ind\<close> of
  the enclosing level.
\<close>

section \<open>JSON.stringify\<close>

definition hex_digit :: "nat \<Rightarrow> char" where
  "hex_digit d = (if d < 10 then char_of (48 + d) else char_of (87 + d))"

text \<open>Control characters, the quote and the backslash are escaped; other units stand for themselves.\<close>

definition escape_unit :: "char \<Rightarrow> string" where
  "escape_unit c =
     (let n = of_char c :: nat
      in if n = 34 then [CHR 0x5C, CHR 0x22]
         else if n = 92 then [CHR 0x5C, CHR 0x5C]
         else if n = 8 then [CHR 0x5C, CHR ''b'']
         else if n = 12 then [CHR 0x5C, CHR ''f'']
         else if n = 10 then [CHR 0x5C, CHR ''n'']
         else if n = 13 then [CHR 0x5C, CHR ''r'']
         else if n = 9 then [CHR 0x5C, CHR ''t'']
         else if n < 32 then [CHR 0x5C, CHR ''u'', CHR ''0'', CHR ''0'', hex_digit (n div 16), hex_digit (n mod 16)]
         else [c])"

definition quote_str :: "string \<Rightarrow> string" where
  "quote_str s = [CHR 0x22] @ concat (map escape_unit s) @ [CHR 0x22]"

text \<open>Brackets around a list of items: empty, on one line, or one item per line.\<close>

definition bracket :: "char \<Rightarrow> char \<Rightarrow> string \<Rightarrow> string \<Rightarrow> string list \<Rightarrow> string" where
  "bracket l r gap ind items =
     (if items = [] then [l, r]
      else if gap = [] then [l] @ join '','' items @ [r]
      else [l] @ [CHR 0x0A] @ ind @ gap @ join ([CHR '','', CHR 0x0A] @ ind @ gap) items @ [CHR 0x0A] @ ind @ [r])"

definition member :: "string \<Rightarrow> string \<Rightarrow> string \<Rightarrow> string" where
  "member gap k v = quote_str k @ [CHR '':''] @ (if gap = [] then [] else [CHR '' '']) @ v"

fun stringify :: "string \<Rightarrow> string \<Rightarrow> json \<Rightarrow> string" where
  "stringify gap ind JNull = ''null''"
| "stringify gap ind (JBool b) = (if b then ''true'' else ''false'')"
| "stringify gap ind (JNum n) = dec n"
| "stringify gap ind (JStr s) = quote_str s"
| "stringify gap ind (JArr vs) = bracket CHR ''['' CHR '']'' gap ind (map (stringify gap (ind @ gap)) vs)"
| "stringify gap ind (JObj fs) =
     bracket CHR ''{'' CHR ''}'' gap ind
       (map (\<lambda>kv. member gap (fst kv) (stringify gap (ind @ gap) (snd kv))) fs)"

definition JSON_stringify :: "json \<Rightarrow> string" where
  "JSON_stringify v = stringify [] [] v"

definition JSON_stringify2 :: "json \<Rightarrow> string" where
  "JSON_stringify2 v = stringify ''  '' [] v"

section \<open>JSON.parse\<close>

text \<open>
  The result of parsing: a value, a \<open>SyntaxError\<close> (\<open>Bad\<close>), or \<open>Beyond\<close> for a text
  with a number or character the model has no value for (a number that is not an integer of
  at most $2^{53}$, an escape above \<open>\u00ff\<close>).
\<close>

datatype 'a pr = Done 'a | Bad | Beyond

fun bind_pr :: "'a pr \<Rightarrow> ('a \<Rightarrow> 'b pr) \<Rightarrow> 'b pr" where
  "bind_pr (Done x) f = f x"
| "bind_pr Bad f = Bad"
| "bind_pr Beyond f = Beyond"

lemma bind_pr_cong [fundef_cong]:
  "p = q \<Longrightarrow> (\<And>x. q = Done x \<Longrightarrow> f x = g x) \<Longrightarrow> bind_pr p f = bind_pr q g"
  by (cases q) auto

definition json_ws :: "char \<Rightarrow> bool" where
  "json_ws c \<longleftrightarrow> (of_char c :: nat) \<in> {9, 10, 13, 32}"

definition skip_ws :: "string \<Rightarrow> string" where
  "skip_ws s = dropWhile json_ws s"

definition escapes :: "(char \<times> char) list" where
  "escapes = [(CHR 0x22, CHR 0x22), (CHR 0x5C, CHR 0x5C), (CHR ''/'', CHR ''/''), (CHR ''b'', CHR 0x08),
     (CHR ''f'', CHR 0x0C), (CHR ''n'', CHR 0x0A), (CHR ''r'', CHR 0x0D), (CHR ''t'', CHR 0x09)]"

definition cons_fst :: "char \<Rightarrow> string \<times> string \<Rightarrow> string \<times> string" where
  "cons_fst c p = (c # fst p, snd p)"

text \<open>The rest of a string literal after its opening quote.\<close>

fun pstr :: "string \<Rightarrow> (string \<times> string) pr" where
  "pstr [] = Bad"
| "pstr (c # s) =
     (if c = CHR 0x22 then Done ([], s)
      else if c = CHR 0x5C then
        (case s of
           [] \<Rightarrow> Bad
         | e # t \<Rightarrow>
             if e = CHR ''u'' then
               (case t of
                  h1 # h2 # h3 # h4 # u \<Rightarrow>
                    (case (hex_value h1, hex_value h2, hex_value h3, hex_value h4) of
                       (Some a, Some b, Some x, Some y) \<Rightarrow>
                         if a = 0 \<and> b = 0 then map_pr (cons_fst (char_of (16 * x + y))) (pstr u) else Beyond
                     | _ \<Rightarrow> Bad)
                | _ \<Rightarrow> Bad)
             else (case map_of escapes e of
                     Some x \<Rightarrow> map_pr (cons_fst x) (pstr t)
                   | None \<Rightarrow> Bad))
      else if (of_char c :: nat) < 32 then Bad
      else map_pr (cons_fst c) (pstr s))"

text \<open>The part of a number after its integer digits: nothing, or a fraction and an exponent.\<close>

definition digits_then :: "string \<Rightarrow> string option" where
  "digits_then s = (if takeWhile is_digit s = [] then None else Some (dropWhile is_digit s))"

definition frac_part :: "string \<Rightarrow> string option" where
  "frac_part s = (case s of c # t \<Rightarrow> if c = CHR ''.'' then digits_then t else Some s | [] \<Rightarrow> Some [])"

definition exp_part :: "string \<Rightarrow> string option" where
  "exp_part s =
     (case s of
        c # t \<Rightarrow>
          if c = CHR ''e'' \<or> c = CHR ''E''
          then digits_then (case t of d # u \<Rightarrow> if d = CHR ''-'' \<or> d = CHR ''+'' then u else t | [] \<Rightarrow> [])
          else Some s
      | [] \<Rightarrow> Some [])"

definition pnum :: "string \<Rightarrow> (json \<times> string) pr" where
  "pnum s =
     (let neg = (take 1 s = ''-'');
          t = (if neg then drop 1 s else s);
          ds = takeWhile is_digit t; r = dropWhile is_digit t; n = undec_nat ds
      in if ds = [] \<or> (length ds > 1 \<and> hd ds = CHR ''0'') then Bad
         else case Option.bind (frac_part r) exp_part of
                None \<Rightarrow> Bad
              | Some r' \<Rightarrow> if r' = r \<and> int n \<le> 2 ^ 53 then Done (JNum (if neg then - int n else int n), r) else Beyond)"

text \<open>
  Values, the elements of an array after its bracket, the members of an object after its
  brace.  The fuel counts calls; two for each character are enough.
\<close>

fun pval :: "nat \<Rightarrow> string \<Rightarrow> (json \<times> string) pr"
  and pelems :: "nat \<Rightarrow> string \<Rightarrow> (json list \<times> string) pr"
  and pmembers :: "nat \<Rightarrow> string \<Rightarrow> (fields \<times> string) pr"
where
  "pval 0 s = Bad"
| "pval (Suc n) s =
     (case skip_ws s of
        [] \<Rightarrow> Bad
      | c # t \<Rightarrow>
          if c = CHR 0x22 then map_pr (\<lambda>p. (JStr (fst p), snd p)) (pstr t)
          else if c = CHR ''['' then
            (if take 1 (skip_ws t) = '']'' then Done (JArr [], drop 1 (skip_ws t))
             else map_pr (\<lambda>p. (JArr (fst p), snd p)) (pelems n t))
          else if c = CHR ''{'' then
            (if take 1 (skip_ws t) = ''}'' then Done (JObj [], drop 1 (skip_ws t))
             else map_pr (\<lambda>p. (JObj (spread [] (fst p)), snd p)) (pmembers n t))
          else if startsWith (c # t) ''null'' then Done (JNull, drop 4 (c # t))
          else if startsWith (c # t) ''true'' then Done (JBool True, drop 4 (c # t))
          else if startsWith (c # t) ''false'' then Done (JBool False, drop 5 (c # t))
          else pnum (c # t))"
| "pelems 0 s = Bad"
| "pelems (Suc n) s =
     bind_pr (pval n s) (\<lambda>p.
       case skip_ws (snd p) of
         c # r \<Rightarrow> if c = CHR '','' then map_pr (\<lambda>q. (fst p # fst q, snd q)) (pelems n r)
                  else if c = CHR '']'' then Done ([fst p], r) else Bad
       | [] \<Rightarrow> Bad)"
| "pmembers 0 s = Bad"
| "pmembers (Suc n) s =
     (case skip_ws s of
        c # t \<Rightarrow>
          if c = CHR 0x22 then
            bind_pr (pstr t) (\<lambda>k.
              case skip_ws (snd k) of
                d # u \<Rightarrow>
                  if d = CHR '':'' then
                    bind_pr (pval n u) (\<lambda>p.
                      case skip_ws (snd p) of
                        e # r \<Rightarrow> if e = CHR '','' then map_pr (\<lambda>q. ((fst k, fst p) # fst q, snd q)) (pmembers n r)
                                 else if e = CHR ''}'' then Done ([(fst k, fst p)], r) else Bad
                      | [] \<Rightarrow> Bad)
                  else Bad
              | [] \<Rightarrow> Bad)
          else Bad
      | [] \<Rightarrow> Bad)"

definition JSON_parse :: "string \<Rightarrow> json pr" where
  "JSON_parse s =
     bind_pr (pval (2 * length s + 1) s) (\<lambda>p. if skip_ws (snd p) = [] then Done (fst p) else Bad)"

end
