(* ===== verification/Results.thy ===== *)
theory Results
  imports Client Widgets Format JsonText
begin

text \<open>
  \<open>ui/src/pages/Results.tsx\<close>: the list of scan results with its filters and pages, and
  the detail view of one result.  The query library delivers the list and refreshes it
  every 30 seconds; both are events of the environment.  \<open>new Date(s).getTime()\<close> and
  \<open>toLocaleString()\<close> depend on the browser and are parameters, as is the current time.
\<close>

section \<open>State\<close>

record clock_env =
  ce_date :: date_parser
  ce_now :: int
  ce_locale :: "string \<Rightarrow> string"

text \<open>
  The state variables of \<open>Results\<close>, the data and the loading flag of its query, and
  the set \<open>expanded\<close> of the detail view, in insertion order, which is new whenever a
  result is opened.
\<close>

record results_page =
  rp_selected :: "ChecklistResult option"
  rp_search :: string
  rp_filterPolicy :: string
  rp_filterVerdict :: string
  rp_filterType :: string
  rp_page :: int
  rp_data :: "ChecklistResult list option"
  rp_isLoading :: bool
  rp_expanded :: "string list"

definition PAGE_SIZE :: int where
  "PAGE_SIZE = 20"

definition init_results :: "ChecklistResult list option \<Rightarrow> results_page" where
  "init_results cached =
     \<lparr>rp_selected = None, rp_search = [], rp_filterPolicy = [], rp_filterVerdict = [],
      rp_filterType = [], rp_page = 0, rp_data = cached, rp_isLoading = (cached = None),
      rp_expanded = []\<rparr>"

definition rp_results :: "results_page \<Rightarrow> ChecklistResult list" where
  "rp_results s = (case rp_data s of Some rs \<Rightarrow> rs | None \<Rightarrow> [])"

section \<open>Sorting and filtering\<close>

definition newest_first :: "date_parser \<Rightarrow> ChecklistResult comparator" where
  "newest_first date a b =
     (case (date (m_creationTimestamp (r_metadata b)), date (m_creationTimestamp (r_metadata a))) of
        (Some tb, Some ta) \<Rightarrow> Some (tb - ta)
      | _ \<Rightarrow> None)"

definition matches_search :: "string \<Rightarrow> ChecklistResult \<Rightarrow> bool" where
  "matches_search q r \<longleftrightarrow>
     str_includes (toLowerCase (m_name (r_metadata r))) q \<or> str_includes (toLowerCase (policyRef (r_spec r))) q"

definition matches_verdict :: "string \<Rightarrow> ChecklistResult \<Rightarrow> bool" where
  "matches_verdict v r =
     (if v = ''PASS'' then (case r_summary (r_spec r) of Some u \<Rightarrow> s_fail u = 0 \<and> s_warn u = 0 | None \<Rightarrow> False)
      else if v = ''FAIL'' then (case r_summary (r_spec r) of Some u \<Rightarrow> s_fail u > 0 | None \<Rightarrow> False)
      else if v = ''WARN'' then (case r_summary (r_spec r) of Some u \<Rightarrow> s_warn u > 0 \<and> s_fail u = 0 | None \<Rightarrow> False)
      else True)"

definition filtered_results :: "date_parser \<Rightarrow> results_page \<Rightarrow> ChecklistResult list" where
  "filtered_results date s =
     (let list0 = js_sort (newest_first date) (rp_results s);
          list1 = (if truthy (rp_search s)
                   then filter (matches_search (toLowerCase (rp_search s))) list0 else list0);
          list2 = (if truthy (rp_filterPolicy s)
                   then filter (\<lambda>r. policyRef (r_spec r) = rp_filterPolicy s) list1 else list1);
          list3 = (if truthy (rp_filterType s)
                   then filter (\<lambda>r. scanType (r_spec r) = rp_filterType s) list2 else list2)
      in if truthy (rp_filterVerdict s) then filter (matches_verdict (rp_filterVerdict s)) list3 else list3)"

definition totalPages :: "date_parser \<Rightarrow> results_page \<Rightarrow> int" where
  "totalPages date s = \<lceil>js_div (of_nat (length (filtered_results date s))) (of_int PAGE_SIZE)\<rceil>"

definition paged :: "date_parser \<Rightarrow> results_page \<Rightarrow> ChecklistResult list" where
  "paged date s = js_slice (rp_page s * PAGE_SIZE) ((rp_page s + 1) * PAGE_SIZE) (filtered_results date s)"

definition policyNames :: "results_page \<Rightarrow> string list" where
  "policyNames s = sort (js_set (map (\<lambda>r. policyRef (r_spec r)) (rp_results s)))"

section \<open>Events\<close>

datatype results_event =
    SetSearch string
  | SetFilterPolicy string
  | SetFilterType string
  | SetFilterVerdict string
  | PrevPage
  | NextPage
  | SetSelected ChecklistResult
  | OnBack
  | ToggleCheck string
  | ExpandAll
  | QueryData "ChecklistResult list"
  | QueryFailed

text \<open>The handlers of the detail view on the set of expanded checks.\<close>

definition toggle_check :: "string \<Rightarrow> string list \<Rightarrow> string list" where
  "toggle_check i prev = (if i \<in> set prev then removeAll i prev else prev @ [i])"

definition check_count :: "ChecklistResult \<Rightarrow> nat" where
  "check_count r = (case r_checks (r_spec r) of Some cs \<Rightarrow> length cs | None \<Rightarrow> 0)"

definition all_expanded :: "ChecklistResult \<Rightarrow> string list \<Rightarrow> bool" where
  "all_expanded r expanded \<longleftrightarrow> length expanded = check_count r"

definition expandAll :: "ChecklistResult \<Rightarrow> string list \<Rightarrow> string list" where
  "expandAll r expanded =
     (if all_expanded r expanded then []
      else (case r_checks (r_spec r) of Some cs \<Rightarrow> js_set (map cr_id cs) | None \<Rightarrow> []))"

fun results_step :: "results_page \<Rightarrow> results_event \<Rightarrow> results_page" where
  "results_step s (SetSearch v) = s\<lparr>rp_search := v, rp_page := 0\<rparr>"
| "results_step s (SetFilterPolicy v) = s\<lparr>rp_filterPolicy := v, rp_page := 0\<rparr>"
| "results_step s (SetFilterType v) = s\<lparr>rp_filterType := v, rp_page := 0\<rparr>"
| "results_step s (SetFilterVerdict v) = s\<lparr>rp_filterVerdict := v, rp_page := 0\<rparr>"
| "results_step s PrevPage = s\<lparr>rp_page := rp_page s - 1\<rparr>"
| "results_step s NextPage = s\<lparr>rp_page := rp_page s + 1\<rparr>"
| "results_step s (SetSelected r) = s\<lparr>rp_selected := Some r, rp_expanded := []\<rparr>"
| "results_step s OnBack = s\<lparr>rp_selected := None\<rparr>"
| "results_step s (ToggleCheck i) = s\<lparr>rp_expanded := toggle_check i (rp_expanded s)\<rparr>"
| "results_step s ExpandAll =
     (case rp_selected s of
        Some r \<Rightarrow> s\<lparr>rp_expanded := expandAll r (rp_expanded s)\<rparr>
      | None \<Rightarrow> s)"
| "results_step s (QueryData rs) = s\<lparr>rp_data := Some rs, rp_isLoading := False\<rparr>"
| "results_step s QueryFailed = s\<lparr>rp_isLoading := False\<rparr>"

section \<open>The rendered list\<close>

definition scan_duration :: "date_parser \<Rightarrow> ChecklistResult \<Rightarrow> string" where
  "scan_duration date r =
     (case completedAt (r_spec r) of
        Some c \<Rightarrow>
          if truthy c \<and> truthy (startedAt (r_spec r))
          then formatDuration (case (date c, date (startedAt (r_spec r))) of
                                 (Some tc, Some ts) \<Rightarrow> Some (tc - ts) | _ \<Rightarrow> None)
          else ''-''
      | None \<Rightarrow> ''-'')"

definition scanType_badge :: "ChecklistResult \<Rightarrow> 'e node" where
  "scanType_badge r =
     Badge (if scanType (r_spec r) = ''FullScan'' then V_info else V_neutral) [Txt (scanType (r_spec r))]"

text \<open>A count of the summary, 0 when there is no summary.\<close>

definition count_cell :: "(Summary \<Rightarrow> int) \<Rightarrow> ChecklistResult \<Rightarrow> 'e node" where
  "count_cell sel r =
     tag ''td'' [Txt (dec (case r_summary (r_spec r) of Some u \<Rightarrow> sel u | None \<Rightarrow> 0))]"

definition result_row :: "clock_env \<Rightarrow> ChecklistResult \<Rightarrow> results_event node" where
  "result_row ce r =
     El ''tr'' [(''key'', m_name (r_metadata r))] False []
       [tag ''td'' [El ''span'' [] False [OnClick (SetSelected r)] [Txt (m_name (r_metadata r))]],
        tag ''td'' [Txt (policyRef (r_spec r))],
        tag ''td'' [scanType_badge r],
        count_cell s_pass r, count_cell s_warn r, count_cell s_fail r,
        tag ''td'' [Badge (if r_phase r = Some ''Completed'' then V_pass
                           else if r_phase r = Some ''Failed'' then V_fail else V_neutral)
                      [Txt (opt_or_str (r_phase r) ''-'')]],
        tag ''td'' [Txt (scan_duration (ce_date ce) r)],
        tag ''td'' [tag ''span'' [IconClock (sized 11),
                      Txt (timeAgo (ce_date ce) (ce_now ce) (m_creationTimestamp (r_metadata r)))]]]"

text \<open>A drop-down list of the tool bar.\<close>

definition toolbar_select :: "string \<Rightarrow> (string \<Rightarrow> 'e) \<Rightarrow> (string \<times> string) list \<Rightarrow> 'e node" where
  "toolbar_select v onChange options =
     El ''select'' [(''className'', ''toolbar-select''), (''value'', v)] False
       [OnSelect (map fst options) onChange]
       (map (\<lambda>opt. El ''option'' [(''value'', fst opt)] False [] [Txt (snd opt)]) options)"

definition results_toolbar :: "results_page \<Rightarrow> results_event node" where
  "results_toolbar s =
     tag ''div''
       [El ''input'' [(''placeholder'', ''Search results...''), (''value'', rp_search s)] False [OnChange SetSearch] [],
        toolbar_select (rp_filterPolicy s) SetFilterPolicy
          (([], ''All Policies'') # map (\<lambda>n. (n, n)) (policyNames s)),
        toolbar_select (rp_filterType s) SetFilterType
          [([], ''All Types''), (''FullScan'', ''Full Scan''), (''Rescan'', ''Rescan'')],
        toolbar_select (rp_filterVerdict s) SetFilterVerdict
          [([], ''All Status''), (''PASS'', ''All Pass''), (''WARN'', ''Has Warnings''), (''FAIL'', ''Has Failures'')]]"

definition results_head :: "'e node" where
  "results_head =
     tag ''thead'' [tag ''tr''
       [tag ''th'' [Txt ''Result''], tag ''th'' [Txt ''Policy''], tag ''th'' [Txt ''Type''],
        tag ''th'' [Txt ''Pass '', Help ''Checks that found no issues''],
        tag ''th'' [Txt ''Warn '', Help ''Checks that found issues not requiring immediate action''],
        tag ''th'' [Txt ''Fail '', Help ''Checks that found issues requiring immediate action''],
        tag ''th'' [Txt ''Phase''], tag ''th'' [Txt ''Duration''], tag ''th'' [Txt ''Time'']]]"

definition pagination :: "date_parser \<Rightarrow> results_page \<Rightarrow> results_event node list" where
  "pagination date s =
     show_if (totalPages date s > 1)
       [tag ''div''
          [tag ''span'' [Txt ''Page '', Txt (dec (rp_page s + 1)), Txt '' of '', Txt (dec (totalPages date s))],
           tag ''div''
             [Button secondary sm [] (rp_page s = 0) PrevPage [Txt ''Previous''],
              Button secondary sm [] (rp_page s \<ge> totalPages date s - 1) NextPage [Txt ''Next'']]]]"

definition results_list :: "clock_env \<Rightarrow> results_page \<Rightarrow> results_event node" where
  "results_list ce s =
     (let filtered = filtered_results (ce_date ce) s
      in tag ''div''
           ([tag ''div'' [tag ''div''
               [tag ''div'' [Txt ''Results''],
                tag ''div'' [Txt (dec_nat (length filtered)), Txt '' scan '',
                             Txt (if length filtered = 1 then ''result'' else ''results'')]]],
             results_toolbar s] @
            (if filtered = [] then
               [EmptyState (Some (IconResult (sized 40)))
                  (if rp_results s = [] then ''No results yet'' else ''No matching results'')
                  (Some (if rp_results s = [] then ''Results will appear here after a scan runs.''
                         else ''Try adjusting your filters.'')) None]
             else
               plain_card [tag ''div'' [tag ''table'' [results_head,
                 tag ''tbody'' (map (result_row ce) (paged (ce_date ce) s))]]]
               # pagination (ce_date ce) s)))"

section \<open>The rendered detail view\<close>

definition verdict_color :: "string \<Rightarrow> string option" where
  "verdict_color v = map_of [(''PASS'', ''var(--success)''), (''WARN'', ''var(--warning)''), (''FAIL'', ''var(--danger)'')] v"

definition VerdictDot :: "string \<Rightarrow> 'e node" where
  "VerdictDot verdict =
     El ''div''
       [(''background'', opt_or_str (verdict_color verdict) ''var(--text-tertiary)''),
        (''boxShadow'', ''0 0 6px '' @ opt_or_str (verdict_color verdict) ''transparent'')] False [] []"

definition summary_card :: "int \<Rightarrow> string \<Rightarrow> 'e node" where
  "summary_card n label = plain_card [tag ''div'' [Txt (dec n)], tag ''div'' [Txt label]]"

definition detail_summary :: "ChecklistResult \<Rightarrow> 'e node list" where
  "detail_summary r =
     (case r_summary (r_spec r) of
        Some u \<Rightarrow> [tag ''div'' [summary_card (s_total u) ''TOTAL'', summary_card (s_pass u) ''PASS'',
                               summary_card (s_warn u) ''WARN'', summary_card (s_fail u) ''FAIL'']]
      | None \<Rightarrow> [])"

definition detail_header :: "clock_env \<Rightarrow> ChecklistResult \<Rightarrow> results_event node" where
  "detail_header ce r =
     tag ''div'' [tag ''div''
       [Button ghost sm [IconBack no_props] False OnBack [],
        tag ''div''
          [tag ''div'' [Txt (m_name (r_metadata r))],
           tag ''div''
             [tag ''span'' [Txt ''Policy: '', Txt (policyRef (r_spec r))],
              scanType_badge r,
              Badge (if r_phase r = Some ''Completed'' then V_pass else V_fail) [Txt (opt_or_str (r_phase r) ''-'')],
              tag ''span'' [Txt ''Duration: '', Txt (scan_duration (ce_date ce) r)]]]]]"

definition tool_call :: "ToolCall \<Rightarrow> 'e node" where
  "tool_call tc =
     tag ''div''
       [tag ''div'' [tag ''span'' [Txt (toolName tc)], tag ''span'' [Txt (JSON_stringify (tc_input tc))]],
        tag ''pre'' [Txt (tc_output tc)]]"

definition check_body :: "clock_env \<Rightarrow> CheckResult \<Rightarrow> 'e node" where
  "check_body ce c =
     tag ''div''
       ([tag ''div'' [tag ''div'' [Txt ''Reasoning''], tag ''div'' [Txt (cr_reasoning c)]]] @
        (case cr_toolCalls c of
           Some (tc # tcs) \<Rightarrow>
             [tag ''div''
                [tag ''div'' [Txt ''Tool Calls ('', Txt (dec_nat (length (tc # tcs))), Txt '')''],
                 tag ''div'' (map tool_call (tc # tcs))]]
         | _ \<Rightarrow> []) @
        (case cr_failedSince c of
           Some t \<Rightarrow> show_if (truthy t) [tag ''div'' [Txt ''Failing since: '', Txt (ce_locale ce t)]]
         | None \<Rightarrow> []))"

text \<open>The severity text is a plain JSX attribute: its backslash and \<open>n\<close> are two characters.\<close>

definition check_result_card :: "clock_env \<Rightarrow> string list \<Rightarrow> CheckResult \<Rightarrow> results_event node" where
  "check_result_card ce expanded c =
     (let isOpen = cr_id c \<in> set expanded
      in plain_card
           (El ''div'' [] False [OnClick (ToggleCheck (cr_id c))]
              [tag ''div''
                 [VerdictDot (cr_verdict c),
                  tag ''div''
                    [tag ''div''
                       (tag ''span'' [Txt (cr_id c)] #
                        (case cr_severity c of
                           Some sev \<Rightarrow> show_if (truthy sev)
                             [SeverityBadge sev,
                              Help (''Severity is the importance level defined by the user (info / warning / critical).'' @
                                    [CHR 0x5C] @ ''nIt is separate from the verdict and used for alert escalation.'')]
                         | None \<Rightarrow> [])),
                     tag ''div'' [Txt (cr_description c)]]],
               tag ''div''
                 [VerdictBadge (cr_verdict c),
                  Help (''Verdict determined by the LLM:'' @ [CHR 0x0A] @ ''* PASS: No issues found'' @ [CHR 0x0A] @
                        ''* WARN: Issues found, but no immediate action needed'' @ [CHR 0x0A] @
                        ''* FAIL: Issues found, immediate action required''),
                  IconChevron \<lparr>ip_size = Some 14, ip_className = Some (if isOpen then ''rotate-90'' else [])\<rparr>]]
            # show_if isOpen [check_body ce c]))"

definition ResultDetail :: "clock_env \<Rightarrow> ChecklistResult \<Rightarrow> string list \<Rightarrow> results_event node" where
  "ResultDetail ce r expanded =
     tag ''div''
       ([detail_header ce r] @ detail_summary r @
        [tag ''div''
           [tag ''div'' [Txt ''Check Results''],
            Button ghost sm [] False ExpandAll
              [Txt (if all_expanded r expanded then ''Collapse All'' else ''Expand All'')]],
         tag ''div''
           (case r_checks (r_spec r) of Some cs \<Rightarrow> map (check_result_card ce expanded) cs | None \<Rightarrow> [])])"

definition Results_view :: "clock_env \<Rightarrow> results_page \<Rightarrow> results_event node" where
  "Results_view ce s =
     (if rp_isLoading s then LoadingState
      else (case rp_selected s of
              Some r \<Rightarrow> ResultDetail ce r (rp_expanded s)
            | None \<Rightarrow> results_list ce s))"

section \<open>What the page offers\<close>

declare scanType_badge_def [view_defs] count_cell_def [view_defs] results_head_def [view_defs]
  VerdictDot_def [view_defs] summary_card_def [view_defs] tool_call_def [view_defs]

lemma offers_result_parts [simp]:
  "offers (scanType_badge r) = {}" "offers (count_cell sel r) = {}" "offers results_head = {}"
  "offers (VerdictDot v) = {}" "offers (summary_card n l) = {}" "offers (tool_call tc) = {}"
  by (simp_all add: view_defs)

lemma offers_result_row [simp]: "offers (result_row ce r) = {SetSelected r}"
  by (simp add: result_row_def)

lemma offers_toolbar_select [simp]: "offers (toolbar_select v f os) = f ` fst ` set os"
  by (auto simp: toolbar_select_def)

lemma offers_toolbar:
  "offers (results_toolbar s) =
     range SetSearch \<union> SetFilterPolicy ` insert [] (set (policyNames s))
     \<union> SetFilterType ` {[], ''FullScan'', ''Rescan''}
     \<union> SetFilterVerdict ` {[], ''PASS'', ''WARN'', ''FAIL''}"
  by (simp add: results_toolbar_def image_comp Un_assoc)

lemma offers_pagination:
  "offers_all (pagination date s) =
     (if totalPages date s > 1
      then (if rp_page s = 0 then {} else {PrevPage})
        \<union> (if rp_page s \<ge> totalPages date s - 1 then {} else {NextPage})
      else {})"
  by (simp add: pagination_def)

lemma offers_results_list:
  "offers (results_list ce s) =
     offers (results_toolbar s) \<union>
     (if filtered_results (ce_date ce) s = [] then {}
      else SetSelected ` set (paged (ce_date ce) s) \<union> offers_all (pagination (ce_date ce) s))"
  by (cases "filtered_results (ce_date ce) s = []") (auto simp: results_list_def Let_def)

lemma offers_check_body [simp]: "offers (check_body ce c) = {}"
  by (auto simp: check_body_def split: option.splits list.splits if_splits)

lemma offers_check_result_card: "offers (check_result_card ce ex c) = {ToggleCheck (cr_id c)}"
  by (auto simp: check_result_card_def Let_def split: option.splits if_splits)

lemma offers_detail_summary [simp]: "offers_all (detail_summary r) = {}"
  by (auto simp: detail_summary_def split: option.splits)

text \<open>The ids of the checks of a result, one for each check.\<close>

definition result_ids :: "ChecklistResult \<Rightarrow> string list" where
  "result_ids r = (case r_checks (r_spec r) of Some cs \<Rightarrow> map cr_id cs | None \<Rightarrow> [])"

lemma offers_detail:
  "offers (ResultDetail ce r ex) = {OnBack, ExpandAll} \<union> ToggleCheck ` set (result_ids r)"
  by (cases "r_checks (r_spec r)")
     (auto simp: ResultDetail_def detail_header_def result_ids_def offers_check_result_card)

lemma offers_Results:
  "offers (Results_view ce s) =
     (if rp_isLoading s then {}
      else case rp_selected s of
             Some r \<Rightarrow> {OnBack, ExpandAll} \<union> ToggleCheck ` set (result_ids r)
           | None \<Rightarrow> offers (results_list ce s))"
  by (simp add: Results_view_def offers_detail split: option.splits)

section \<open>The list\<close>

text \<open>The filters read as one condition on a result.\<close>

definition wanted :: "results_page \<Rightarrow> ChecklistResult \<Rightarrow> bool" where
  "wanted s r \<longleftrightarrow>
     (sublist (toLowerCase (rp_search s)) (toLowerCase (m_name (r_metadata r)))
      \<or> sublist (toLowerCase (rp_search s)) (toLowerCase (policyRef (r_spec r))))
     \<and> (rp_filterPolicy s = [] \<or> policyRef (r_spec r) = rp_filterPolicy s)
     \<and> (rp_filterType s = [] \<or> scanType (r_spec r) = rp_filterType s)
     \<and> matches_verdict (rp_filterVerdict s) r"

definition creation_time :: "date_parser \<Rightarrow> ChecklistResult \<Rightarrow> int option" where
  "creation_time date r = date (m_creationTimestamp (r_metadata r))"

lemma sort_newest_first:
  assumes "\<forall>r\<in>set rs. creation_time date r \<noteq> None"
  shows "js_sort (newest_first date) rs = sort_key (\<lambda>r. - the (creation_time date r)) rs"
  using assms
  by (intro js_sort_key)
     (auto simp: cmp_gt_def newest_first_def creation_time_def split: option.splits)

lemma filtered_results_wanted:
  "filtered_results date s = filter (wanted s) (js_sort (newest_first date) (rp_results s))"
proof -
  have verdict: "matches_verdict v r \<longleftrightarrow> (truthy v \<longrightarrow> matches_verdict v r)" for v r
    by (auto simp: matches_verdict_def)
  have search: "sublist (toLowerCase q) (toLowerCase a) \<or> sublist (toLowerCase q) (toLowerCase b) \<longleftrightarrow>
      (truthy q \<longrightarrow> str_includes (toLowerCase a) (toLowerCase q) \<or> str_includes (toLowerCase b) (toLowerCase q))"
    for q a b
    by (cases q) (auto simp: str_includes_sublist toLowerCase_def)
  show ?thesis
    unfolding filtered_results_def if_filter Let_def filter_filter
    by (rule filter_cong [OF refl])
       (subst wanted_def, subst search, subst verdict, auto simp: matches_search_def)
qed

text \<open>
  C38: when the creation times parse, the list shows exactly the results that meet all
  filters, newest first, and results of the same time in the order the server sent them.
\<close>

theorem results_listed:
  assumes "\<forall>r\<in>set (rp_results s). creation_time date r \<noteq> None"
  shows "filtered_results date s =
     filter (wanted s) (sort_key (\<lambda>r. - the (creation_time date r)) (rp_results s))"
  using sort_newest_first [OF assms] by (simp add: filtered_results_wanted)

definition demo_result :: "string \<Rightarrow> string \<Rightarrow> ChecklistResult" where
  "demo_result name created =
     \<lparr>r_metadata = \<lparr>m_name = name, m_namespace = ''default'', m_creationTimestamp = created\<rparr>,
      r_spec = \<lparr>policyRef = ''prod'', scanType = ''FullScan'', startedAt = created, completedAt = None,
        r_checks = None, r_summary = Some \<lparr>s_total = 1, s_pass = 1, s_warn = 0, s_fail = 0\<rparr>\<rparr>,
      r_phase = Some ''Completed''\<rparr>"

definition year_date :: date_parser where
  "year_date t = (if list_all is_digit t \<and> length t = 4 then Some (int (undec_nat t)) else None)"

theorem results_listed_witness:
  "map (\<lambda>r. m_name (r_metadata r)) (filtered_results year_date
     (init_results (Some [demo_result ''b'' ''2024'', demo_result ''a'' ''2025'', demo_result ''c'' ''2024''])))
   = [''a'', ''b'', ''c'']"
proof -
  have d: "year_date ''2024'' = Some 2024" "year_date ''2025'' = Some 2025" by code_simp+
  show ?thesis
    by (subst results_listed)
       (simp_all add: rp_results_def init_results_def creation_time_def demo_result_def d wanted_def
          matches_verdict_def toLowerCase_def)
qed

section \<open>Pages\<close>

lemma filtered_page [simp]: "filtered_results date (s\<lparr>rp_page := p\<rparr>) = filtered_results date s"
  by (simp add: filtered_results_wanted wanted_def [abs_def] rp_results_def)

lemma totalPages_page [simp]: "totalPages date (s\<lparr>rp_page := p\<rparr>) = totalPages date s"
  by (simp add: totalPages_def)

text \<open>The double quotient does not matter: the number of pages is the exact one.\<close>

lemma totalPages_exact:
  assumes "length (filtered_results date s) < 2 ^ 53"
  shows "totalPages date s = (int (length (filtered_results date s)) + 19) div 20"
proof -
  have "int (length (filtered_results date s)) < 2 ^ 53" using assms by simp
  from ceiling_fl_div [OF _ this, of 20] show ?thesis by (simp add: totalPages_def PAGE_SIZE_def)
qed

lemma paged_nat:
  "paged date (s\<lparr>rp_page := int p\<rparr>) = slice (p * 20) ((p + 1) * 20) (filtered_results date s)"
  using js_slice_nat [of "p * 20" "(p + 1) * 20" "filtered_results date s"]
  by (simp add: paged_def PAGE_SIZE_def algebra_simps)

text \<open>
  C37: the pages together show every result of the list once, in order; no page is empty
  or longer than 20.
\<close>

theorem pages_cover:
  assumes "length (filtered_results date s) < 2 ^ 53"
  shows "concat (map (\<lambda>p. paged date (s\<lparr>rp_page := int p\<rparr>)) [0..<nat (totalPages date s)])
       = filtered_results date s
     \<and> (\<forall>p < nat (totalPages date s). length (paged date (s\<lparr>rp_page := int p\<rparr>)) \<in> {1..20})"
proof -
  define n where "n = length (filtered_results date s)"
  have t: "nat (totalPages date s) = (n + 19) div 20"
    unfolding totalPages_exact [OF assms] n_def [symmetric]
    by (metis nat_int of_nat_add of_nat_numeral zdiv_int)
  have "n \<le> (n + 19) div 20 * 20" by presburger
  then have "concat (map (\<lambda>p. slice (p * 20) ((p + 1) * 20) (filtered_results date s)) [0..<(n + 19) div 20])
      = filtered_results date s"
    unfolding n_def by (rule slices_cover)
  moreover have "length (slice (p * 20) ((p + 1) * 20) (filtered_results date s)) \<in> {1..20}"
    if "p < (n + 19) div 20" for p
  proof -
    from that have "Suc p * 20 \<le> n + 19"
      by (simp only: Suc_le_eq [symmetric] less_eq_div_iff_mult_less_eq zero_less_numeral)
    then have "p * 20 < n" by simp
    then show ?thesis by (auto simp: length_slice n_def)
  qed
  ultimately show ?thesis by (simp add: t paged_nat)
qed

lemma filtered_init [simp]:
  "filtered_results date (init_results (Some rs)) = js_sort (newest_first date) rs"
  by (simp add: filtered_results_def init_results_def rp_results_def)

lemma js_sort_replicate: "js_sort cmp (replicate n x) = replicate n x"
proof -
  have "\<forall>y\<in>set (js_sort cmp (replicate n x)). y = x" by simp
  from replicate_length_same [OF this] show ?thesis by simp
qed

theorem pages_cover_witness:
  "concat (map (\<lambda>p. paged year_date ((init_results (Some (replicate 21 (demo_result ''a'' ''2024''))))\<lparr>rp_page := int p\<rparr>)) [0..<2])
     = replicate 21 (demo_result ''a'' ''2024'')"
proof -
  let ?s = "init_results (Some (replicate 21 (demo_result ''a'' ''2024'')))"
  have f: "filtered_results year_date ?s = replicate 21 (demo_result ''a'' ''2024'')"
    by (simp only: filtered_init js_sort_replicate)
  then have "totalPages year_date ?s = 2" by (subst totalPages_exact) simp_all
  with pages_cover [of year_date ?s] f show ?thesis by simp
qed

text \<open>
  While refreshes bring no change, the page number stays in range.  The queries of the page
  are refreshed by the library at any time, with the same list or with another one.
\<close>

definition stable_env :: "results_page \<Rightarrow> results_event \<Rightarrow> bool" where
  "stable_env s e \<longleftrightarrow> e = QueryFailed \<or> (\<exists>rs. rp_data s = Some rs \<and> e = QueryData rs)"

definition refresh_env :: "results_page \<Rightarrow> results_event \<Rightarrow> bool" where
  "refresh_env s e \<longleftrightarrow> e = QueryFailed \<or> (\<exists>rs. e = QueryData rs)"

definition page_ok :: "date_parser \<Rightarrow> results_page \<Rightarrow> bool" where
  "page_ok date s \<longleftrightarrow> rp_page s = 0 \<or> (0 < rp_page s \<and> rp_page s < totalPages date s)"

lemma filtered_congs [simp]:
  "filtered_results date (s\<lparr>rp_selected := a\<rparr>) = filtered_results date s"
  "filtered_results date (s\<lparr>rp_expanded := b\<rparr>) = filtered_results date s"
  "filtered_results date (s\<lparr>rp_isLoading := c\<rparr>) = filtered_results date s"
  by (simp_all add: filtered_results_wanted wanted_def [abs_def] rp_results_def)

lemma totalPages_congs [simp]:
  "totalPages date (s\<lparr>rp_selected := a\<rparr>) = totalPages date s"
  "totalPages date (s\<lparr>rp_expanded := b\<rparr>) = totalPages date s"
  "totalPages date (s\<lparr>rp_isLoading := c\<rparr>) = totalPages date s"
  by (simp_all add: totalPages_def)

lemmas list_offers = offers_Results offers_results_list offers_toolbar offers_pagination

lemma page_ok_user:
  assumes "page_ok (ce_date ce) s" "e \<in> offers (Results_view ce s)"
  shows "page_ok (ce_date ce) (results_step s e)"
  using assms
  by (cases e) (auto simp: list_offers page_ok_def split: if_splits option.splits)

lemma page_ok_stable: "page_ok date s \<Longrightarrow> stable_env s e \<Longrightarrow> page_ok date (results_step s e)"
proof -
  have "s\<lparr>rp_data := rp_data s\<rparr> = s" by simp
  then show "page_ok date s \<Longrightarrow> stable_env s e \<Longrightarrow> page_ok date (results_step s e)"
    by (auto simp: stable_env_def page_ok_def dest!: sym [of "rp_data s"])
qed

interpretation results_pages: ui_component "Results_view ce" results_step stable_env "page_ok (ce_date ce)"
  by unfold_locales (auto intro: page_ok_user page_ok_stable)

text \<open>
  while the list of results does not change, whatever the user does the page number
  is that of an existing page (or 0 for an empty list).
\<close>

theorem page_in_range:
  assumes "ui_reach (Results_view ce) results_step stable_env (init_results (Some rs)) s"
  shows "rp_page s = 0 \<or> (0 < rp_page s \<and> rp_page s < totalPages (ce_date ce) s)"
  using results_pages.reach_inv [OF assms] by (simp add: page_ok_def init_results_def)

definition demo_clock :: clock_env where
  "demo_clock = \<lparr>ce_date = year_date, ce_now = 2025, ce_locale = (\<lambda>t. t)\<rparr>"

lemma init_results_fields [simp]:
  "rp_isLoading (init_results (Some rs)) = False" "rp_selected (init_results c) = None"
  "rp_page (init_results c) = 0"
  by (simp_all add: init_results_def)

lemma page_buttons:
  assumes "\<not> rp_isLoading s" "rp_selected s = None"
  shows "PrevPage \<in> offers (Results_view ce s) \<longleftrightarrow>
      filtered_results (ce_date ce) s \<noteq> [] \<and> 1 < totalPages (ce_date ce) s \<and> rp_page s \<noteq> 0"
    and "NextPage \<in> offers (Results_view ce s) \<longleftrightarrow>
      filtered_results (ce_date ce) s \<noteq> [] \<and> 1 < totalPages (ce_date ce) s
      \<and> rp_page s < totalPages (ce_date ce) s - 1"
  using assms by (auto simp: list_offers)

lemma next_page_reach:
  assumes "20 < length rs" "length rs < 2 ^ 53"
  shows "ui_reach (Results_view ce) results_step env (init_results (Some rs))
     (results_step (init_results (Some rs)) NextPage)"
proof (rule ui_user [OF ui_start])
  have t: "totalPages (ce_date ce) (init_results (Some rs)) = (int (length rs) + 19) div 20"
    using assms by (subst totalPages_exact) simp_all
  have "2 \<le> (int (length rs) + 19) div 20" using assms(1) by simp
  then show "NextPage \<in> offers (Results_view ce (init_results (Some rs)))"
    using assms(1) by (subst page_buttons) (auto simp: t simp flip: length_0_conv)
qed

theorem page_in_range_witness:
  "rp_page (results_step (init_results (Some (replicate 21 (demo_result ''a'' ''2024'')))) NextPage)
     < totalPages year_date (results_step (init_results (Some (replicate 21 (demo_result ''a'' ''2024'')))) NextPage)"
proof -
  have "ui_reach (Results_view demo_clock) results_step stable_env (init_results (Some (replicate 21 (demo_result ''a'' ''2024''))))
     (results_step (init_results (Some (replicate 21 (demo_result ''a'' ''2024'')))) NextPage)"
    by (rule next_page_reach) simp_all
  from page_in_range [OF this] show ?thesis by (simp add: init_results_def demo_clock_def)
qed

text \<open>
  a refresh that brings a shorter list does not move the page.  From the second page
  of more than 20 results, a refresh that leaves one result shows a table without a row,
  although the list is not empty, and the page offers no way back to the first page but a
  change of a filter.
\<close>

theorem stale_page:
  assumes "20 < length rs" "length rs < 2 ^ 53"
  shows "\<exists>s. ui_reach (Results_view ce) results_step refresh_env (init_results (Some rs)) s
     \<and> filtered_results (ce_date ce) s = [r] \<and> paged (ce_date ce) s = []
     \<and> PrevPage \<notin> offers (Results_view ce s)"
proof -
  let ?s = "results_step (results_step (init_results (Some rs)) NextPage) (QueryData [r])"
  have f: "filtered_results date ?s = [r]" for date
    by (simp add: filtered_results_def init_results_def rp_results_def js_sort_def)
  have "totalPages date ?s = 1" for date
    by (subst totalPages_exact) (simp_all only: f, simp_all)
  moreover have "paged date ?s = []" for date
    using js_slice_nat [of 20 40 "[r]"] unfolding paged_def f
    by (simp add: PAGE_SIZE_def init_results_def slice_def)
  moreover have "ui_reach (Results_view ce) results_step refresh_env (init_results (Some rs)) ?s"
    by (rule ui_env [OF next_page_reach [OF assms]]) (simp add: refresh_env_def)
  ultimately show ?thesis
    using f by (intro exI [of _ ?s]) (simp add: page_buttons)
qed

theorem stale_page_witness:
  "\<exists>s. ui_reach (Results_view demo_clock) results_step refresh_env
       (init_results (Some (replicate 21 (demo_result ''a'' ''2024'')))) s
     \<and> filtered_results year_date s = [demo_result ''b'' ''2024''] \<and> paged year_date s = []"
  using stale_page [of "replicate 21 (demo_result ''a'' ''2024'')" demo_clock "demo_result ''b'' ''2024''"]
  by (auto simp: demo_clock_def)

section \<open>The status filter\<close>

text \<open>
  the three choices of the status filter divide the results: one with a summary (its
  counts are not negative) is listed under exactly one of them, one without a summary,
  of a scan that has not finished, under none.
\<close>

theorem verdict_filter_partition:
  assumes "\<And>u. r_summary (r_spec r) = Some u \<Longrightarrow> 0 \<le> s_warn u \<and> 0 \<le> s_fail u"
  shows "length (filter (\<lambda>v. matches_verdict v r) [''PASS'', ''WARN'', ''FAIL''])
     = (if r_summary (r_spec r) = None then 0 else 1)"
  using assms by (fastforce simp: matches_verdict_def split: option.splits)

theorem verdict_filter_partition_witness:
  "filter (\<lambda>v. matches_verdict v (demo_result ''a'' ''2024'')) [''PASS'', ''WARN'', ''FAIL''] = [''PASS'']
   \<and> length (filter (\<lambda>v. matches_verdict v (demo_result ''a'' ''2024'')) [''PASS'', ''WARN'', ''FAIL'']) = 1"
  by (subst verdict_filter_partition) (auto simp: demo_result_def matches_verdict_def)

section \<open>Expanding checks\<close>

text \<open>The set of expanded checks is a set of ids of the open result.\<close>

definition expanded_ok :: "results_page \<Rightarrow> bool" where
  "expanded_ok s \<longleftrightarrow>
     distinct (rp_expanded s)
     \<and> (\<forall>r. rp_selected s = Some r \<longrightarrow> set (rp_expanded s) \<subseteq> set (result_ids r))"

lemma expandAll_ids: "expandAll r ex = (if length ex = length (result_ids r) then [] else js_set (result_ids r))"
  by (auto simp: expandAll_def all_expanded_def check_count_def result_ids_def split: option.splits)

lemma all_expanded_ids: "all_expanded r ex \<longleftrightarrow> length ex = length (result_ids r)"
  by (auto simp: all_expanded_def check_count_def result_ids_def split: option.splits)

lemma distinct_toggle_check: "distinct xs \<Longrightarrow> distinct (toggle_check i xs)"
  by (simp add: toggle_check_def distinct_removeAll)

lemma set_toggle_check: "set (toggle_check i xs) = (if i \<in> set xs then set xs - {i} else insert i (set xs))"
  by (auto simp: toggle_check_def)

lemma expanded_ok_user:
  assumes "expanded_ok s" "e \<in> offers (Results_view ce s)"
  shows "expanded_ok (results_step s e)"
  using assms
  by (cases e)
     (auto simp: list_offers expanded_ok_def expandAll_ids set_toggle_check distinct_toggle_check
        split: if_splits option.splits)

lemma expanded_ok_env: "expanded_ok s \<Longrightarrow> refresh_env s e \<Longrightarrow> expanded_ok (results_step s e)"
  by (auto simp: refresh_env_def expanded_ok_def)

interpretation result_detail: ui_component "Results_view ce" results_step refresh_env expanded_ok
  by unfold_locales (auto intro: expanded_ok_user expanded_ok_env)

lemma expanded_facts:
  assumes "ui_reach (Results_view ce) results_step refresh_env (init_results c) s" "rp_selected s = Some r"
  shows "distinct (rp_expanded s)" "set (rp_expanded s) \<subseteq> set (result_ids r)"
  using result_detail.reach_inv [OF assms(1)] assms(2) by (auto simp: expanded_ok_def init_results_def)

text \<open>
  for a result whose check ids are pairwise different, the button reads
  \<open>Collapse All\<close> exactly when every check is open; pressing it then closes all checks, and
  otherwise opens all.
\<close>

theorem expand_all_button:
  assumes "ui_reach (Results_view ce) results_step refresh_env (init_results c) s"
    and "rp_selected s = Some r" "distinct (result_ids r)"
  shows "(all_expanded r (rp_expanded s) \<longleftrightarrow> set (rp_expanded s) = set (result_ids r))
     \<and> set (rp_expanded (results_step s ExpandAll))
         = (if set (rp_expanded s) = set (result_ids r) then {} else set (result_ids r))"
proof -
  note e = expanded_facts [OF assms(1,2)]
  have "length (rp_expanded s) = length (result_ids r) \<longleftrightarrow> set (rp_expanded s) = set (result_ids r)"
    using e assms(3) by (metis List.finite_set card_subset_eq distinct_card)
  then show ?thesis using assms(2) by (simp add: all_expanded_ids expandAll_ids)
qed

text \<open>
  with a repeated check id the button never closes anything: it keeps reading
  \<open>Expand All\<close>, and pressing it leaves every check open.
\<close>

theorem expand_all_duplicate_ids:
  assumes "ui_reach (Results_view ce) results_step refresh_env (init_results c) s"
    and "rp_selected s = Some r" "\<not> distinct (result_ids r)"
  shows "\<not> all_expanded r (rp_expanded s)
     \<and> set (rp_expanded (results_step s ExpandAll)) = set (result_ids r)"
proof -
  note e = expanded_facts [OF assms(1,2)]
  have "card (set (result_ids r)) < length (result_ids r)"
    using assms(3) by (meson card_distinct card_length le_neq_implies_less)
  moreover have "length (rp_expanded s) \<le> card (set (result_ids r))"
    using e by (metis List.finite_set card_mono distinct_card)
  ultimately show ?thesis using assms(2) by (simp add: all_expanded_ids expandAll_ids)
qed

definition checked_result :: "string list \<Rightarrow> ChecklistResult" where
  "checked_result ids =
     (let r = demo_result ''a'' ''2024''
      in r\<lparr>r_spec := (r_spec r)\<lparr>r_checks := Some (map (\<lambda>i. \<lparr>cr_id = i, cr_description = [], cr_verdict = ''PASS'',
            cr_reasoning = [], cr_severity = None, cr_failedSince = None, cr_toolCalls = None\<rparr>) ids)\<rparr>\<rparr>)"

lemma result_ids_checked [simp]: "result_ids (checked_result ids) = ids"
  by (simp add: result_ids_def checked_result_def Let_def comp_def)

lemma open_result_reach:
  "ui_reach (Results_view ce) results_step env (init_results (Some [r]))
     (results_step (init_results (Some [r])) (SetSelected r))"
proof (rule ui_user [OF ui_start])
  have "paged (ce_date ce) (init_results (Some [r])) = [r]"
    using js_slice_nat [of 0 20 "[r]"] by (simp add: paged_def PAGE_SIZE_def js_sort_def slice_def)
  then show "SetSelected r \<in> offers (Results_view ce (init_results (Some [r])))"
    by (simp add: list_offers js_sort_def)
qed

theorem expand_all_button_witness:
  "set (rp_expanded (results_step (results_step (init_results (Some [checked_result [''pods'', ''nodes'']]))
     (SetSelected (checked_result [''pods'', ''nodes'']))) ExpandAll)) = {''pods'', ''nodes''}"
  using expand_all_button [OF open_result_reach [of demo_clock _ "checked_result [''pods'', ''nodes'']"],
      of "checked_result [''pods'', ''nodes'']"]
  by simp

theorem expand_all_duplicate_ids_witness:
  "\<not> all_expanded (checked_result [''check-2'', ''check-2''])
     (rp_expanded (results_step (init_results (Some [checked_result [''check-2'', ''check-2'']]))
       (SetSelected (checked_result [''check-2'', ''check-2'']))))"
  using expand_all_duplicate_ids [OF open_result_reach [of demo_clock _ "checked_result [''check-2'', ''check-2'']"],
      of "checked_result [''check-2'', ''check-2'']"]
  by simp

end
