(* ===== verification/HealthRing.thy ===== *)
theory HealthRing
  imports Widgets Doubles
begin

text \<open>
  \<open>ui/src/components/HealthRing.tsx\<close>: the ring of the dashboard with one arc per
  verdict and the percentage of passing checks.  Counts are integers below $2^{53}$; the
  quotients, products and sums are computed on doubles.  The decimal text of a
  fractional number is a parameter \<open>num\<close>, since nothing depends on it.
\<close>

definition js_PI :: rat where
  "js_PI = 884279719003555 / 2 ^ 48"

definition ring_radius :: rat where
  "ring_radius = 50"

definition circumference :: rat where
  "circumference = js_mult (js_mult 2 js_PI) ring_radius"

definition ring_total :: "int \<Rightarrow> int \<Rightarrow> int \<Rightarrow> int" where
  "ring_total pass warn fail = pass + warn + fail"

definition arc_len :: "int \<Rightarrow> int \<Rightarrow> rat" where
  "arc_len n tot = js_mult (js_div (of_int n) (of_int tot)) circumference"

definition ring_pct :: "int \<Rightarrow> int \<Rightarrow> int" where
  "ring_pct pass tot = js_round (js_mult (js_div (of_int pass) (of_int tot)) 100)"

record segment =
  seg_len :: rat
  seg_color :: string
  seg_offset :: rat

definition ring_segments :: "int \<Rightarrow> int \<Rightarrow> int \<Rightarrow> segment list" where
  "ring_segments pass warn fail =
     (let tot = ring_total pass warn fail;
          passLen = arc_len pass tot; warnLen = arc_len warn tot; failLen = arc_len fail tot;
          offset = js_div (- circumference) 4
      in filter (\<lambda>s. seg_len s > 0)
           [\<lparr>seg_len = passLen, seg_color = ''var(--success)'', seg_offset = offset\<rparr>,
            \<lparr>seg_len = warnLen, seg_color = ''var(--warning)'', seg_offset = fl (offset + passLen)\<rparr>,
            \<lparr>seg_len = failLen, seg_color = ''var(--danger)'',
             seg_offset = fl (fl (offset + passLen) + warnLen)\<rparr>])"

definition ring_arc :: "(rat \<Rightarrow> string) \<Rightarrow> segment \<Rightarrow> 'e node" where
  "ring_arc num s =
     El ''circle''
       [(''stroke'', seg_color s),
        (''strokeDasharray'', num (seg_len s) @ '' '' @ num (fl (circumference - seg_len s))),
        (''strokeDashoffset'', num (- seg_offset s))] False [] []"

definition HealthRing_view :: "(rat \<Rightarrow> string) \<Rightarrow> int \<Rightarrow> int \<Rightarrow> int \<Rightarrow> 'e node" where
  "HealthRing_view num pass warn fail =
     (let tot = ring_total pass warn fail; pct = ring_pct pass tot
      in if tot = 0 then
           tag ''div'' [tag ''svg'' [El ''circle'' [(''stroke'', ''var(--border)'')] False [] [],
                                     tag ''text'' [Txt ''N/A'']]]
         else
           tag ''div''
             [El ''svg''
                [(''aria-label'', ''Health: '' @ dec pct @ ''% passing, '' @ dec pass @ '' pass, '' @ dec warn
                    @ '' warn, '' @ dec fail @ '' fail'')] False []
                ([El ''circle'' [(''stroke'', ''var(--border)'')] False [] []] @
                 map (ring_arc num) (ring_segments pass warn fail) @
                 [tag ''text'' [Txt (dec pct), Txt ''%''], tag ''text'' [Txt ''HEALTHY'']])])"

section \<open>The percentage\<close>

lemma fraction_range:
  assumes "0 \<le> n" "n \<le> (t :: int)" "0 < t"
  shows "0 \<le> (of_int n / of_int t :: rat)" "of_int n / of_int t \<le> (1 :: rat)"
  using assms by (simp_all add: divide_le_eq)

lemma js_round_ends [simp]: "js_round 0 = 0" "js_round 100 = 100"
  using js_round_of_int [of 0] js_round_of_int [of 100] by simp_all

lemma fl_one [simp]: "fl 1 = 1" and fl_hundred [simp]: "fl 100 = 100"
  using fl_of_int [of 1] fl_of_int [of 100] by simp_all

text \<open>
  the percentage lies between 0 and 100, is 0 with no passing check and 100 with
  only passing ones, and is off the exact percentage by at most one half and the rounding
  of two double operations.
\<close>

theorem ring_pct_spec:
  assumes "0 \<le> pass" "pass \<le> tot" "0 < tot"
  shows "0 \<le> ring_pct pass tot \<and> ring_pct pass tot \<le> 100
     \<and> ring_pct 0 tot = 0 \<and> ring_pct tot tot = 100
     \<and> \<bar>of_int (ring_pct pass tot) - 100 * of_int pass / of_int tot\<bar> \<le> 1 / 2 + 300 / (2 ^ 53 :: rat)"
proof -
  define q where "q = (of_int pass / of_int tot :: rat)"
  note q = fraction_range [OF assms, folded q_def]
  have pct: "ring_pct pass tot = js_round (fl (fl q * 100))"
    by (simp add: ring_pct_def js_mult_def js_div_def q_def)
  have f: "0 \<le> fl q" "fl q \<le> 1" using fl_sign(1) [OF q(1)] fl_mono [OF q(2)] by simp_all
  have g: "0 \<le> fl (fl q * 100)" "fl (fl q * 100) \<le> 100"
    using fl_sign(1) [of "fl q * 100"] fl_mono [of "fl q * 100" 100] f by simp_all
  have "js_round 0 \<le> ring_pct pass tot" "ring_pct pass tot \<le> js_round 100"
    unfolding pct using g by (simp_all only: js_round_mono)
  then have range: "0 \<le> ring_pct pass tot" "ring_pct pass tot \<le> 100" by simp_all
  have "\<bar>fl (fl q * 100) - q * 100\<bar> \<le> q * 100 * 3 / 2 ^ 53" using q(1) by (rule fl_fraction_error) simp
  also have "\<dots> \<le> 300 / 2 ^ 53" using q by (intro divide_right_mono) simp_all
  finally have "\<bar>of_int (ring_pct pass tot) - q * 100\<bar> \<le> 1 / 2 + 300 / 2 ^ 53"
    using js_round_error [of "fl (fl q * 100)"] unfolding pct by linarith
  moreover have "q * 100 = 100 * of_int pass / of_int tot" by (simp add: q_def)
  moreover have "ring_pct 0 tot = 0" "ring_pct tot tot = 100"
    using assms by (simp_all add: ring_pct_def js_mult_def js_div_def)
  ultimately show ?thesis using range by (simp only:)
qed

theorem ring_pct_spec_witness:
  "\<bar>of_int (ring_pct 199 200) - 100 * of_int 199 / of_int 200\<bar> \<le> 1 / 2 + 300 / (2 ^ 53 :: rat)
   \<and> ring_pct 199 200 \<le> 100"
  using ring_pct_spec [of 199 200] by simp

section \<open>The arcs\<close>

lemma circumference_pos: "0 < circumference"
  by (simp add: circumference_def js_mult_def js_PI_def ring_radius_def)

lemma fl_circumference [simp]: "fl circumference = circumference"
  by (simp add: circumference_def js_mult_def)

lemma arc_len_pos: "0 < tot \<Longrightarrow> 0 < arc_len n tot \<longleftrightarrow> 0 < n"
  using circumference_pos
  by (simp add: arc_len_def js_mult_def js_div_def zero_less_mult_iff zero_less_divide_iff)

lemma arc_len_bounds:
  assumes "0 \<le> n" "n \<le> tot" "0 < tot"
  shows "arc_len n tot \<le> circumference"
    and "\<bar>arc_len n tot - of_int n / of_int tot * circumference\<bar>
      \<le> of_int n / of_int tot * circumference * 3 / 2 ^ 53"
proof -
  note q = fraction_range [OF assms]
  have "fl (of_int n / of_int tot) \<le> 1" using fl_mono [OF q(2)] by simp
  then have "fl (of_int n / of_int tot) * circumference \<le> circumference"
    using circumference_pos by simp
  from fl_mono [OF this] show "arc_len n tot \<le> circumference"
    by (simp add: arc_len_def js_mult_def js_div_def)
  show "\<bar>arc_len n tot - of_int n / of_int tot * circumference\<bar>
      \<le> of_int n / of_int tot * circumference * 3 / 2 ^ 53"
    unfolding arc_len_def js_mult_def js_div_def
    using q circumference_pos by (intro fl_fraction_error) simp_all
qed

text \<open>
  the ring has one arc for each verdict with a positive count, in the order passing,
  warning, failing; no arc is longer than the circle, and together they are as long as the
  circle up to rounding.
\<close>

theorem ring_segments_spec:
  assumes "0 \<le> pass" "0 \<le> warn" "0 \<le> fail" "0 < ring_total pass warn fail"
  shows "map seg_color (ring_segments pass warn fail)
       = map snd (filter (\<lambda>(n, _). 0 < n)
           [(pass, ''var(--success)''), (warn, ''var(--warning)''), (fail, ''var(--danger)'')])
     \<and> list_all (\<lambda>s. 0 < seg_len s \<and> seg_len s \<le> circumference) (ring_segments pass warn fail)
     \<and> \<bar>sum_list (map seg_len (ring_segments pass warn fail)) - circumference\<bar> \<le> circumference * 3 / 2 ^ 53"
proof -
  define t where "t = ring_total pass warn fail"
  have t: "0 < t" "t = pass + warn + fail" using assms by (simp_all add: t_def ring_total_def)
  have le: "pass \<le> t" "warn \<le> t" "fail \<le> t" using t assms by simp_all
  note pos = arc_len_pos [OF t(1)]
  have zero: "arc_len n t = 0" if "\<not> 0 < n" "0 \<le> n" for n
  proof -
    have "n = 0" using that by simp
    then show ?thesis by (simp add: arc_len_def js_mult_def js_div_def)
  qed
  let ?q = "\<lambda>n. of_int n / of_int t * circumference"
  have sum: "sum_list (map seg_len (ring_segments pass warn fail)) = arc_len pass t + arc_len warn t + arc_len fail t"
    using assms zero by (simp add: ring_segments_def Let_def pos flip: t_def)
  have "?q pass + ?q warn + ?q fail = of_int (pass + warn + fail) / of_int t * circumference"
    by (simp only: of_int_add add_divide_distrib distrib_right)
  then have whole: "?q pass + ?q warn + ?q fail = circumference" using t by simp
  have "\<bar>arc_len pass t + arc_len warn t + arc_len fail t - circumference\<bar>
      \<le> ?q pass * 3 / 2 ^ 53 + ?q warn * 3 / 2 ^ 53 + ?q fail * 3 / 2 ^ 53"
    using arc_len_bounds(2) [OF assms(1) le(1) t(1)] arc_len_bounds(2) [OF assms(2) le(2) t(1)]
      arc_len_bounds(2) [OF assms(3) le(3) t(1)] whole by linarith
  also have "\<dots> = circumference * 3 / 2 ^ 53"
    using whole by (metis add_divide_distrib distrib_right)
  finally show ?thesis
    using arc_len_bounds(1) [OF _ _ t(1)] assms le unfolding sum
    by (simp add: ring_segments_def Let_def pos flip: t_def)
qed

theorem ring_segments_spec_witness:
  "map seg_color (ring_segments 7 0 1) = [''var(--success)'', ''var(--danger)'']"
  using ring_segments_spec [of 7 0 1] by (simp add: ring_total_def)

lemma offers_HealthRing [simp]: "offers (HealthRing_view num p w f) = {}"
  by (auto simp: HealthRing_view_def Let_def ring_arc_def)

end
