(* ===== verification/Dashboard.thy ===== *)
theory Dashboard
  imports Results HealthRing
begin

text \<open>
  \<open>ui/src/pages/Dashboard.tsx\<close>: totals over all policies, one card per policy with its
  progress bar, and the latest scans.  The page has no state of its own; it shows the data
  of two queries, and its only actions are links to other pages.
\<close>

record dashboard =
  db_policies :: "ChecklistPolicy list option"
  db_loadingPolicies :: bool
  db_results :: "ChecklistResult list option"
  db_loadingResults :: bool

datatype dashboard_event = Navigate string

definition or_empty :: "'a list option \<Rightarrow> 'a list" where
  "or_empty d = (case d of Some xs \<Rightarrow> xs | None \<Rightarrow> [])"

section \<open>Aggregates\<close>

definition totalPolicies :: "ChecklistPolicy list \<Rightarrow> nat" where
  "totalPolicies policies = length policies"

definition totalChecks :: "ChecklistPolicy list \<Rightarrow> nat" where
  "totalChecks policies = foldl (\<lambda>acc p. acc + length (checks (p_spec p))) 0 policies"

definition policy_summary :: "ChecklistPolicy \<Rightarrow> Summary option" where
  "policy_summary p = (case p_status p of Some st \<Rightarrow> p_summary st | None \<Rightarrow> None)"

record agg_counts =
  agg_pass :: int
  agg_warn :: int
  agg_fail :: int

definition agg :: "ChecklistPolicy list \<Rightarrow> agg_counts" where
  "agg policies =
     foldl (\<lambda>acc p.
        case policy_summary p of
          Some u \<Rightarrow> acc\<lparr>agg_pass := agg_pass acc + s_pass u, agg_warn := agg_warn acc + s_warn u,
                       agg_fail := agg_fail acc + s_fail u\<rparr>
        | None \<Rightarrow> acc)
       \<lparr>agg_pass = 0, agg_warn = 0, agg_fail = 0\<rparr> policies"

definition latestResults :: "date_parser \<Rightarrow> ChecklistResult list \<Rightarrow> ChecklistResult list" where
  "latestResults date results = js_slice 0 8 (js_sort (newest_first date) results)"

section \<open>The progress bar\<close>

definition bar_width :: "int \<Rightarrow> int \<Rightarrow> rat" where
  "bar_width n tot = js_mult (js_div (of_int n) (of_int tot)) 100"

definition ProgressBar :: "(rat \<Rightarrow> string) \<Rightarrow> int \<Rightarrow> int \<Rightarrow> int \<Rightarrow> 'e node list" where
  "ProgressBar num pass warn fail =
     (let tot = pass + warn + fail;
          part = (\<lambda>n color. show_if (n > 0)
            [El ''div'' [(''width'', num (bar_width n tot) @ ''%''), (''background'', color)] False [] []])
      in if tot = 0 then []
         else [tag ''div'' (part pass ''var(--success)'' @ part warn ''var(--warning)'' @ part fail ''var(--danger)'')])"

section \<open>The rendered page\<close>

definition health_badge :: "Summary option \<Rightarrow> 'e node" where
  "health_badge s =
     (case s of
        Some u \<Rightarrow> if s_fail u = 0 then Badge V_pass [Txt ''Healthy'']
                  else Badge V_fail [Txt (dec (s_fail u) @ '' failing'')]
      | None \<Rightarrow> Badge V_neutral [Txt ''No data''])"

definition policy_card :: "clock_env \<Rightarrow> (rat \<Rightarrow> string) \<Rightarrow> ChecklistPolicy \<Rightarrow> dashboard_event node" where
  "policy_card ce num p =
     Card (Some (Navigate ''/policies'')) True []
       ([tag ''div'' [tag ''div'' [Txt (m_name (p_metadata p))], health_badge (policy_summary p)],
         tag ''div''
           [tag ''span'' [Txt (provider (llm (p_spec p)))],
            tag ''span'' [Txt (dec_nat (length (checks (p_spec p)))), Txt '' checks''],
            tag ''span'' [Txt (fullScan (schedule (p_spec p)))]]] @
        (case policy_summary p of
           Some u \<Rightarrow> [tag ''div'' (ProgressBar num (s_pass u) (s_warn u) (s_fail u))]
         | None \<Rightarrow> []) @
        (case Option.bind (p_status p) lastFullScanTime of
           Some t \<Rightarrow> show_if (truthy t)
             [tag ''div'' [IconClock (sized 12), tag ''span'' [Txt ''Last scan: '', Txt (timeAgo (ce_date ce) (ce_now ce) t)]]]
         | None \<Rightarrow> []))"

definition verdict_cell :: "string \<Rightarrow> (Summary \<Rightarrow> int) \<Rightarrow> ChecklistResult \<Rightarrow> 'e node" where
  "verdict_cell v sel r =
     tag ''td'' [VerdictBadge v, Txt '' '',
       Txt (dec (case r_summary (r_spec r) of Some u \<Rightarrow> sel u | None \<Rightarrow> 0))]"

definition latest_row :: "clock_env \<Rightarrow> ChecklistResult \<Rightarrow> dashboard_event node" where
  "latest_row ce r =
     El ''tr'' [(''key'', m_name (r_metadata r))] False [OnClick (Navigate ''/results'')]
       [tag ''td'' [Txt (m_name (r_metadata r))],
        tag ''td'' [Txt (policyRef (r_spec r))],
        tag ''td'' [scanType_badge r],
        verdict_cell ''PASS'' s_pass r, verdict_cell ''WARN'' s_warn r, verdict_cell ''FAIL'' s_fail r,
        tag ''td'' [Txt (opt_or_str (r_phase r) ''-'')],
        tag ''td'' [Txt (timeAgo (ce_date ce) (ce_now ce) (m_creationTimestamp (r_metadata r)))]]"

definition stats_row :: "(rat \<Rightarrow> string) \<Rightarrow> ChecklistPolicy list \<Rightarrow> 'e node" where
  "stats_row num policies =
     (let a = agg policies
      in tag ''div''
           [tag ''div''
              [StatCard (dec_nat (totalPolicies policies)) ''Policies'' (Some ''var(--accent)''),
               StatCard (dec_nat (totalChecks policies)) ''Total Checks'' None,
               StatCard (dec (agg_pass a)) ''Passing'' (Some ''var(--success)''),
               StatCard (dec (agg_fail a)) ''Failing'' (Some ''var(--danger)'')],
            plain_card [HealthRing_view num (agg_pass a) (agg_warn a) (agg_fail a)]])"

definition recent_scans :: "clock_env \<Rightarrow> ChecklistResult list \<Rightarrow> dashboard_event node" where
  "recent_scans ce results =
     (let latest = latestResults (ce_date ce) results
      in tag ''div''
           [tag ''div''
              (tag ''div'' [Txt ''Recent Scans''] #
               show_if (length results > 8)
                 [El ''span'' [] False [OnClick (Navigate ''/results'')] [Txt ''View all'']]),
            plain_card
              [if latest = [] then
                 EmptyState None ''No scan results yet'' (Some ''Results will appear here after the first scan runs.'') None
               else
                 tag ''div'' [tag ''table''
                   [tag ''thead'' [tag ''tr'' (map (\<lambda>h. tag ''th'' [Txt h])
                      [''Result'', ''Policy'', ''Type'', ''Pass'', ''Warn'', ''Fail'', ''Phase'', ''Time''])],
                    tag ''tbody'' (map (latest_row ce) latest)]]]])"

definition Dashboard_view :: "clock_env \<Rightarrow> (rat \<Rightarrow> string) \<Rightarrow> dashboard \<Rightarrow> dashboard_event node" where
  "Dashboard_view ce num s =
     (let policies = or_empty (db_policies s); results = or_empty (db_results s)
      in if db_loadingPolicies s \<or> db_loadingResults s then LoadingState
         else
           tag ''div''
             (tag ''div'' [tag ''div'' [tag ''div'' [Txt ''Dashboard''], tag ''div'' [Txt ''Cluster verification overview'']]] #
              (if \<not> totalPolicies policies > 0 then
                 [EmptyState (Some (IconPolicy (sized 40))) ''No policies configured''
                    (Some ''Create a ChecklistPolicy custom resource to start verifying your cluster.'') None]
               else
                 [stats_row num policies,
                  tag ''div'' [tag ''div'' [Txt ''Policy Status''], tag ''div'' (map (policy_card ce num) policies)],
                  recent_scans ce results])))"

section \<open>What the totals are\<close>

lemma totalChecks_sum: "totalChecks policies = (\<Sum>p\<leftarrow>policies. length (checks (p_spec p)))"
proof -
  have "foldl (\<lambda>acc p. acc + length (checks (p_spec p))) n policies = n + (\<Sum>p\<leftarrow>policies. length (checks (p_spec p)))" for n
    by (induction policies arbitrary: n) auto
  then show ?thesis by (simp add: totalChecks_def)
qed

lemma agg_sum:
  "agg policies =
     \<lparr>agg_pass = (\<Sum>u\<leftarrow>List.map_filter policy_summary policies. s_pass u),
      agg_warn = (\<Sum>u\<leftarrow>List.map_filter policy_summary policies. s_warn u),
      agg_fail = (\<Sum>u\<leftarrow>List.map_filter policy_summary policies. s_fail u)\<rparr>"
proof -
  let ?f = "\<lambda>acc p. case policy_summary p of
          Some u \<Rightarrow> acc\<lparr>agg_pass := agg_pass acc + s_pass u, agg_warn := agg_warn acc + s_warn u,
                       agg_fail := agg_fail acc + s_fail u\<rparr>
        | None \<Rightarrow> acc"
  have "foldl ?f \<lparr>agg_pass = a, agg_warn = b, agg_fail = c\<rparr> policies =
     \<lparr>agg_pass = a + (\<Sum>u\<leftarrow>List.map_filter policy_summary policies. s_pass u),
      agg_warn = b + (\<Sum>u\<leftarrow>List.map_filter policy_summary policies. s_warn u),
      agg_fail = c + (\<Sum>u\<leftarrow>List.map_filter policy_summary policies. s_fail u)\<rparr>" for a b c
    by (induction policies arbitrary: a b c) (auto split: option.splits)
  then show ?thesis by (simp add: agg_def)
qed

section \<open>The latest scans\<close>

lemma latestResults_take: "latestResults date rs = take 8 (js_sort (newest_first date) rs)"
  using js_slice_nat [of 0 8 "js_sort (newest_first date) rs"] by (simp add: latestResults_def slice_def)

text \<open>
  the dashboard shows the eight latest scans, or all when there are fewer, newest
  first: no scan that is left out is newer than one that is shown.
\<close>

theorem latest_results_newest:
  assumes "\<forall>r\<in>set rs. creation_time date r \<noteq> None"
  shows "\<exists>rest. mset rs = mset (latestResults date rs) + mset rest
     \<and> length (latestResults date rs) = min 8 (length rs)
     \<and> sorted_wrt (\<lambda>a b. the (creation_time date b) \<le> the (creation_time date a)) (latestResults date rs)
     \<and> (\<forall>a\<in>set (latestResults date rs). \<forall>b\<in>set rest. the (creation_time date b) \<le> the (creation_time date a))"
proof -
  define k where "k = (\<lambda>r. - the (creation_time date r))"
  define l where "l = js_sort (newest_first date) rs"
  have l: "l = sort_key k rs" using sort_newest_first [OF assms] by (simp add: l_def k_def)
  have "sorted_wrt (\<lambda>a b. k a \<le> k b) l" using sorted_sort_key [of k rs] by (simp add: l sorted_map)
  then have s: "sorted_wrt (\<lambda>a b. k a \<le> k b) (take 8 l @ drop 8 l)" by simp
  have "mset (take 8 l @ drop 8 l) = mset rs" by (simp only: append_take_drop_id) (simp add: l)
  then have "mset rs = mset (take 8 l) + mset (drop 8 l)" by (simp only: mset_append)
  moreover have "length (take 8 l) = min 8 (length rs)" by (simp add: l min.commute)
  ultimately show ?thesis
    using s unfolding sorted_wrt_append latestResults_take l_def [symmetric]
    by (intro exI [of _ "drop 8 l"]) (simp add: k_def)
qed

theorem latest_results_newest_witness:
  "length (latestResults year_date [demo_result ''b'' ''2024'', demo_result ''a'' ''2025'']) = 2"
proof -
  have "year_date ''2024'' = Some 2024" "year_date ''2025'' = Some 2025" by code_simp+
  then have "\<forall>r\<in>set [demo_result ''b'' ''2024'', demo_result ''a'' ''2025'']. creation_time year_date r \<noteq> None"
    by (simp add: creation_time_def demo_result_def)
  from latest_results_newest [OF this] show ?thesis by auto
qed

text \<open>
  the counts the dashboard shows, and draws as its ring, are the sums over the policies that
  have a summary, and its number of checks is that of all policies.
\<close>

theorem dashboard_totals:
  "agg_pass (agg ps) = (\<Sum>u\<leftarrow>List.map_filter policy_summary ps. s_pass u)
   \<and> agg_warn (agg ps) = (\<Sum>u\<leftarrow>List.map_filter policy_summary ps. s_warn u)
   \<and> agg_fail (agg ps) = (\<Sum>u\<leftarrow>List.map_filter policy_summary ps. s_fail u)
   \<and> totalChecks ps = (\<Sum>p\<leftarrow>ps. length (checks (p_spec p)))"
  by (simp add: agg_sum totalChecks_sum)

section \<open>Links\<close>

lemma offers_ProgressBar [simp]: "offers_all (ProgressBar num p w f) = {}"
  by (auto simp: ProgressBar_def Let_def split: if_splits)

lemma offers_policy_card [simp]: "offers (policy_card ce num p) = {Navigate ''/policies''}"
  by (auto simp: policy_card_def health_badge_def split: option.splits if_splits)

lemma offers_latest_row [simp]: "offers (latest_row ce r) = {Navigate ''/results''}"
  by (simp add: latest_row_def verdict_cell_def)

lemma offers_stats_row [simp]: "offers (stats_row num ps) = {}"
  by (simp add: stats_row_def Let_def)

lemma offers_recent_scans: "offers (recent_scans ce rs) \<subseteq> {Navigate ''/results''}"
  by (auto simp: recent_scans_def Let_def split: if_splits)

text \<open>
  Every action of the dashboard leads to the policies or the results page.
\<close>

lemma dashboard_links: "offers (Dashboard_view ce num s) \<subseteq> {Navigate ''/policies'', Navigate ''/results''}"
  using offers_recent_scans
  by (fastforce simp: Dashboard_view_def Let_def split: if_splits)

end
