(* ===== verification/JsonRound.thy ===== *)
theory JsonRound
  imports JsonText
begin

text \<open>
  \<open>JSON.parse\<close> reads back what \<open>JSON.stringify\<close> writes, with and without
  indentation; and the fuel of the parser never decides its result.
\<close>

declare pval.simps [simp del] pelems.simps [simp del] pmembers.simps [simp del] pstr.simps [simp del]

section \<open>Strings\<close>

lemma map_pr_Done: "map_pr f p = Done x \<longleftrightarrow> (\<exists>y. p = Done y \<and> x = f y)"
  by (cases p) auto

lemma hex_value_digit: "d < 16 \<Longrightarrow> hex_value (hex_digit d) = Some d"
  by (auto simp: hex_value_def hex_digit_def Let_def)

lemma escaped_units:
  "char_of (34 :: nat) = CHR 0x22" "char_of (92 :: nat) = CHR 0x5C" "char_of (8 :: nat) = CHR 0x08"
  "char_of (12 :: nat) = CHR 0x0C" "char_of (10 :: nat) = CHR 0x0A" "char_of (13 :: nat) = CHR 0x0D"
  "char_of (9 :: nat) = CHR 0x09"
  by code_simp+

lemma pstr_escape: "pstr (escape_unit c @ t) = map_pr (cons_fst c) (pstr t)"
proof -
  define n where "n = (of_char c :: nat)"
  have c: "c = char_of n" by (simp add: n_def)
  have bs: "CHR 0x5C \<noteq> CHR 0x22" by simp
  consider "n \<in> {34, 92, 8, 12, 10, 13, 9}" | "n < 32" "n \<notin> {8, 12, 10, 13, 9}"
    | "32 \<le> n" "n \<noteq> 34" "n \<noteq> 92" by fastforce
  then show ?thesis
  proof cases
    case 1
    then show ?thesis unfolding escape_unit_def c Let_def
      by (elim insertE emptyE) (simp_all add: pstr.simps escapes_def escaped_units)
  next
    case 2
    then have e: "escape_unit c = [CHR 0x5C, CHR ''u'', CHR ''0'', CHR ''0'', hex_digit (n div 16), hex_digit (n mod 16)]"
      by (simp add: escape_unit_def n_def [symmetric] Let_def)
    have h: "hex_value CHR ''0'' = Some 0" by (simp add: hex_value_def)
    have d: "hex_value (hex_digit (n div 16)) = Some (n div 16)" "hex_value (hex_digit (n mod 16)) = Some (n mod 16)"
      using 2 by (simp_all add: hex_value_digit)
    have "char_of (16 * (n div 16) + n mod 16) = c" by (simp add: c)
    then show ?thesis unfolding e by (simp add: pstr.simps h d)
  next
    case 3
    then have "c \<noteq> CHR 0x22" "c \<noteq> CHR 0x5C" unfolding n_def by auto
    with 3 show ?thesis by (simp add: escape_unit_def n_def [symmetric] Let_def pstr.simps)
  qed
qed

lemma pstr_length: "pstr s = Done (x, r) \<Longrightarrow> length r < length s"
proof (induction "length s" arbitrary: s x r rule: less_induct)
  case less
  show ?case
  proof (cases s)
    case (Cons c t)
    have IH: "pstr u = Done (y, r) \<Longrightarrow> length u < length s \<Longrightarrow> length r < length s" for u y
      using less(1) [of u y r] by linarith
    from less(2) Cons show ?thesis
      by (auto simp: pstr.simps map_pr_Done cons_fst_def split: if_splits list.splits option.splits
          dest!: IH)
  qed (use less(2) in \<open>simp add: pstr.simps\<close>)
qed

section \<open>Numbers\<close>

text \<open>What may follow a value: anything that does not continue a number.\<close>

definition ok_rest :: "string \<Rightarrow> bool" where
  "ok_rest r \<longleftrightarrow> (case r of [] \<Rightarrow> True | c # _ \<Rightarrow> \<not> is_digit c \<and> c \<notin> {CHR ''.'', CHR ''e'', CHR ''E''})"

lemma digit_zero: "d < 10 \<Longrightarrow> digit d = CHR ''0'' \<longleftrightarrow> d = 0"
proof
  assume "d < 10" "digit d = CHR ''0''"
  then have "undigit CHR ''0'' = d" by (metis undigit_digit)
  then show "d = 0" by (simp add: undigit_def)
next
  have "digit 0 = CHR ''0''" by code_simp
  then show "d = 0 \<Longrightarrow> digit d = CHR ''0''" by simp
qed

lemma dec_nat_no_leading_zero: "0 < n \<Longrightarrow> hd (dec_nat n) \<noteq> CHR ''0''"
proof (induction n rule: dec_nat.induct)
  case (1 n)
  show ?case
  proof (cases "n < 10")
    case True
    with 1 show ?thesis by (simp add: dec_nat.simps [of n] digit_zero)
  next
    case False
    with 1 have "hd (dec_nat (n div 10)) \<noteq> CHR ''0''" by simp
    with False show ?thesis by (simp add: dec_nat.simps [of n])
  qed
qed

lemma dec_nat_zero: "dec_nat 0 = [CHR ''0'']"
  by (simp add: dec_nat.simps digit_zero)

lemma takeWhile_dec_nat:
  assumes "ok_rest r"
  shows "takeWhile is_digit (dec_nat n @ r) = dec_nat n" "dropWhile is_digit (dec_nat n @ r) = r"
proof -
  have digits: "\<forall>c\<in>set (dec_nat n). is_digit c" using dec_nat_digits by blast
  have "takeWhile is_digit r = []" "dropWhile is_digit r = r"
    using assms by (auto simp: ok_rest_def split: list.splits)
  with digits show "takeWhile is_digit (dec_nat n @ r) = dec_nat n" "dropWhile is_digit (dec_nat n @ r) = r"
    by simp_all
qed

lemma ok_rest_no_fraction: "ok_rest r \<Longrightarrow> Option.bind (frac_part r) exp_part = Some r"
  by (auto simp: ok_rest_def frac_part_def exp_part_def split: list.splits)

lemma pnum_dec:
  assumes "ok_rest r" "\<bar>i\<bar> \<le> 2 ^ 53"
  shows "pnum (dec i @ r) = Done (JNum i, r)"
proof -
  have zero: "length (dec_nat n) > 1 \<longrightarrow> hd (dec_nat n) \<noteq> CHR ''0''" for n
    using dec_nat_no_leading_zero [of n] by (cases "n = 0") (auto simp: dec_nat_zero)
  have neg: "take 1 (dec_nat n @ r) \<noteq> ''-''" for n
  proof -
    obtain c cs where d: "dec_nat n = c # cs" by (cases "dec_nat n") auto
    then have "is_digit c" using dec_nat_digits [of c n] by simp
    then show ?thesis using digit_not_x [of c] d by simp
  qed
  have bound: "nat \<bar>i\<bar> \<le> 2 ^ 53" using assms(2) by simp
  show ?thesis
  proof (cases "i < 0")
    case True
    then have "dec i = CHR ''-'' # dec_nat (nat \<bar>i\<bar>)" by (simp add: dec_def)
    then show ?thesis
      using True zero [of "nat \<bar>i\<bar>"] bound
      by (simp add: pnum_def takeWhile_dec_nat [OF assms(1)] ok_rest_no_fraction [OF assms(1)] Let_def)
  next
    case False
    then have "dec i = dec_nat (nat \<bar>i\<bar>)" by (simp add: dec_def)
    then show ?thesis
      using False zero [of "nat \<bar>i\<bar>"] bound neg
      by (simp add: pnum_def takeWhile_dec_nat [OF assms(1)] ok_rest_no_fraction [OF assms(1)] Let_def)
  qed
qed

section \<open>White space\<close>

abbreviation blank :: "string \<Rightarrow> bool" where
  "blank w \<equiv> list_all json_ws w"

lemma skip_blank [simp]: "blank w \<Longrightarrow> skip_ws (w @ s) = skip_ws s"
  by (induction w) (auto simp: skip_ws_def)

lemma skip_ws_Cons: "skip_ws (c # s) = (if json_ws c then skip_ws s else c # s)"
  by (simp add: skip_ws_def)

lemma pval_blank: "blank w \<Longrightarrow> pval n (w @ s) = pval n s"
  by (cases n) (simp_all add: pval.simps)

lemma pelems_blank: "blank w \<Longrightarrow> pelems n (w @ s) = pelems n s"
  by (cases n) (simp_all add: pelems.simps pval_blank)

lemma pmembers_blank: "blank w \<Longrightarrow> pmembers n (w @ s) = pmembers n s"
  by (cases n) (simp_all add: pmembers.simps)

lemma structural_not_blank [simp]:
  "\<not> json_ws CHR ''[''" "\<not> json_ws CHR '']''" "\<not> json_ws CHR ''{''" "\<not> json_ws CHR ''}''" "\<not> json_ws CHR '',''"
  "\<not> json_ws CHR '':''" "\<not> json_ws CHR 0x22" "json_ws CHR '' ''" "json_ws CHR 0x0A"
  by (simp_all add: json_ws_def)

section \<open>The round trip\<close>

text \<open>Values the text determines: no property twice, integers a double holds.\<close>

fun wf_json :: "json \<Rightarrow> bool" where
  "wf_json (JNum n) = (\<bar>n\<bar> \<le> 2 ^ 53)"
| "wf_json (JArr vs) = list_all wf_json vs"
| "wf_json (JObj fs) = (distinct (map fst fs) \<and> list_all (\<lambda>kv. wf_json (snd kv)) fs)"
| "wf_json _ = True"

lemma ok_rest_blank: "blank t \<Longrightarrow> c \<in> {CHR '','', CHR '']'', CHR ''}''} \<Longrightarrow> ok_rest (t @ c # r)"
  by (cases t) (auto simp: ok_rest_def json_ws_def is_digit_def)

lemma bracket_text:
  assumes "items \<noteq> []" "blank gap" "blank ind"
  obtains w t where "blank w" "blank t" "bracket l r gap ind items = [l] @ w @ join (CHR '','' # w) items @ t @ [r]"
proof (cases "gap = []")
  case True
  then show ?thesis using assms that [of "[]" "[]"] by (simp add: bracket_def)
next
  case False
  then show ?thesis using assms that [of "[CHR 0x0A] @ ind @ gap" "[CHR 0x0A] @ ind"] by (simp add: bracket_def)
qed

text \<open>A text that parses to a value whatever follows.\<close>

definition reads :: "string \<Rightarrow> json \<Rightarrow> bool" where
  "reads t v \<longleftrightarrow> (\<forall>n r. ok_rest r \<longrightarrow> 2 * length t + 1 \<le> n \<longrightarrow> pval n (t @ r) = Done (v, r))"

lemma readsI:
  assumes "\<And>m r. ok_rest r \<Longrightarrow> 2 * length t \<le> m \<Longrightarrow> pval (Suc m) (t @ r) = Done (v, r)"
  shows "reads t v"
  unfolding reads_def
proof (intro allI impI)
  fix n r assume "ok_rest r" "2 * length t + 1 \<le> n"
  then show "pval n (t @ r) = Done (v, r)" using assms by (cases n) auto
qed

lemma pelems_join:
  assumes "\<forall>v\<in>set vs. reads (f v) v" "blank w" "blank t" "vs \<noteq> []"
    "2 * length (join (CHR '','' # w) (map f vs)) + 2 \<le> n"
  shows "pelems n (join (CHR '','' # w) (map f vs) @ t @ CHR '']'' # r) = Done (vs, r)"
  using assms
proof (induction vs arbitrary: n)
  case (Cons v vs)
  from Cons.prems(5) obtain m where n: "n = Suc m" by (cases n) auto
  show ?case
  proof (cases vs)
    case Nil
    then have "pval m (f v @ t @ CHR '']'' # r) = Done (v, t @ CHR '']'' # r)"
      using Cons.prems n ok_rest_blank by (auto simp: reads_def)
    with Nil Cons.prems(3) show ?thesis by (simp add: n pelems.simps skip_ws_Cons)
  next
    case (Cons v2 vs')
    let ?rest = "join (CHR '','' # w) (map f vs)"
    have j: "join (CHR '','' # w) (map f (v # vs)) = f v @ CHR '','' # w @ ?rest" using Cons by simp
    have "pval m (f v @ CHR '','' # w @ ?rest @ t @ CHR '']'' # r) = Done (v, CHR '','' # w @ ?rest @ t @ CHR '']'' # r)"
      using Cons.prems n j ok_rest_blank [of "[]" "CHR '',''"] by (auto simp: reads_def)
    moreover have "pelems m (w @ ?rest @ t @ CHR '']'' # r) = Done (vs, r)"
      using Cons.IH [of m] Cons.prems Cons n j by (simp add: pelems_blank)
    ultimately show ?thesis unfolding j by (simp add: n pelems.simps skip_ws_Cons)
  qed
qed simp

lemma join_head: "items \<noteq> [] \<Longrightarrow> \<exists>y. join sep items = hd items @ y"
  by (cases "(sep, items)" rule: join.cases) auto

text \<open>A value's text starts with a character of its own.\<close>

lemma dec_head: "\<exists>c s. dec i = c # s \<and> (is_digit c \<or> c = CHR ''-'')"
proof (cases "i < 0")
  case False
  obtain c s where "dec_nat (nat i) = c # s" by (cases "dec_nat (nat i)") auto
  with False dec_nat_digits [of c "nat i"] show ?thesis by (simp add: dec_def)
qed (simp add: dec_def)

lemma reads_dec:
  assumes "\<bar>i\<bar> \<le> 2 ^ 53"
  shows "reads (dec i) (JNum i)"
  unfolding reads_def
proof (intro allI impI)
  fix n r
  assume r: "ok_rest r" and "2 * length (dec i) + 1 \<le> n"
  then obtain m where n: "n = Suc m" by (cases n) auto
  obtain c s where d: "dec i = c # s" "is_digit c \<or> c = CHR ''-''" using dec_head by blast
  have "\<not> json_ws c" "c \<noteq> CHR 0x22" "c \<noteq> CHR ''[''" "c \<noteq> CHR ''{''" "c \<noteq> CHR ''n''" "c \<noteq> CHR ''t''" "c \<noteq> CHR ''f''"
    using d(2) by (auto simp: is_digit_def json_ws_def)
  then show "pval n (dec i @ r) = Done (JNum i, r)"
    using pnum_dec [OF r assms] by (simp add: n pval.simps d(1) skip_ws_Cons startsWith_def)
qed

lemma reads_keyword:
  "reads ''null'' JNull" "reads ''true'' (JBool True)" "reads ''false'' (JBool False)"
  by (auto intro!: readsI simp: pval.simps skip_ws_Cons json_ws_def startsWith_def)

text \<open>Printing with any way of escaping the characters of strings.\<close>

definition quote_by :: "(char \<Rightarrow> string) \<Rightarrow> string \<Rightarrow> string" where
  "quote_by esc s = [CHR 0x22] @ concat (map esc s) @ [CHR 0x22]"

definition member_by :: "(char \<Rightarrow> string) \<Rightarrow> string \<Rightarrow> string \<Rightarrow> string \<Rightarrow> string" where
  "member_by esc gap k v = quote_by esc k @ [CHR '':''] @ (if gap = [] then [] else [CHR '' '']) @ v"

fun print_by :: "(char \<Rightarrow> string) \<Rightarrow> string \<Rightarrow> string \<Rightarrow> json \<Rightarrow> string" where
  "print_by esc gap ind JNull = ''null''"
| "print_by esc gap ind (JBool b) = (if b then ''true'' else ''false'')"
| "print_by esc gap ind (JNum n) = dec n"
| "print_by esc gap ind (JStr s) = quote_by esc s"
| "print_by esc gap ind (JArr vs) = bracket CHR ''['' CHR '']'' gap ind (map (print_by esc gap (ind @ gap)) vs)"
| "print_by esc gap ind (JObj fs) =
     bracket CHR ''{'' CHR ''}'' gap ind
       (map (\<lambda>kv. member_by esc gap (fst kv) (print_by esc gap (ind @ gap) (snd kv))) fs)"

text \<open>What a printer needs to be read back: each escaped character is read as that character.\<close>

locale json_printer =
  fixes esc :: "char \<Rightarrow> string"
  assumes esc_read: "pstr (esc c @ t) = map_pr (cons_fst c) (pstr t)"
begin

lemma pstr_escaped: "pstr (concat (map esc s) @ CHR 0x22 # r) = Done (s, r)"
  by (induction s) (simp_all add: esc_read pstr.simps cons_fst_def)

lemma member_text: "\<exists>b. blank b \<and> member_by esc gap k v = CHR 0x22 # concat (map esc k) @ CHR 0x22 # CHR '':'' # b @ v"
  by (auto simp: member_by_def quote_by_def)

lemma pmembers_member:
  assumes "reads t v" "ok_rest r" "2 * length (member_by esc gap k t) + 1 \<le> Suc m"
  shows "pmembers (Suc m) (member_by esc gap k t @ r) =
     (case skip_ws r of
        e # u \<Rightarrow> if e = CHR '','' then map_pr (\<lambda>q. ((k, v) # fst q, snd q)) (pmembers m u)
                 else if e = CHR ''}'' then Done ([(k, v)], u) else Bad
      | [] \<Rightarrow> Bad)"
proof -
  obtain b where b: "blank b" "member_by esc gap k t = CHR 0x22 # concat (map esc k) @ CHR 0x22 # CHR '':'' # b @ t"
    using member_text by blast
  have "pval m (b @ t @ r) = Done (v, r)"
    using assms b unfolding pval_blank [OF b(1)] by (auto simp: reads_def)
  then show ?thesis
    unfolding b(2) by (simp add: pmembers.simps skip_ws_Cons pstr_escaped split: list.split)
qed

lemma pmembers_join:
  assumes "\<forall>kv\<in>set fs. reads (f kv) (snd kv)" "blank w" "blank t" "fs \<noteq> []"
    "2 * length (join (CHR '','' # w) (map (\<lambda>kv. member_by esc gap (fst kv) (f kv)) fs)) + 2 \<le> n"
  shows "pmembers n (join (CHR '','' # w) (map (\<lambda>kv. member_by esc gap (fst kv) (f kv)) fs) @ t @ CHR ''}'' # r) = Done (fs, r)"
  using assms
proof (induction fs arbitrary: n)
  case (Cons kv fs)
  from Cons.prems(5) obtain m where n: "n = Suc m" by (cases n) auto
  show ?case
  proof (cases fs)
    case Nil
    then show ?thesis
      using Cons.prems n ok_rest_blank by (simp add: pmembers_member skip_ws_Cons)
  next
    case (Cons kv2 fs')
    let ?m = "member_by esc gap (fst kv) (f kv)"
    let ?rest = "join (CHR '','' # w) (map (\<lambda>kv. member_by esc gap (fst kv) (f kv)) fs)"
    have j: "join (CHR '','' # w) (map (\<lambda>kv. member_by esc gap (fst kv) (f kv)) (kv # fs)) = ?m @ CHR '','' # w @ ?rest"
      using Cons by simp
    have "pmembers m (w @ ?rest @ t @ CHR ''}'' # r) = Done (fs, r)"
      using Cons.IH [of m] Cons.prems Cons n j by (simp add: pmembers_blank)
    moreover have "pmembers (Suc m) (?m @ CHR '','' # w @ ?rest @ t @ CHR ''}'' # r) =
        map_pr (\<lambda>q. ((fst kv, snd kv) # fst q, snd q)) (pmembers m (w @ ?rest @ t @ CHR ''}'' # r))"
      using Cons.prems n j ok_rest_blank [of "[]" "CHR '',''"]
      by (subst pmembers_member [of "f kv" "snd kv"]) (simp_all add: skip_ws_Cons)
    ultimately show ?thesis unfolding j by (simp add: n)
  qed
qed simp

lemma print_head: "\<exists>c s. print_by esc gap ind v = c # s \<and> \<not> json_ws c \<and> c \<noteq> CHR '']'' \<and> c \<noteq> CHR ''}''"
proof (cases v)
  case (JNum n)
  then show ?thesis using dec_head [of n] by (auto simp: is_digit_def json_ws_def)
qed (auto simp: quote_by_def bracket_def json_ws_def)

lemma member_head: "\<exists>s. member_by esc gap k v = CHR 0x22 # s"
  by (simp add: member_by_def quote_by_def)

lemma reads_array:
  assumes "blank gap" "blank ind" and IH: "\<forall>v\<in>set vs. reads (print_by esc gap (ind @ gap) v) v"
  shows "reads (bracket CHR ''['' CHR '']'' gap ind (map (print_by esc gap (ind @ gap)) vs)) (JArr vs)"
proof (cases "vs = []")
  case False
  let ?items = "map (print_by esc gap (ind @ gap)) vs"
  have ne: "?items \<noteq> []" using False by simp
  obtain w t where wt: "blank w" "blank t"
    and shape: "bracket CHR ''['' CHR '']'' gap ind ?items = [CHR ''[''] @ w @ join (CHR '','' # w) ?items @ t @ [CHR '']'']"
    using bracket_text [OF ne assms(1,2)] by blast
  obtain c s where "print_by esc gap (ind @ gap) (hd vs) = c # s" "\<not> json_ws c" "c \<noteq> CHR '']''"
    using print_head by blast
  then have first: "take 1 (skip_ws (w @ join (CHR '','' # w) ?items @ u)) \<noteq> '']''" for u
    using wt(1) False join_head [OF ne, of "CHR '','' # w"] by (auto simp: hd_map skip_ws_Cons)
  show ?thesis unfolding reads_def shape
  proof (intro allI impI)
    fix n r assume "2 * length ([CHR ''[''] @ w @ join (CHR '','' # w) ?items @ t @ [CHR '']'']) + 1 \<le> n"
    then obtain m where n: "n = Suc m" "2 * length (join (CHR '','' # w) ?items) + 2 \<le> m"
      by (cases n) auto
    show "pval n (([CHR ''[''] @ w @ join (CHR '','' # w) ?items @ t @ [CHR '']'']) @ r) = Done (JArr vs, r)"
      using pelems_join [OF IH wt False n(2), of r] first [of "t @ CHR '']'' # r"]
      by (simp add: n(1) pval.simps skip_ws_Cons pelems_blank [OF wt(1)])
  qed
qed (auto intro!: readsI simp: bracket_def pval.simps skip_ws_Cons)

lemma reads_object:
  assumes "blank gap" "blank ind" and IH: "\<forall>kv\<in>set fs. reads (print_by esc gap (ind @ gap) (snd kv)) (snd kv)"
    and keys: "distinct (map fst fs)"
  shows "reads (bracket CHR ''{'' CHR ''}'' gap ind
     (map (\<lambda>kv. member_by esc gap (fst kv) (print_by esc gap (ind @ gap) (snd kv))) fs)) (JObj fs)"
proof (cases "fs = []")
  case False
  let ?items = "map (\<lambda>kv. member_by esc gap (fst kv) (print_by esc gap (ind @ gap) (snd kv))) fs"
  have ne: "?items \<noteq> []" using False by simp
  obtain w t where wt: "blank w" "blank t"
    and shape: "bracket CHR ''{'' CHR ''}'' gap ind ?items = [CHR ''{''] @ w @ join (CHR '','' # w) ?items @ t @ [CHR ''}'']"
    using bracket_text [OF ne assms(1,2)] by blast
  obtain s where "member_by esc gap (fst (hd fs)) (print_by esc gap (ind @ gap) (snd (hd fs))) = CHR 0x22 # s"
    using member_head by blast
  then have first: "take 1 (skip_ws (w @ join (CHR '','' # w) ?items @ u)) \<noteq> ''}''" for u
    using wt(1) False join_head [OF ne, of "CHR '','' # w"] by (auto simp: hd_map skip_ws_Cons)
  show ?thesis unfolding reads_def shape
  proof (intro allI impI)
    fix n r assume "2 * length ([CHR ''{''] @ w @ join (CHR '','' # w) ?items @ t @ [CHR ''}'']) + 1 \<le> n"
    then obtain m where n: "n = Suc m" "2 * length (join (CHR '','' # w) ?items) + 2 \<le> m"
      by (cases n) auto
    show "pval n (([CHR ''{''] @ w @ join (CHR '','' # w) ?items @ t @ [CHR ''}'']) @ r) = Done (JObj fs, r)"
      using pmembers_join [OF IH wt False n(2), of r] first [of "t @ CHR ''}'' # r"] keys
      by (simp add: n(1) pval.simps skip_ws_Cons pmembers_blank [OF wt(1)] spread_Nil)
  qed
qed (auto intro!: readsI simp: bracket_def pval.simps skip_ws_Cons)

lemma reads_quote: "reads (quote_by esc s) (JStr s)"
  by (auto intro!: readsI simp: quote_by_def pval.simps skip_ws_Cons pstr_escaped)

lemma reads_print: "wf_json v \<Longrightarrow> blank gap \<Longrightarrow> blank ind \<Longrightarrow> reads (print_by esc gap ind v) v"
proof (induction gap ind v rule: stringify.induct)
  case (5 gap ind vs)
  then have "\<forall>v\<in>set vs. reads (print_by esc gap (ind @ gap) v) v"
    by (auto simp: list_all_iff)
  with 5 show ?case by (simp add: reads_array)
next
  case (6 gap ind fs)
  then have "\<forall>kv\<in>set fs. reads (print_by esc gap (ind @ gap) (snd kv)) (snd kv)"
    by (auto simp: list_all_iff)
  with 6 show ?case by (simp add: reads_object)
qed (simp_all add: reads_keyword reads_dec reads_quote)

lemma parse_print:
  assumes "wf_json v" "blank gap"
  shows "JSON_parse (print_by esc gap [] v) = Done v"
  using reads_print [OF assms, of "[]"]
  by (auto simp: reads_def JSON_parse_def ok_rest_def skip_ws_def dest!: spec [of _ "[]"])

end

interpretation js: json_printer escape_unit
  by unfold_locales (rule pstr_escape)

lemma print_js: "print_by escape_unit gap ind v = stringify gap ind v"
proof (induction gap ind v rule: stringify.induct)
  case (5 gap ind vs)
  then show ?case by (simp cong: map_cong)
next
  case (6 gap ind fs)
  then show ?case by (simp add: member_by_def member_def quote_by_def quote_str_def cong: map_cong)
qed (simp_all add: quote_by_def quote_str_def)

text \<open>
  parsing the text of a value, in the compact or in the indented form, gives the value
  back, for values without repeated properties whose numbers are integers a double holds.
\<close>

lemma parse_stringify:
  assumes "wf_json v"
  shows "JSON_parse (JSON_stringify v) = Done v \<and> JSON_parse (JSON_stringify2 v) = Done v"
  using js.parse_print [OF assms, of "[]"] js.parse_print [OF assms, of "''  ''"]
  by (simp add: print_js JSON_stringify_def JSON_stringify2_def json_ws_def)

section \<open>Enough fuel\<close>

lemma skip_ws_length: "skip_ws s = c # t \<Longrightarrow> length t < length s"
  by (metis skip_ws_def length_dropWhile_le length_Cons Suc_le_lessD)

lemma dropWhile_shorter: "takeWhile P s \<noteq> [] \<Longrightarrow> length (dropWhile P s) < length s"
  by (metis add_less_same_cancel2 append_eq_conv_conj length_append length_greater_0_conv
      length_drop takeWhile_dropWhile_id zero_less_diff less_add_same_cancel2)

lemma pnum_length: "pnum s = Done (v, r) \<Longrightarrow> length r < length s"
  using dropWhile_shorter [of is_digit s] dropWhile_shorter [of is_digit "drop 1 s"]
  by (fastforce simp: pnum_def Let_def split: if_splits option.splits)

lemma bind_pr_Done: "bind_pr p f = Done x \<longleftrightarrow> (\<exists>y. p = Done y \<and> f y = Done x)"
  by (cases p) auto

lemma pelems_DoneE:
  assumes "pelems (Suc n) s = Done (vs, r)"
  obtains v1 r1 c r2 where "pval n s = Done (v1, r1)" "skip_ws r1 = c # r2"
    "c = CHR '','' \<and> (\<exists>us. pelems n r2 = Done (us, r)) \<or> r = r2"
proof -
  obtain v1 r1 where p: "pval n s = Done (v1, r1)"
    using assms by (auto simp: pelems.simps bind_pr_Done)
  obtain c r2 where q: "skip_ws r1 = c # r2"
    using assms p by (cases "skip_ws r1") (simp_all add: pelems.simps)
  show ?thesis
    using assms that [OF p q] by (simp add: pelems.simps p q map_pr_Done split: if_splits) blast+
qed

lemma pmembers_DoneE:
  assumes "pmembers (Suc n) s = Done (fs, r)"
  obtains c t k u d w v1 r1 e r2 where "skip_ws s = c # t" "c = CHR 0x22" "pstr t = Done (k, u)"
    "skip_ws u = d # w" "d = CHR '':''" "pval n w = Done (v1, r1)" "skip_ws r1 = e # r2"
    "e = CHR '','' \<and> (\<exists>gs. pmembers n r2 = Done (gs, r)) \<or> r = r2"
proof -
  obtain c t where a: "skip_ws s = c # t" "c = CHR 0x22"
    using assms by (cases "skip_ws s") (simp_all add: pmembers.simps split: if_splits)
  obtain k u where b: "pstr t = Done (k, u)"
    using assms a by (auto simp: pmembers.simps bind_pr_Done)
  obtain d w where c: "skip_ws u = d # w" "d = CHR '':''"
    using assms a b by (cases "skip_ws u") (simp_all add: pmembers.simps split: if_splits)
  obtain v1 r1 where d: "pval n w = Done (v1, r1)"
    using assms a b c by (auto simp: pmembers.simps bind_pr_Done)
  obtain e r2 where e: "skip_ws r1 = e # r2"
    using assms a b c d by (cases "skip_ws r1") (simp_all add: pmembers.simps)
  show ?thesis
    using assms that [OF a b c d e] by (simp add: pmembers.simps a b c d e map_pr_Done split: if_splits) blast+
qed

lemma parse_length:
  "pval n s = Done (v, r) \<Longrightarrow> length r < length s"
  "pelems n s = Done (vs, r) \<Longrightarrow> length r < length s"
  "pmembers n s = Done (fs, r) \<Longrightarrow> length r < length s"
proof (induction n s and n s and n s arbitrary: v r and vs r and fs r rule: pval_pelems_pmembers.induct)
  case (2 n s)
  show ?case
  proof (cases "skip_ws s")
    case (Cons c t)
    have t: "length t < length s" using skip_ws_length [OF Cons] .
    have d: "length (drop 1 (skip_ws t)) \<le> length t"
      by (metis diff_le_self le_trans length_drop length_dropWhile_le skip_ws_def)
    have p: "pnum (c # t) = Done (v, r) \<Longrightarrow> length r < length s" using pnum_length [of "c # t" v r] Cons
      by (metis length_dropWhile_le less_le_trans skip_ws_def)
    show ?thesis
      using 2 Cons t d p by (fastforce simp: pval.simps map_pr_Done dest: pstr_length split: if_splits)
  qed (use 2 in \<open>simp add: pval.simps\<close>)
next
  case (4 n s)
  obtain v1 r1 c r2 where a: "pval n s = Done (v1, r1)" "skip_ws r1 = c # r2"
    and b: "c = CHR '','' \<and> (\<exists>us. pelems n r2 = Done (us, r)) \<or> r = r2"
    by (rule pelems_DoneE [OF 4(3)])
  have "length r1 < length s" using 4(1) a(1) by blast
  moreover have "length r2 < length r1" using skip_ws_length a(2) .
  moreover have "length r \<le> length r2" using b 4(2) [OF a(1)] a(2) by (auto dest: less_imp_le)
  ultimately show ?case by linarith
next
  case (6 n s)
  obtain c t k u d w v1 r1 e r2 where a: "skip_ws s = c # t" "c = CHR 0x22" "pstr t = Done (k, u)"
      "skip_ws u = d # w" "d = CHR '':''" "pval n w = Done (v1, r1)" "skip_ws r1 = e # r2"
    and b: "e = CHR '','' \<and> (\<exists>gs. pmembers n r2 = Done (gs, r)) \<or> r = r2"
    by (rule pmembers_DoneE [OF 6(3)])
  have "length r1 < length w" using 6(1) [OF a(1,2,3)] a by simp
  moreover have "length r \<le> length r2" using b 6(2) [OF a(1,2,3) _ a(5,6)] a by (auto dest: less_imp_le)
  moreover have "length t < length s" "length u < length t" "length w < length u" "length r2 < length r1"
    using skip_ws_length a pstr_length by blast+
  ultimately show ?case by linarith
qed (simp_all add: pval.simps pelems.simps pmembers.simps)

lemma bind_pr_eqI: "(\<And>x. p = Done x \<Longrightarrow> f x = g x) \<Longrightarrow> bind_pr p f = bind_pr p g"
  by (cases p) auto

text \<open>One step of the two loops, with the rest of the loop as a parameter.\<close>

definition elems_step :: "(string \<Rightarrow> (json list \<times> string) pr) \<Rightarrow> json \<times> string \<Rightarrow> (json list \<times> string) pr" where
  "elems_step h p =
     (case skip_ws (snd p) of
        c # r \<Rightarrow> if c = CHR '','' then map_pr (\<lambda>q. (fst p # fst q, snd q)) (h r)
                 else if c = CHR '']'' then Done ([fst p], r) else Bad
      | [] \<Rightarrow> Bad)"

definition members_step :: "(string \<Rightarrow> (fields \<times> string) pr) \<Rightarrow> string \<Rightarrow> json \<times> string \<Rightarrow> (fields \<times> string) pr" where
  "members_step h k p =
     (case skip_ws (snd p) of
        e # r \<Rightarrow> if e = CHR '','' then map_pr (\<lambda>q. ((k, fst p) # fst q, snd q)) (h r)
                 else if e = CHR ''}'' then Done ([(k, fst p)], r) else Bad
      | [] \<Rightarrow> Bad)"

lemma pelems_step: "pelems (Suc n) s = bind_pr (pval n s) (elems_step (pelems n))"
  by (simp add: pelems.simps elems_step_def [abs_def])

lemma pmembers_step:
  assumes "skip_ws s = CHR 0x22 # t" "pstr t = Done (k, u)" "skip_ws u = CHR '':'' # w"
  shows "pmembers (Suc n) s = bind_pr (pval n w) (members_step (pmembers n) k)"
  unfolding pmembers.simps members_step_def [abs_def]
  by (simp add: assms) (simp only: fst_conv)

lemma step_cong:
  "(\<And>c r. skip_ws (snd p) = c # r \<Longrightarrow> h r = h' r) \<Longrightarrow> elems_step h p = elems_step h' p"
  "(\<And>c r. skip_ws (snd p) = c # r \<Longrightarrow> g r = g' r) \<Longrightarrow> members_step g k p = members_step g' k p"
  by (auto simp: elems_step_def members_step_def split: list.split)

lemma pmembers_other:
  assumes "\<nexists>t k u w. skip_ws s = CHR 0x22 # t \<and> pstr t = Done (k, u) \<and> skip_ws u = CHR '':'' # w"
  shows "pmembers (Suc (Suc n)) s = pmembers (Suc n) s"
proof (cases "skip_ws s")
  case (Cons c t)
  show ?thesis
  proof (cases "pstr t")
    case (Done ku)
    then show ?thesis
      using assms Cons by (cases ku; cases "skip_ws (snd ku)") (auto simp: pmembers.simps)
  qed (simp_all add: pmembers.simps Cons)
qed (simp add: pmembers.simps)

lemma parse_fuel:
  "2 * length s + 1 \<le> n \<Longrightarrow> pval (Suc n) s = pval n s"
  "2 * length s + 2 \<le> n \<Longrightarrow> pelems (Suc n) s = pelems n s"
  "2 * length s + 2 \<le> n \<Longrightarrow> pmembers (Suc n) s = pmembers n s"
proof (induction n arbitrary: s)
  case (Suc n)
  { case 1
    show ?case
    proof (cases "skip_ws s")
      case (Cons c t)
      have "length t < length s" using skip_ws_length [OF Cons] .
      then have "pelems (Suc n) t = pelems n t" "pmembers (Suc n) t = pmembers n t"
        using Suc.IH(2,3) [of t] 1 by simp_all
      then show ?thesis by (simp add: pval.simps Cons)
    qed (simp add: pval.simps) }
  { case 2
    have v: "pval (Suc n) s = pval n s" using Suc.IH(1) 2 by simp
    have "pelems (Suc n) r = pelems n r" if "pval n s = Done p" "skip_ws (snd p) = c # r" for p c r
      using that parse_length(1) [of n s "fst p" "snd p"] skip_ws_length [of "snd p" c r] 2
      by (intro Suc.IH(2)) simp
    then show ?case unfolding pelems_step [of _ s] v by (intro bind_pr_eqI step_cong(1)) }
  { case 3
    show ?case
    proof (cases "\<exists>t k u w. skip_ws s = CHR 0x22 # t \<and> pstr t = Done (k, u) \<and> skip_ws u = CHR '':'' # w")
      case True
      then obtain t k u w where a: "skip_ws s = CHR 0x22 # t" "pstr t = Done (k, u)" "skip_ws u = CHR '':'' # w"
        by blast
      have l: "length w < length s" using skip_ws_length [OF a(1)] skip_ws_length [OF a(3)] pstr_length [OF a(2)] by simp
      then have v: "pval (Suc n) w = pval n w" using 3 by (intro Suc.IH(1)) simp
      have "pmembers (Suc n) r = pmembers n r" if "pval n w = Done p" "skip_ws (snd p) = e # r" for p e r
        using that parse_length(1) [of n w "fst p" "snd p"] skip_ws_length [of "snd p" e r] l 3
        by (intro Suc.IH(3)) simp
      then show ?thesis unfolding pmembers_step [OF a] v by (intro bind_pr_eqI step_cong(2))
    qed (rule pmembers_other) }
qed simp_all

text \<open>
  The parser's fuel never decides: any larger amount gives the same result, so that
  \<open>JSON_parse\<close> rejects a text only for its form.
\<close>

lemma pval_enough_fuel: "2 * length s + 1 \<le> n \<Longrightarrow> pval n s = pval (2 * length s + 1) s"
proof -
  have "pval (2 * length s + 1 + k) s = pval (2 * length s + 1) s" for k
    by (induction k) (simp_all add: parse_fuel(1) del: add_Suc)
  then show "2 * length s + 1 \<le> n \<Longrightarrow> pval n s = pval (2 * length s + 1) s" by (metis le_Suc_ex)
qed

end
