(* ===== verification/Settings.thy ===== *)
theory Settings
  imports Client Widgets JsonRound
begin

text \<open>
  \<open>ui/src/pages/Settings.tsx\<close>: the settings as a form or as JSON text.  The two parts of
  the form start from defaults over which the fields of the stored settings are spread, so
  they are JSON objects here, whatever the stored settings look like.  A value the
  query library delivers again unchanged keeps its identity and triggers nothing.
\<close>

section \<open>Objects\<close>

text \<open>The own properties of a value in a spread; null and undefined have none.\<close>

fun own_fields :: "json option \<Rightarrow> fields" where
  "own_fields (Some (JObj fs)) = fs"
| "own_fields (Some (JArr vs)) = map (\<lambda>(i, v). (dec_nat i, v)) (enumerate 0 vs)"
| "own_fields (Some (JStr s)) = map (\<lambda>(i, c). (dec_nat i, JStr [c])) (enumerate 0 s)"
| "own_fields _ = []"

text \<open>\<open>v?.k\<close>.\<close>

fun opt_get :: "string \<Rightarrow> json option \<Rightarrow> json option" where
  "opt_get k None = None"
| "opt_get k (Some v) = (if v = JNull then None else jget k v)"

section \<open>State\<close>

datatype settings_mode = FormMode | JsonMode

datatype notice_type = N_success | N_error

text \<open>\<open>sp_timers\<close> holds the times at which pending \<open>setToast(null)\<close> calls fire.\<close>

record settings_page =
  sp_mode :: settings_mode
  sp_jsonText :: string
  sp_toast :: "(notice_type \<times> string) option"
  sp_settings :: "json option"
  sp_isLoading :: bool
  sp_general :: fields
  sp_notif :: fields
  sp_isPending :: bool
  sp_clock :: nat
  sp_timers :: "nat list"

definition default_general :: fields where
  "default_general =
     [(''defaultProvider'', JStr ''claude''), (''defaultModel'', JStr []),
      (''escalationThreshold'', JNum 5), (''resultRetentionDays'', JNum 30)]"

definition default_notif :: fields where
  "default_notif =
     [(''slack'', JObj [(''enabled'', JBool False), (''channel'', JStr []), (''webhookSecret'', JStr [])]),
      (''github'', JObj [(''enabled'', JBool False), (''owner'', JStr []), (''repo'', JStr []),
                        (''labels'', JStr []), (''tokenSecret'', JStr [])]),
      (''jira'', JObj [(''enabled'', JBool False), (''url'', JStr []), (''project'', JStr []),
                      (''issueType'', JStr ''Bug''), (''credentialSecret'', JStr [])])]"

definition init_settings :: settings_page where
  "init_settings =
     \<lparr>sp_mode = FormMode, sp_jsonText = [], sp_toast = None, sp_settings = None, sp_isLoading = True,
      sp_general = default_general, sp_notif = default_notif, sp_isPending = False,
      sp_clock = 0, sp_timers = []\<rparr>"

section \<open>Handlers\<close>

definition populate :: "json \<Rightarrow> settings_page \<Rightarrow> settings_page" where
  "populate v s =
     (if \<not> jtruthy (Some v) then s
      else s\<lparr>sp_jsonText := JSON_stringify2 v,
             sp_general := (if jtruthy (jget ''general'' v)
                            then spread (sp_general s) (own_fields (jget ''general'' v)) else sp_general s),
             sp_notif := (if jtruthy (jget ''notification'' v)
                          then spread (sp_notif s) (own_fields (jget ''notification'' v)) else sp_notif s)\<rparr>)"

definition settings_data :: "json \<Rightarrow> settings_page \<Rightarrow> settings_page" where
  "settings_data v s =
     (if sp_settings s = Some v then s\<lparr>sp_isLoading := False\<rparr>
      else populate v (s\<lparr>sp_settings := Some v, sp_isLoading := False\<rparr>))"

definition show_notice :: "notice_type \<Rightarrow> string \<Rightarrow> settings_page \<Rightarrow> settings_page" where
  "show_notice ty msg s =
     s\<lparr>sp_toast := Some (ty, msg), sp_timers := sp_timers s @ [sp_clock s + 4000]\<rparr>"

definition settings_elapse :: "nat \<Rightarrow> settings_page \<Rightarrow> settings_page" where
  "settings_elapse d s =
     (let t = sp_clock s + d
      in s\<lparr>sp_clock := t, sp_timers := filter (\<lambda>u. t < u) (sp_timers s),
           sp_toast := (if \<exists>u\<in>set (sp_timers s). u \<le> t then None else sp_toast s)\<rparr>)"

definition form_settings :: "settings_page \<Rightarrow> json" where
  "form_settings s = JObj [(''general'', JObj (sp_general s)), (''notification'', JObj (sp_notif s))]"

definition or_number :: "string \<Rightarrow> int \<Rightarrow> int" where
  "or_number text d = (case parseInt text of Some n \<Rightarrow> (if n = 0 then d else n) | None \<Rightarrow> d)"

definition set_notif :: "string \<Rightarrow> string \<Rightarrow> json \<Rightarrow> fields \<Rightarrow> fields" where
  "set_notif key field v notif = put key (JObj (put field v (own_fields (map_of notif key)))) notif"

datatype settings_event =
    SetMode settings_mode
  | SetJson string
  | SetGeneralText string string
  | SetGeneralNumber string int string
  | EnableNotif string bool
  | SetNotifText string string string
  | Save
  | SaveSucceeded
  | SaveFailed string
  | SettingsData json
  | SettingsFailed
  | Elapse nat

text \<open>
  The body of the call a press of the save button makes: in JSON mode the text is parsed
  first.  For a text \<open>Beyond\<close> the modelled values the model does not say what is sent.
\<close>

definition saved_body :: "settings_page \<Rightarrow> json pr" where
  "saved_body s =
     (case sp_mode s of FormMode \<Rightarrow> Done (form_settings s) | JsonMode \<Rightarrow> JSON_parse (sp_jsonText s))"

definition save_call :: "settings_page \<Rightarrow> api_call pr" where
  "save_call s = map_pr updateSettings (saved_body s)"

fun settings_step :: "settings_page \<Rightarrow> settings_event \<Rightarrow> settings_page" where
  "settings_step s (SetMode m) = s\<lparr>sp_mode := m\<rparr>"
| "settings_step s (SetJson t) = s\<lparr>sp_jsonText := t\<rparr>"
| "settings_step s (SetGeneralText k v) = s\<lparr>sp_general := put k (JStr v) (sp_general s)\<rparr>"
| "settings_step s (SetGeneralNumber k d v) = s\<lparr>sp_general := put k (JNum (or_number v d)) (sp_general s)\<rparr>"
| "settings_step s (EnableNotif key b) = s\<lparr>sp_notif := set_notif key ''enabled'' (JBool b) (sp_notif s)\<rparr>"
| "settings_step s (SetNotifText key field v) = s\<lparr>sp_notif := set_notif key field (JStr v) (sp_notif s)\<rparr>"
| "settings_step s Save =
     (case saved_body s of
        Bad \<Rightarrow> show_notice N_error ''Invalid JSON format.'' s
      | Done v \<Rightarrow> s\<lparr>sp_isPending := True\<rparr>
      | Beyond \<Rightarrow> s)"
| "settings_step s SaveSucceeded =
     show_notice N_success ''Settings saved successfully.'' (s\<lparr>sp_isPending := False\<rparr>)"
| "settings_step s (SaveFailed msg) = show_notice N_error msg (s\<lparr>sp_isPending := False\<rparr>)"
| "settings_step s (SettingsData v) = settings_data v s"
| "settings_step s SettingsFailed = s\<lparr>sp_isLoading := False\<rparr>"
| "settings_step s (Elapse d) = settings_elapse d s"

section \<open>The rendered page\<close>

definition json_attr :: "json option \<Rightarrow> string" where
  "json_attr v = (case v of None \<Rightarrow> [] | Some JNull \<Rightarrow> [] | Some w \<Rightarrow> jstring w)"

text \<open>\<open>{v && nodes}\<close>: a false number is rendered as such.\<close>

definition and_nodes :: "json option \<Rightarrow> 'e node list \<Rightarrow> 'e node list" where
  "and_nodes v nodes =
     (if jtruthy v then nodes else case v of Some (JNum n) \<Rightarrow> [Txt (dec n)] | _ \<Rightarrow> [])"

definition notif_enabled :: "settings_page \<Rightarrow> string \<Rightarrow> json option" where
  "notif_enabled s key = opt_get ''enabled'' (map_of (sp_notif s) key)"

definition notif_input :: "settings_page \<Rightarrow> string \<Rightarrow> string \<times> string \<times> string \<Rightarrow> settings_event node" where
  "notif_input s key fld =
     (case fld of (field, label, placeholder) \<Rightarrow>
        FormField [Txt label]
          [if field = ''issueType''
           then Select (json_attr (opt_get field (map_of (sp_notif s) key))) (SetNotifText key field)
                  [(''Bug'', ''Bug''), (''Task'', ''Task''), (''Story'', ''Story'')]
           else Input [(''placeholder'', placeholder)] (json_attr (opt_get field (map_of (sp_notif s) key)))
                  False (SetNotifText key field)])"

text \<open>The cards of the three notification channels have the same shape.\<close>

definition notif_card :: "settings_page \<Rightarrow> string \<Rightarrow> string \<Rightarrow> (string \<times> string \<times> string) list \<Rightarrow> settings_event node" where
  "notif_card s key title flds =
     plain_card
       (tag ''div''
          [tag ''div''
             [tag ''div'' [Txt title],
              Badge (if jtruthy (notif_enabled s key) then V_pass else V_neutral)
                [Txt (if jtruthy (notif_enabled s key) then ''Enabled'' else ''Disabled'')]],
           tag ''label''
             [El ''input'' [(''type'', ''checkbox''), (''checked'', if jtruthy (notif_enabled s key) then ''true'' else ''false'')]
                False [OnCheck (EnableNotif key)] [],
              Txt ''Enable'']]
        # and_nodes (notif_enabled s key) [tag ''div'' (map (notif_input s key) flds)])"

definition slack_card :: "settings_page \<Rightarrow> settings_event node" where
  "slack_card s =
     notif_card s ''slack'' ''Slack Notifications''
       [(''channel'', ''Channel'', ''#dtm-alerts''),
        (''webhookSecret'', ''Webhook Secret Name'', ''dtm-slack-webhook'')]"

definition github_card :: "settings_page \<Rightarrow> settings_event node" where
  "github_card s =
     notif_card s ''github'' ''GitHub Issues''
       [(''owner'', ''Owner'', ''my-org''), (''repo'', ''Repository'', ''my-repo''),
        (''labels'', ''Labels (comma-separated)'', ''dtm, alert''),
        (''tokenSecret'', ''Token Secret Name'', ''dtm-github-token'')]"

definition jira_card :: "settings_page \<Rightarrow> settings_event node" where
  "jira_card s =
     notif_card s ''jira'' ''Jira Tickets''
       [(''url'', ''Jira URL'', ''https://mycompany.atlassian.net''), (''project'', ''Project Key'', ''OPS''),
        (''issueType'', ''Issue Type'', []), (''credentialSecret'', ''Credential Secret Name'', ''dtm-jira-creds'')]"

definition general_card :: "settings_page \<Rightarrow> settings_event node" where
  "general_card s =
     plain_card
       [tag ''div'' [tag ''div'' [Txt ''General'']],
        tag ''div''
          [FormField [Txt ''Default LLM Provider'']
             [Select (json_attr (map_of (sp_general s) ''defaultProvider'')) (SetGeneralText ''defaultProvider'')
                [(''claude'', ''Claude''), (''gemini'', ''Gemini''), (''openai'', ''OpenAI'')]],
           FormField [Txt ''Default Model'']
             [Input [(''placeholder'', ''claude-sonnet-4-20250514'')] (json_attr (map_of (sp_general s) ''defaultModel''))
                False (SetGeneralText ''defaultModel'')],
           FormField [Txt ''Escalation Threshold'']
             [Input [(''type'', ''number''), (''min'', ''1'')] (json_attr (map_of (sp_general s) ''escalationThreshold''))
                False (SetGeneralNumber ''escalationThreshold'' 5)],
           FormField [Txt ''Result Retention (days)'']
             [Input [(''type'', ''number''), (''min'', ''1'')] (json_attr (map_of (sp_general s) ''resultRetentionDays''))
                False (SetGeneralNumber ''resultRetentionDays'' 30)]]]"

definition mode_button :: "settings_page \<Rightarrow> settings_mode \<Rightarrow> string \<Rightarrow> settings_event node" where
  "mode_button s m label =
     El ''button''
       [(''background'', if sp_mode s = m then ''var(--accent-muted)'' else ''transparent''),
        (''color'', if sp_mode s = m then ''var(--accent)'' else ''var(--text-tertiary)'')]
       False [OnClick (SetMode m)] [Txt label]"

definition Settings_view :: "settings_page \<Rightarrow> settings_event node" where
  "Settings_view s =
     (if sp_isLoading s then LoadingState
      else tag ''div''
        ([tag ''div''
            [tag ''div'' [tag ''div'' [Txt ''Settings''], tag ''div'' [Txt ''DTM system configuration'']],
             tag ''div''
               [tag ''div'' [mode_button s FormMode ''Form'', mode_button s JsonMode ''JSON''],
                Button primary md [] (sp_isPending s) Save
                  [Txt (if sp_isPending s then ''Saving...'' else ''Save Settings'')]]]] @
         (case sp_toast s of
            Some (ty, msg) \<Rightarrow>
              [El ''div'' [(''background'', if ty = N_success then ''var(--success-muted)'' else ''var(--danger-muted)''),
                           (''color'', if ty = N_success then ''var(--success)'' else ''var(--danger)'')] False [] [Txt msg]]
          | None \<Rightarrow> []) @
         (case sp_mode s of
            JsonMode \<Rightarrow>
              [plain_card [FormField [Txt ''Raw Configuration''] [TextArea [(''rows'', ''24'')] (sp_jsonText s) SetJson]]]
          | FormMode \<Rightarrow> [general_card s, slack_card s, github_card s, jira_card s])))"

section \<open>Saving\<close>

text \<open>Opening the page and loading the settings \<open>v\<close>.\<close>

definition loaded :: "json \<Rightarrow> settings_page" where
  "loaded v = settings_step init_settings (SettingsData v)"

lemma loaded_fields:
  assumes "jtruthy (Some v)"
  shows "sp_jsonText (loaded v) = JSON_stringify2 v" "sp_mode (loaded v) = FormMode"
    "sp_general (loaded v) = (if jtruthy (jget ''general'' v)
       then spread default_general (own_fields (jget ''general'' v)) else default_general)"
    "sp_notif (loaded v) = (if jtruthy (jget ''notification'' v)
       then spread default_notif (own_fields (jget ''notification'' v)) else default_notif)"
  using assms by (simp_all add: loaded_def settings_data_def populate_def init_settings_def)

text \<open>
  C39: in JSON mode, saving the loaded settings untouched sends back exactly what the
  server stores.
\<close>

theorem json_mode_roundtrip:
  assumes "wf_json v" "jtruthy (Some v)"
  shows "save_call (settings_step (loaded v) (SetMode JsonMode)) = Done (updateSettings v)"
  using parse_stringify [OF assms(1)] loaded_fields(1) [OF assms(2)]
  by (simp add: save_call_def saved_body_def)

definition demo_settings :: json where
  "demo_settings =
     JObj [(''general'', JObj [(''escalationThreshold'', JNum 3)]), (''audit'', JObj [(''enabled'', JBool True)])]"

theorem json_mode_roundtrip_witness:
  "save_call (settings_step (loaded demo_settings) (SetMode JsonMode)) = Done (updateSettings demo_settings)"
  by (rule json_mode_roundtrip) (simp_all add: demo_settings_def)

text \<open>
  in form mode, saving untouched sends the stored fields of the two parts, completed by
  defaults, and nothing else: every other part of the stored settings is missing from the
  body that replaces them.
\<close>

theorem form_mode_save:
  assumes "jget ''general'' v = Some (JObj g)" "distinct (map fst g)"
    and "jget ''notification'' v = Some (JObj m)" "distinct (map fst m)"
  shows "\<exists>g' m'. saved_body (loaded v) = Done (JObj [(''general'', JObj g'), (''notification'', JObj m')])
     \<and> map_of g' = map_of default_general ++ map_of g \<and> map_of m' = map_of default_notif ++ map_of m
     \<and> (\<forall>k. k \<noteq> ''general'' \<and> k \<noteq> ''notification'' \<longrightarrow>
          jget k (JObj [(''general'', JObj g'), (''notification'', JObj m')]) = None)"
proof -
  have t: "jtruthy (Some v)" using assms(1) by (cases v) auto
  show ?thesis
    using assms by (simp add: saved_body_def form_settings_def loaded_fields [OF t] map_of_spread)
qed

theorem form_mode_save_witness:
  "\<exists>g' m'. saved_body (loaded (JObj [(''general'', JObj [(''escalationThreshold'', JNum 3)]), (''notification'', JObj []),
        (''audit'', JBool True)])) = Done (JObj [(''general'', JObj g'), (''notification'', JObj m')])
     \<and> map_of g' ''escalationThreshold'' = Some (JNum 3)"
  using form_mode_save [of "JObj [(''general'', JObj [(''escalationThreshold'', JNum 3)]), (''notification'', JObj []),
        (''audit'', JBool True)]" "[(''escalationThreshold'', JNum 3)]" "[]"]
  by auto

text \<open>
  although the form is meant to be filled on the first load only, settings that arrive
  later and differ from the ones shown overwrite what the user has typed: the text, and every
  field of the general part that they contain.
\<close>

theorem refetch_overwrites_edits:
  assumes "sp_settings s \<noteq> Some v" "jget ''general'' v = Some (JObj g)" "distinct (map fst g)"
  shows "sp_jsonText (settings_step (settings_step s (SetJson typed)) (SettingsData v)) = JSON_stringify2 v
     \<and> (\<forall>k x. map_of g k = Some x \<longrightarrow>
          map_of (sp_general (settings_step (settings_step s (SetGeneralText k typed)) (SettingsData v))) k = Some x)"
proof -
  have t: "jtruthy (Some v)" using assms(2) by (cases v) auto
  show ?thesis using assms t by (simp add: settings_data_def populate_def map_of_spread)
qed

theorem refetch_overwrites_edits_witness:
  "sp_jsonText (settings_step (settings_step (loaded demo_settings) (SetJson ''edited''))
     (SettingsData (JObj [(''general'', JObj [(''escalationThreshold'', JNum 9)])])))
   = JSON_stringify2 (JObj [(''general'', JObj [(''escalationThreshold'', JNum 9)])])"
  using refetch_overwrites_edits [of "loaded demo_settings" "JObj [(''general'', JObj [(''escalationThreshold'', JNum 9)])]"
      "[(''escalationThreshold'', JNum 9)]" "''edited''"]
  by (simp add: loaded_def settings_data_def populate_def init_settings_def demo_settings_def)

section \<open>Number fields and messages\<close>

text \<open>
  a number field takes every integer the user types except 0, which is replaced by the
  default; the attribute \<open>min=1\<close> does not keep negative numbers out.
\<close>

theorem number_field:
  "map_of (sp_general (settings_step s (SetGeneralNumber k d (dec n)))) k = Some (JNum (if n = 0 then d else n))"
  by (simp add: or_number_def parseInt_dec)

text \<open>
  a message disappears 4000 ms after the previous one was shown: its own time is cut
  short, because the timer of the earlier message is not stopped.
\<close>

theorem notice_cut_short:
  assumes "0 < d" "d < 4000"
  shows "sp_toast (settings_elapse (4000 - d) (show_notice ty2 m2 (settings_elapse d (show_notice ty1 m1 s)))) = None"
  using assms by (auto simp: settings_elapse_def show_notice_def Let_def)

theorem notice_cut_short_witness:
  "sp_toast (settings_elapse 1 (show_notice N_error ''Invalid JSON format.''
     (settings_elapse 3999 (show_notice N_success ''Settings saved successfully.'' init_settings)))) = None"
  using notice_cut_short [of 3999 N_error "''Invalid JSON format.''" N_success "''Settings saved successfully.''" init_settings]
  by simp

end
