(* ===== verification/Toast.thy ===== *)
theory Toast
  imports JsLib
begin

text \<open>
  \<open>ui/src/components/Toast.tsx\<close>: the toast provider and its items with their timers.
  Time is a clock in milliseconds.  An item's effect depends on its \<open>onDone\<close> property,
  and the provider passes a new \<open>onDone\<close> on each of its renders; hence every render of
  the provider runs the cleanup of every item (\<open>clearTimeout\<close> of its 3000 ms timer) and
  starts a new timer.  The 200 ms timer that removes a faded item is never cleared, so it
  is kept apart from the items.
\<close>

section \<open>State and operations\<close>

datatype ToastType = success | error

record ToastItem =
  t_id :: nat
  t_message :: string
  t_type :: ToastType
  t_visible :: bool
  t_timer :: "nat option"

record provider =
  toasts :: "ToastItem list"
  nextId :: nat
  frames :: "nat list"
  dones :: "(nat \<times> nat) list"
  clock :: nat

definition init_provider :: provider where
  "init_provider = \<lparr>toasts = [], nextId = 0, frames = [], dones = [], clock = 0\<rparr>"

definition start_effect :: "nat \<Rightarrow> ToastItem \<Rightarrow> ToastItem" where
  "start_effect now t = t\<lparr>t_timer := Some (now + 3000)\<rparr>"

definition render_provider :: "provider \<Rightarrow> provider" where
  "render_provider s =
     s\<lparr>toasts := map (start_effect (clock s)) (toasts s),
       frames := frames s @ map t_id (toasts s)\<rparr>"

definition showToast :: "string \<Rightarrow> ToastType \<Rightarrow> provider \<Rightarrow> provider" where
  "showToast message type s =
     render_provider
       (s\<lparr>toasts := toasts s @ [\<lparr>t_id = nextId s, t_message = message, t_type = type,
                                 t_visible = False, t_timer = None\<rparr>],
          nextId := nextId s + 1\<rparr>)"

definition removeToast :: "nat \<Rightarrow> provider \<Rightarrow> provider" where
  "removeToast i s = render_provider (s\<lparr>toasts := filter (\<lambda>t. t_id t \<noteq> i) (toasts s)\<rparr>)"

definition map_item :: "nat \<Rightarrow> (ToastItem \<Rightarrow> ToastItem) \<Rightarrow> provider \<Rightarrow> provider" where
  "map_item i f s = s\<lparr>toasts := map (\<lambda>t. if t_id t = i then f t else t) (toasts s)\<rparr>"

text \<open>The animation frame callback, the 3000 ms timer and the 200 ms timer of an item.\<close>

definition frame :: "nat \<Rightarrow> provider \<Rightarrow> provider" where
  "frame i s = map_item i (\<lambda>t. t\<lparr>t_visible := True\<rparr>) (s\<lparr>frames := remove1 i (frames s)\<rparr>)"

definition timeout :: "nat \<Rightarrow> provider \<Rightarrow> provider" where
  "timeout i s =
     map_item i (\<lambda>t. t\<lparr>t_visible := False, t_timer := None\<rparr>)
       (s\<lparr>dones := dones s @ [(clock s + 200, i)]\<rparr>)"

definition onDone :: "nat \<Rightarrow> nat \<Rightarrow> provider \<Rightarrow> provider" where
  "onDone d i s = removeToast i (s\<lparr>dones := remove1 (d, i) (dones s)\<rparr>)"

datatype toast_event =
    ShowToast string ToastType
  | Frame nat
  | Timeout nat
  | Done nat nat
  | Tick

fun toast_step :: "provider \<Rightarrow> toast_event \<Rightarrow> provider" where
  "toast_step s (ShowToast m ty) = showToast m ty s"
| "toast_step s (Frame i) = frame i s"
| "toast_step s (Timeout i) = timeout i s"
| "toast_step s (Done d i) = onDone d i s"
| "toast_step s Tick = s\<lparr>clock := clock s + 1\<rparr>"

text \<open>When the browser may raise each event: a timer never fires early.\<close>

fun toast_env :: "provider \<Rightarrow> toast_event \<Rightarrow> bool" where
  "toast_env s (ShowToast m ty) = True"
| "toast_env s (Frame i) = (i \<in> set (frames s))"
| "toast_env s (Timeout i) = (\<exists>t\<in>set (toasts s). t_id t = i \<and> (\<exists>d. t_timer t = Some d \<and> d \<le> clock s))"
| "toast_env s (Done d i) = ((d, i) \<in> set (dones s) \<and> d \<le> clock s)"
| "toast_env s Tick = True"

definition ToastItem_view :: "ToastItem \<Rightarrow> 'e node" where
  "ToastItem_view t =
     El ''div''
       [(''color'', if t_type t = error then ''var(--danger)'' else ''var(--success)''),
        (''opacity'', if t_visible t then ''1'' else ''0'')] False [] [Txt (t_message t)]"

definition toast_view :: "provider \<Rightarrow> toast_event node" where
  "toast_view s = tag ''div'' (map ToastItem_view (toasts s))"

abbreviation toast_reach :: "provider \<Rightarrow> bool" where
  "toast_reach \<equiv> ui_reach toast_view toast_step toast_env init_provider"

section \<open>Invariant\<close>

definition ids_ok :: "provider \<Rightarrow> bool" where
  "ids_ok s \<longleftrightarrow>
     distinct (map t_id (toasts s)) \<and> (\<forall>t\<in>set (toasts s). t_id t < nextId s)
     \<and> (\<forall>(d, i)\<in>set (dones s). i < nextId s)"

text \<open>Every toast on the screen has a running timer or a pending removal.\<close>

definition toast_inv :: "provider \<Rightarrow> bool" where
  "toast_inv s \<longleftrightarrow>
     ids_ok s \<and> (\<forall>t\<in>set (toasts s). t_timer t = None \<longrightarrow> t_id t \<in> snd ` set (dones s))"

lemma map_item_ids [simp]:
  "(\<And>t. t_id (f t) = t_id t) \<Longrightarrow> map t_id (toasts (map_item i f s)) = map t_id (toasts s)"
  by (auto simp: map_item_def)

lemma offers_toast_view [simp]: "offers (toast_view s) = {}"
  by (auto simp: toast_view_def ToastItem_view_def)

lemma start_effect_simps [simp]:
  "t_id (start_effect n t) = t_id t" "t_message (start_effect n t) = t_message t"
  "t_type (start_effect n t) = t_type t" "t_visible (start_effect n t) = t_visible t"
  "t_timer (start_effect n t) = Some (n + 3000)"
  by (simp_all add: start_effect_def)

lemma start_effect_ids [simp]: "t_id \<circ> start_effect n = t_id"
  by (simp add: fun_eq_iff)

lemma render_provider_inv: "ids_ok s \<Longrightarrow> toast_inv (render_provider s)"
  by (auto simp: toast_inv_def ids_ok_def render_provider_def)

lemma toast_step_inv:
  assumes "toast_inv s" "toast_env s e"
  shows "toast_inv (toast_step s e)"
proof (cases e)
  case (ShowToast m ty)
  from assms have "ids_ok (s\<lparr>toasts := toasts s @ [\<lparr>t_id = nextId s, t_message = m, t_type = ty,
      t_visible = False, t_timer = None\<rparr>], nextId := nextId s + 1\<rparr>)"
    by (fastforce simp: toast_inv_def ids_ok_def)
  with ShowToast show ?thesis by (simp add: showToast_def render_provider_inv)
next
  case (Frame i)
  with assms show ?thesis
    by (auto simp: frame_def toast_inv_def ids_ok_def map_item_def comp_def if_distrib cong: if_cong)
next
  case (Timeout i)
  with assms show ?thesis
    by (auto simp: timeout_def toast_inv_def ids_ok_def map_item_def comp_def if_distrib cong: if_cong)
next
  case (Done d i)
  from assms have "ids_ok (s\<lparr>dones := remove1 (d, i) (dones s), toasts := filter (\<lambda>t. t_id t \<noteq> i) (toasts s)\<rparr>)"
    using set_remove1_subset [of "(d, i)" "dones s"]
    by (auto simp: toast_inv_def ids_ok_def distinct_map_filter)
  with Done show ?thesis by (simp add: onDone_def removeToast_def render_provider_inv)
next
  case Tick
  with assms show ?thesis by (auto simp: toast_inv_def ids_ok_def)
qed

interpretation toast: ui_component toast_view toast_step toast_env toast_inv
  by unfold_locales (simp_all add: toast_step_inv)

text \<open>
  in every reachable state of the provider the toast ids are pairwise different (they
  are the React keys, and a removal takes its toast by id), and no toast is stuck: each has
  a running timer or a pending removal.
\<close>

theorem toast_reach_inv:
  assumes "toast_reach s"
  shows "distinct (map t_id (toasts s))
    \<and> (\<forall>t\<in>set (toasts s). (\<exists>d. t_timer t = Some d) \<or> (\<exists>d. (d, t_id t) \<in> set (dones s)))"
proof -
  have "toast_inv init_provider" by (simp add: toast_inv_def ids_ok_def init_provider_def)
  with assms have "toast_inv s" by (rule toast.reach_inv)
  then show ?thesis by (fastforce simp: toast_inv_def ids_ok_def)
qed

theorem toast_reach_inv_witness:
  "distinct (map t_id (toasts (showToast ''Saved'' success init_provider)))"
proof -
  have "toast_reach (toast_step init_provider (ShowToast ''Saved'' success))"
    by (rule ui_env [OF ui_start]) simp
  then show ?thesis using toast_reach_inv by fastforce
qed

section \<open>Passing time\<close>

text \<open>
  One millisecond with a browser that fires due timers at once: first the 3000 ms timers,
  then the 200 ms timers.
\<close>

definition due_timeouts :: "provider \<Rightarrow> nat list" where
  "due_timeouts s =
     map t_id (filter (\<lambda>t. case t_timer t of Some d \<Rightarrow> d \<le> clock s | None \<Rightarrow> False) (toasts s))"

definition due_dones :: "provider \<Rightarrow> (nat \<times> nat) list" where
  "due_dones s = filter (\<lambda>(d, i). d \<le> clock s) (dones s)"

definition ms :: "provider \<Rightarrow> provider" where
  "ms s =
     (let s1 = toast_step s Tick; s2 = fold timeout (due_timeouts s1) s1
      in fold (\<lambda>(d, i). onDone d i) (due_dones s2) s2)"

fun elapse :: "nat \<Rightarrow> provider \<Rightarrow> provider" where
  "elapse 0 s = s"
| "elapse (Suc n) s = elapse n (ms s)"

lemma elapse_add: "elapse (m + n) s = elapse n (elapse m s)"
  by (induction m arbitrary: s) auto

text \<open>Before any timer is due, time only moves the clock.\<close>

lemma elapse_quiet:
  assumes "\<forall>t\<in>set (toasts s). \<forall>d. t_timer t = Some d \<longrightarrow> clock s + n < d"
    and "\<forall>(d, i)\<in>set (dones s). clock s + n < d"
  shows "elapse n s = s\<lparr>clock := clock s + n\<rparr>"
  using assms
proof (induction n arbitrary: s)
  case 0
  then show ?case by simp
next
  case (Suc n)
  have "due_timeouts (s\<lparr>clock := clock s + 1\<rparr>) = []"
    using Suc.prems by (fastforce simp: due_timeouts_def filter_empty_conv split: option.splits)
  moreover have "due_dones (s\<lparr>clock := clock s + 1\<rparr>) = []"
    using Suc.prems by (fastforce simp: due_dones_def filter_empty_conv)
  ultimately have ms: "ms s = s\<lparr>clock := clock s + 1\<rparr>" by (simp add: ms_def Let_def)
  have "elapse n (s\<lparr>clock := clock s + 1\<rparr>) = (s\<lparr>clock := clock s + 1\<rparr>)\<lparr>clock := clock s + 1 + n\<rparr>"
    using Suc.prems Suc.IH [of "s\<lparr>clock := clock s + 1\<rparr>"] by simp
  with ms show ?case by simp
qed

text \<open>Toasts shown one after another, each after the given time since the one before.\<close>

fun show_run :: "(nat \<times> string \<times> ToastType) list \<Rightarrow> provider \<Rightarrow> provider" where
  "show_run [] s = s"
| "show_run ((gap, m, ty) # es) s = show_run es (showToast m ty (elapse gap s))"

definition fresh_timers :: "provider \<Rightarrow> bool" where
  "fresh_timers s \<longleftrightarrow> dones s = [] \<and> (\<forall>t\<in>set (toasts s). t_timer t = Some (clock s + 3000))"

lemma fresh_elapse: "fresh_timers s \<Longrightarrow> n < 3000 \<Longrightarrow> elapse n s = s\<lparr>clock := clock s + n\<rparr>"
  by (rule elapse_quiet) (auto simp: fresh_timers_def)

lemma fresh_showToast: "dones s = [] \<Longrightarrow> fresh_timers (showToast m ty s)"
  by (auto simp: fresh_timers_def showToast_def render_provider_def)

lemma show_run_keeps:
  assumes "fresh_timers s" "\<forall>(gap, m, ty)\<in>set es. gap < 3000"
  shows "map t_message (toasts (show_run es s)) = map t_message (toasts s) @ map (\<lambda>(gap, m, ty). m) es"
  using assms
proof (induction es arbitrary: s)
  case Nil
  then show ?case by simp
next
  case (Cons e es)
  obtain gap m ty where e: "e = (gap, m, ty)" by (metis prod_cases3)
  define s' where "s' = showToast m ty (elapse gap s)"
  have el: "elapse gap s = s\<lparr>clock := clock s + gap\<rparr>"
    using Cons.prems e by (intro fresh_elapse) auto
  then have "fresh_timers s'"
    using Cons.prems(1) by (auto simp: s'_def fresh_timers_def [of s] intro!: fresh_showToast)
  moreover have "map t_message (toasts s') = map t_message (toasts s) @ [m]"
    by (simp add: s'_def el showToast_def render_provider_def comp_def)
  ultimately show ?case using Cons e by (simp add: s'_def)
qed

text \<open>
  each new toast restarts the timers of all toasts on the screen.  However long the
  sequence, when no two toasts are 3000 ms apart, none of them is removed: the first one
  is still on the screen at the end.
\<close>

theorem toasts_never_expire_under_load:
  assumes "\<forall>(gap, m, ty)\<in>set es. gap < 3000"
  shows "map t_message (toasts (show_run es init_provider)) = map (\<lambda>(gap, m, ty). m) es"
proof -
  have "fresh_timers init_provider" by (simp add: fresh_timers_def init_provider_def)
  from show_run_keeps [OF this assms] show ?thesis by (simp add: init_provider_def)
qed

theorem toasts_never_expire_under_load_witness:
  "map t_message (toasts (show_run
     [(0, ''one'', success), (2500, ''two'', error), (2500, ''three'', success)] init_provider))
   = [''one'', ''two'', ''three'']"
  by (subst toasts_never_expire_under_load) simp_all

lemma toasts_fold_timeout:
  "toasts (fold timeout is s) =
     map (\<lambda>t. if t_id t \<in> set is then t\<lparr>t_visible := False, t_timer := None\<rparr> else t) (toasts s)
   \<and> dones (fold timeout is s) = dones s @ map (\<lambda>i. (clock s + 200, i)) is
   \<and> clock (fold timeout is s) = clock s"
  by (induction "is" arbitrary: s) (auto simp: timeout_def map_item_def)

lemma ids_fold_onDone:
  "t_id ` set (toasts (fold (\<lambda>(d, i). onDone d i) ds s)) = t_id ` set (toasts s) - snd ` set ds"
proof (induction ds arbitrary: s)
  case Nil
  then show ?case by simp
next
  case (Cons x ds)
  have "t_id ` set (toasts (onDone d i s)) = t_id ` set (toasts s) - {i}" for d i
    by (auto simp: onDone_def removeToast_def render_provider_def image_iff)
  with Cons show ?case by (cases x) auto
qed

text \<open>All timers have just fired: every toast is fading and its removal is pending.\<close>

definition faded :: "provider \<Rightarrow> bool" where
  "faded s \<longleftrightarrow> (\<forall>t\<in>set (toasts s). t_timer t = None)
     \<and> dones s = map (\<lambda>t. (clock s + 200, t_id t)) (toasts s)"

lemma fresh_fade:
  assumes "fresh_timers s"
  shows "faded (elapse 3000 s)"
proof -
  define s1 where "s1 = s\<lparr>clock := clock s + 3000\<rparr>"
  define s2 where "s2 = fold timeout (map t_id (toasts s)) s1"
  have "elapse (2999 + 1) s = ms (s\<lparr>clock := clock s + 2999\<rparr>)"
    unfolding elapse_add using assms by (simp add: fresh_elapse)
  moreover have "due_timeouts s1 = map t_id (toasts s)"
    using assms by (auto simp: due_timeouts_def s1_def fresh_timers_def
        intro!: arg_cong [where f = "map t_id"] filter_True)
  moreover have f: "toasts s2 = map (\<lambda>t. t\<lparr>t_visible := False, t_timer := None\<rparr>) (toasts s)"
    "dones s2 = map (\<lambda>t. (clock s2 + 200, t_id t)) (toasts s)" "clock s2 = clock s1"
    using toasts_fold_timeout [of "map t_id (toasts s)" s1] assms
    by (auto simp: s2_def s1_def fresh_timers_def)
  moreover have "due_dones s2 = []" using f by (auto simp: due_dones_def filter_empty_conv)
  ultimately have "elapse 3000 s = s2"
    by (simp add: ms_def Let_def s2_def) (simp add: s1_def add.commute)
  with f show ?thesis by (auto simp: faded_def)
qed

lemma faded_gone:
  assumes "faded s"
  shows "toasts (elapse 200 s) = []"
proof -
  define s1 where "s1 = s\<lparr>clock := clock s + 200\<rparr>"
  have "elapse (199 + 1) s = ms (s\<lparr>clock := clock s + 199\<rparr>)"
    unfolding elapse_add using assms by (subst elapse_quiet) (auto simp: faded_def)
  moreover have "due_timeouts s1 = []"
    using assms by (auto simp: due_timeouts_def filter_empty_conv s1_def faded_def)
  moreover have "due_dones s1 = dones s"
    using assms by (auto simp: due_dones_def s1_def faded_def intro!: filter_True)
  ultimately have "elapse 200 s = fold (\<lambda>(d, i). onDone d i) (dones s) s1"
    by (simp add: ms_def Let_def) (simp add: s1_def add.commute)
  moreover have "t_id ` set (toasts s1) \<subseteq> snd ` set (dones s)"
    using assms by (auto simp: s1_def faded_def image_iff)
  ultimately have "t_id ` set (toasts (elapse 200 s)) = {}"
    using ids_fold_onDone [of "dones s" s1] by simp
  then show ?thesis by simp
qed

text \<open>
  left alone, the screen clears: 3200 ms after the last render of the provider (3000 ms
  shown, 200 ms fading) every toast is gone.
\<close>

theorem toasts_expire:
  assumes "fresh_timers s"
  shows "toasts (elapse 3200 s) = []"
  using faded_gone [OF fresh_fade [OF assms]] elapse_add [of 3000 200 s] by simp

theorem toasts_expire_witness:
  "toasts (elapse 3200 (showToast ''Saved'' success init_provider)) = []"
  by (rule toasts_expire) (simp add: fresh_showToast init_provider_def)

end
