(* ===== verification/Tooltip.thy ===== *)
theory Tooltip
  imports Widgets Doubles
begin

text \<open>
  \<open>ui/src/components/HelpTooltip.tsx\<close>: the question mark that shows a text while the
  mouse is over it.  The rectangle of the icon and the size of the window belong to the
  browser's layout; a handler reads them when its event happens, a render when it runs.
  Coordinates are numbers, and a sum of two is rounded to a double.
\<close>

section \<open>State and handlers\<close>

record rect =
  rc_top :: rat
  rc_left :: rat
  rc_width :: rat
  rc_bottom :: rat

record window_size =
  innerHeight :: rat
  innerWidth :: rat

record tooltip =
  tt_show :: bool
  tt_pos :: "(rat \<times> rat) option"

definition init_tooltip :: tooltip where
  "init_tooltip = \<lparr>tt_show = False, tt_pos = None\<rparr>"

definition tooltipHeight :: rat where
  "tooltipHeight = 80"

definition updatePos :: "rect \<Rightarrow> tooltip \<Rightarrow> tooltip" where
  "updatePos r s =
     (let left = fl (rc_left r + js_div (rc_width r) 2)
      in if rc_top r < tooltipHeight then s\<lparr>tt_pos := Some (fl (rc_bottom r + 6), left)\<rparr>
         else s\<lparr>tt_pos := Some (fl (rc_top r - 6), left)\<rparr>)"

definition handleShow :: "rect \<Rightarrow> tooltip \<Rightarrow> tooltip" where
  "handleShow r s = (updatePos r s)\<lparr>tt_show := True\<rparr>"

datatype tooltip_event = Enter rect | Leave | Click rect | Outside_click

fun tooltip_step :: "tooltip \<Rightarrow> tooltip_event \<Rightarrow> tooltip" where
  "tooltip_step s (Enter r) = handleShow r s"
| "tooltip_step s Leave = s\<lparr>tt_show := False\<rparr>"
| "tooltip_step s (Click r) = (if tt_show s then s\<lparr>tt_show := False\<rparr> else handleShow r s)"
| "tooltip_step s Outside_click = s\<lparr>tt_show := False\<rparr>"

text \<open>The listener for presses outside is attached while the text is shown.\<close>

definition tooltip_env :: "tooltip \<Rightarrow> tooltip_event \<Rightarrow> bool" where
  "tooltip_env s e \<longleftrightarrow> e = Outside_click \<and> tt_show s"

section \<open>Placement\<close>

text \<open>The box is fixed by its upper edge or by the distance of its lower edge from the window's.\<close>

datatype css_vertical = CssTop rat | CssBottom rat

definition vertical :: "window_size \<Rightarrow> rect \<Rightarrow> rat \<Rightarrow> css_vertical" where
  "vertical w r pos_top =
     (if pos_top < rc_top r then CssTop pos_top else CssBottom (fl (innerHeight w - pos_top)))"

definition horizontal :: "window_size \<Rightarrow> rat \<Rightarrow> rat" where
  "horizontal w pos_left = min (max pos_left 170) (fl (innerWidth w - 170))"

definition box :: "window_size \<Rightarrow> rect \<Rightarrow> tooltip \<Rightarrow> (css_vertical \<times> rat) option" where
  "box w r s =
     (case tt_pos s of
        Some (t, l) \<Rightarrow> if tt_show s then Some (vertical w r t, horizontal w l) else None
      | None \<Rightarrow> None)"

definition HelpTooltip_view :: "window_size \<Rightarrow> rect \<Rightarrow> string \<Rightarrow> nat option \<Rightarrow> tooltip \<Rightarrow> tooltip_event node" where
  "HelpTooltip_view w r text sz s =
     El ''span'' [] False [OnMouse ''enter'' (Enter r), OnMouse ''leave'' Leave, OnClick (Click r)]
       (IconHelp (sized (case sz of Some n \<Rightarrow> n | None \<Rightarrow> 14)) # show_if (box w r s \<noteq> None) [tag ''span'' [Txt text]])"

text \<open>The rows of the window that a box of height \<open>h\<close> covers: its upper and lower edge.\<close>

primrec covers :: "window_size \<Rightarrow> rat \<Rightarrow> css_vertical \<Rightarrow> rat \<times> rat" where
  "covers w h (CssTop t) = (t, t + h)"
| "covers w h (CssBottom b) = (innerHeight w - b - h, innerHeight w - b)"

section \<open>Where the box is\<close>

text \<open>A layout on whole pixels, in which the sums of the code are exact.\<close>

definition pixel_rect :: "window_size \<Rightarrow> rect \<Rightarrow> bool" where
  "pixel_rect w r \<longleftrightarrow>
     (\<forall>x\<in>{rc_top r, rc_bottom r, innerHeight w}. x \<in> \<int> \<and> \<bar>x\<bar> \<le> 2 ^ 50) \<and> rc_top r \<le> rc_bottom r"

lemma fl_small_int: "x \<in> \<int> \<Longrightarrow> \<bar>x\<bar> \<le> 2 ^ 53 \<Longrightarrow> fl x = x"
proof -
  assume "x \<in> \<int>" "\<bar>x\<bar> \<le> 2 ^ 53"
  then obtain n where n: "x = of_int n" by (auto elim: Ints_cases)
  then have "\<bar>of_int n\<bar> \<le> (of_int (2 ^ 53) :: rat)" using \<open>\<bar>x\<bar> \<le> 2 ^ 53\<close> by simp
  then have "\<bar>n\<bar> \<le> 2 ^ 53" by linarith
  then show ?thesis using fl_of_int n by blast
qed

lemma pixel_sums:
  assumes "pixel_rect w r"
  shows "fl (rc_bottom r + 6) = rc_bottom r + 6" "fl (rc_top r - 6) = rc_top r - 6"
    "fl (innerHeight w - (rc_bottom r + 6)) = innerHeight w - (rc_bottom r + 6)"
proof -
  have z: "rc_top r \<in> \<int>" "rc_bottom r \<in> \<int>" "innerHeight w \<in> \<int>"
    and b: "\<bar>rc_top r\<bar> \<le> 2 ^ 50" "\<bar>rc_bottom r\<bar> \<le> 2 ^ 50" "\<bar>innerHeight w\<bar> \<le> 2 ^ 50"
    using assms by (auto simp: pixel_rect_def)
  show "fl (rc_bottom r + 6) = rc_bottom r + 6" using z b by (intro fl_small_int) auto
  show "fl (rc_top r - 6) = rc_top r - 6" using z b by (intro fl_small_int) auto
  show "fl (innerHeight w - (rc_bottom r + 6)) = innerHeight w - (rc_bottom r + 6)"
    using z b by (intro fl_small_int) auto
qed

text \<open>
  the placement is the opposite of what the handler's comment announces.  With room
  above the icon the box hangs down from six pixels above the icon, over it; without room
  above, its lower edge is six pixels below the icon and the box reaches upwards, over the
  icon and, when it is higher than the icon's lower edge plus six, out of the window.
\<close>

theorem tooltip_placement:
  assumes "pixel_rect w r"
  shows "\<exists>v x. box w r (tooltip_step s (Enter r)) = Some (v, x) \<and>
     covers w h v = (if 80 \<le> rc_top r then (rc_top r - 6, rc_top r - 6 + h)
                     else (rc_bottom r + 6 - h, rc_bottom r + 6))"
  using pixel_sums [OF assms] assms
  by (auto simp: handleShow_def updatePos_def Let_def box_def vertical_def tooltipHeight_def
      pixel_rect_def not_less)

theorem tooltip_placement_witness:
  "\<exists>v x. box \<lparr>innerHeight = 800, innerWidth = 1200\<rparr>
       \<lparr>rc_top = 40, rc_left = 10, rc_width = 14, rc_bottom = 54\<rparr>
       (tooltip_step init_tooltip (Enter \<lparr>rc_top = 40, rc_left = 10, rc_width = 14, rc_bottom = 54\<rparr>))
       = Some (v, x) \<and>
     covers \<lparr>innerHeight = 800, innerWidth = 1200\<rparr> 80 v = (- 20, 60)"
  using tooltip_placement [of "\<lparr>innerHeight = 800, innerWidth = 1200\<rparr>"
      "\<lparr>rc_top = 40, rc_left = 10, rc_width = 14, rc_bottom = 54\<rparr>" init_tooltip 80]
  by (simp add: pixel_rect_def)

section \<open>When the box is shown\<close>

text \<open>A tooltip that is shown has a position: the box and the flag agree.\<close>

definition tooltip_inv :: "tooltip \<Rightarrow> bool" where
  "tooltip_inv s \<longleftrightarrow> (tt_show s \<longrightarrow> tt_pos s \<noteq> None)"

interpretation tooltip: ui_component "HelpTooltip_view w r text sz" tooltip_step tooltip_env tooltip_inv
  by unfold_locales
     (auto simp: HelpTooltip_view_def tooltip_env_def tooltip_inv_def handleShow_def updatePos_def Let_def
      split: if_splits)

lemma tooltip_box_shown:
  assumes "ui_reach (HelpTooltip_view w r text sz) tooltip_step tooltip_env init_tooltip s"
  shows "box w' r' s \<noteq> None \<longleftrightarrow> tt_show s"
  using tooltip.reach_inv [OF assms]
  by (auto simp: tooltip_inv_def init_tooltip_def box_def split: option.splits)

end
