(* ===== verification/IconFrames.thy ===== *)
theory IconFrames
  imports Icons
begin

text \<open>
  What a browser draws of the icons: the corner points of basic shapes and the points that the
  segments of a path are made of, in thousandths of a unit, read from the attributes as SVG
  defines them.
\<close>

section \<open>Numbers of SVG attributes\<close>

type_synonym point = "int \<times> int"

definition skip_sep :: "string \<Rightarrow> string" where
  "skip_sep s = dropWhile (\<lambda>c. c = CHR '' '' \<or> c = CHR '','') s"

definition digit_value :: "char \<Rightarrow> int option" where
  "digit_value c = map_of (zip ''0123456789'' [0, 1, 2, 3, 4, 5, 6, 7, 8, 9]) c"

primrec take_digits :: "string \<Rightarrow> int list \<times> string" where
  "take_digits [] = ([], [])"
| "take_digits (c # s) =
     (case digit_value c of
        None \<Rightarrow> ([], c # s)
      | Some d \<Rightarrow> (case take_digits s of (ds, r) \<Rightarrow> (d # ds, r)))"

primrec decimal :: "int list \<Rightarrow> int \<Rightarrow> int" where
  "decimal [] n = n"
| "decimal (d # ds) n = decimal ds (10 * n + d)"

text \<open>A number with at most three decimals; a second point begins the next number.\<close>

definition take_fraction :: "string \<Rightarrow> int list \<times> string" where
  "take_fraction s = (case s of [] \<Rightarrow> ([], []) | c # r \<Rightarrow> if c = CHR ''.'' then take_digits r else ([], s))"

definition take_unsigned :: "string \<Rightarrow> (int \<times> string) option" where
  "take_unsigned s =
     (case take_digits s of (whole, r1) \<Rightarrow>
        (case take_fraction r1 of (fr, r2) \<Rightarrow>
           if whole = [] \<and> fr = [] \<or> 3 < length fr then None
           else Some (decimal (whole @ take 3 (fr @ [0, 0, 0])) 0, skip_sep r2)))"

definition take_num :: "string \<Rightarrow> (int \<times> string) option" where
  "take_num s =
     (case s of
        [] \<Rightarrow> None
      | c # r \<Rightarrow> if c = CHR ''-'' then map_option (\<lambda>(n, t). (- n, t)) (take_unsigned r) else take_unsigned s)"

fun take_nums :: "nat \<Rightarrow> string \<Rightarrow> (int list \<times> string) option" where
  "take_nums 0 s = Some ([], s)"
| "take_nums (Suc n) s =
     (case take_num s of
        None \<Rightarrow> None
      | Some (x, s1) \<Rightarrow> (case take_nums n s1 of None \<Rightarrow> None | Some (xs, s2) \<Rightarrow> Some (x # xs, s2)))"

text \<open>The two flags of an arc are single digits, with or without a space after them.\<close>

definition take_flag :: "string \<Rightarrow> string option" where
  "take_flag s = (case s of c # r \<Rightarrow> (if c = CHR ''0'' \<or> c = CHR ''1'' then Some (skip_sep r) else None) | [] \<Rightarrow> None)"

definition take_arc :: "string \<Rightarrow> (int list \<times> string) option" where
  "take_arc s =
     (case take_nums 3 s of
        None \<Rightarrow> None
      | Some (xs, s1) \<Rightarrow>
          (case take_flag s1 of
             None \<Rightarrow> None
           | Some s2 \<Rightarrow> (case take_flag s2 of None \<Rightarrow> None | Some s3 \<Rightarrow> take_nums 2 s3)))"

section \<open>Paths\<close>

fun moved :: "point \<Rightarrow> int list \<Rightarrow> point list" where
  "moved (dx, dy) (x # y # ns) = (dx + x, dy + y) # moved (dx, dy) ns"
| "moved d _ = []"

text \<open>The control points and the end of the segment that a command draws from the current point.\<close>

definition segment :: "char \<Rightarrow> point \<Rightarrow> string \<Rightarrow> (point list \<times> string) option" where
  "segment c cur s =
     (let rel = (if c \<in> set ''mlhvca'' then cur else (0, 0));
          points = map_option (\<lambda>(ns, r). (moved rel ns, r))
      in if c \<in> set ''MmLl'' then points (take_nums 2 s)
         else if c \<in> set ''Cc'' then points (take_nums 6 s)
         else if c \<in> set ''Aa'' then points (take_arc s)
         else if c \<in> set ''Hh'' then map_option (\<lambda>(x, r). ([(fst rel + x, snd cur)], r)) (take_num s)
         else if c \<in> set ''Vv'' then map_option (\<lambda>(y, r). ([(fst cur, snd rel + y)], r)) (take_num s)
         else None)"

text \<open>
  The points of a path.  Numbers without a command repeat the last one, a move is followed by lines.
  Every step consumes a character, so the length of the text bounds the steps.
\<close>

definition path_step :: "char \<times> point \<times> point \<times> string \<Rightarrow> (point list \<times> char \<times> point \<times> point \<times> string) option" where
  "path_step st =
     (case st of (c, start, cur, s) \<Rightarrow>
        (let d = hd s; letter = (d \<in> set ''MmLlHhVvCcAa'');
             c1 = (if letter then d else c)
         in if s = [] then None
            else if d \<in> set ''Zz'' then Some ([], d, start, start, skip_sep (tl s))
            else
              (case segment c1 cur (if letter then skip_sep (tl s) else s) of
                 None \<Rightarrow> None
               | Some (ps, r) \<Rightarrow>
                   Some (ps, if c1 = CHR ''M'' then CHR ''L'' else if c1 = CHR ''m'' then CHR ''l'' else c1,
                         if c1 \<in> set ''Mm'' then last ps else start, last ps, r))))"

primrec path_from :: "nat \<Rightarrow> char \<times> point \<times> point \<times> string \<Rightarrow> point list option" where
  "path_from 0 st = (if snd (snd (snd st)) = [] then Some [] else None)"
| "path_from (Suc n) st =
     (if snd (snd (snd st)) = [] then Some []
      else case path_step st of None \<Rightarrow> None | Some (ps, st1) \<Rightarrow> map_option (\<lambda>qs. ps @ qs) (path_from n st1))"

definition path_points :: "string \<Rightarrow> point list option" where
  "path_points s = path_from (length s) (CHR ''M'', (0, 0), (0, 0), s)"

section \<open>Shapes\<close>

fun take_pairs :: "nat \<Rightarrow> string \<Rightarrow> point list option" where
  "take_pairs 0 s = (if s = [] then Some [] else None)"
| "take_pairs (Suc n) s =
     (if s = [] then Some []
      else case take_nums 2 s of
             None \<Rightarrow> None
           | Some (ns, r) \<Rightarrow> map_option (\<lambda>qs. moved (0, 0) ns @ qs) (take_pairs n r))"

definition attr_num :: "attrs \<Rightarrow> string \<Rightarrow> int option" where
  "attr_num as k = Option.bind (map_of as k) (\<lambda>s. case take_num s of Some (n, []) \<Rightarrow> Some n | _ \<Rightarrow> None)"

definition attr_nums :: "attrs \<Rightarrow> string list \<Rightarrow> int list option" where
  "attr_nums as ks =
     (let ns = map (attr_num as) ks in if None \<in> set ns then None else Some (map the ns))"

definition shape_points :: "string \<Rightarrow> attrs \<Rightarrow> point list option" where
  "shape_points t as =
     (if t = ''rect'' then
        map_option (\<lambda>ns. [(ns ! 0, ns ! 1), (ns ! 0 + ns ! 2, ns ! 1 + ns ! 3)]) (attr_nums as [''x'', ''y'', ''width'', ''height''])
      else if t = ''circle'' then
        map_option (\<lambda>ns. [(ns ! 0 - ns ! 2, ns ! 1 - ns ! 2), (ns ! 0 + ns ! 2, ns ! 1 + ns ! 2)]) (attr_nums as [''cx'', ''cy'', ''r''])
      else if t = ''line'' then map_option (moved (0, 0)) (attr_nums as [''x1'', ''y1'', ''x2'', ''y2''])
      else if t = ''polyline'' \<or> t = ''polygon'' then Option.bind (map_of as ''points'') (\<lambda>s. take_pairs (length s) s)
      else if t = ''path'' then Option.bind (map_of as ''d'') path_points
      else None)"

text \<open>All points of an icon lie in its frame of 24 units, beyond which a browser draws nothing.\<close>

definition in_frame :: "point \<Rightarrow> bool" where
  "in_frame pt \<longleftrightarrow> 0 \<le> fst pt \<and> fst pt \<le> 24000 \<and> 0 \<le> snd pt \<and> snd pt \<le> 24000"

fun drawn_inside :: "'e node \<Rightarrow> bool" where
  "drawn_inside (El t as dis hs cs) \<longleftrightarrow>
     (if t = ''svg'' then list_all drawn_inside cs
      else (case shape_points t as of None \<Rightarrow> False | Some ps \<Rightarrow> list_all in_frame ps))"
| "drawn_inside (Txt s) \<longleftrightarrow> False"

lemma drawn_icon: "drawn_inside (svg_icon style n p shapes) = list_all drawn_inside shapes"
  by (simp add: svg_icon_def Let_def)

lemma IconDashboard_inside: "drawn_inside (IconDashboard p :: unit node)"
  unfolding IconDashboard_def drawn_icon by code_simp

lemma IconResult_inside: "drawn_inside (IconResult p :: unit node)"
  unfolding IconResult_def drawn_icon by code_simp

lemma IconSettings_inside: "drawn_inside (IconSettings p :: unit node)"
  unfolding IconSettings_def drawn_icon by code_simp

lemma IconPlay_inside: "drawn_inside (IconPlay p :: unit node)"
  unfolding IconPlay_def drawn_icon by code_simp

lemma IconPlus_inside: "drawn_inside (IconPlus p :: unit node)"
  unfolding IconPlus_def drawn_icon by code_simp

lemma IconTrash_inside: "drawn_inside (IconTrash p :: unit node)"
  unfolding IconTrash_def drawn_icon by code_simp

lemma IconChevron_inside: "drawn_inside (IconChevron p :: unit node)"
  unfolding IconChevron_def drawn_icon by code_simp

lemma IconBack_inside: "drawn_inside (IconBack p :: unit node)"
  unfolding IconBack_def drawn_icon by code_simp

lemma IconFilter_inside: "drawn_inside (IconFilter p :: unit node)"
  unfolding IconFilter_def drawn_icon by code_simp

lemma IconX_inside: "drawn_inside (IconX p :: unit node)"
  unfolding IconX_def drawn_icon by code_simp

lemma IconHelp_inside: "drawn_inside (IconHelp p :: unit node)"
  unfolding IconHelp_def drawn_icon by code_simp

lemma IconEdit_inside: "drawn_inside (IconEdit p :: unit node)"
  unfolding IconEdit_def drawn_icon by code_simp

lemma IconClock_inside: "drawn_inside (IconClock p :: unit node)"
  unfolding IconClock_def drawn_icon by code_simp

lemma IconPolicy_points:
  "shape_points ''path'' [(''d'', ''M12 2L3 7v6c0 5.55 3.84 10.74 9 12 5.16-1.26 9-6.45 9-12V7l-9-5z'')] =
     Some [(12000, 2000), (3000, 7000), (3000, 13000), (3000, 18550), (6840, 23740), (12000, 25000), (17160, 23740), (21000, 18550),
           (21000, 13000), (21000, 7000), (12000, 2000)]"
  by code_simp

text \<open>
  every icon but one is drawn within its frame, whatever its size: all corners, ends of
  segments and control points lie between 0 and 24.  The tip of the shield of \<open>IconPolicy\<close> lies
  at height 25, below the frame, and is cut off.
\<close>

theorem icons_in_frame:
  "list_all (drawn_inside :: unit node \<Rightarrow> bool)
     [IconDashboard p, IconResult p, IconSettings p, IconPlay p, IconPlus p, IconTrash p, IconChevron p, IconBack p, IconFilter p,
      IconX p, IconHelp p, IconEdit p, IconClock p]
   \<and> \<not> drawn_inside (IconPolicy p :: unit node)"
  by (simp add: IconDashboard_inside IconResult_inside IconSettings_inside IconPlay_inside IconPlus_inside IconTrash_inside
      IconChevron_inside IconBack_inside IconFilter_inside IconX_inside IconHelp_inside IconEdit_inside IconClock_inside)
    (simp add: IconPolicy_def drawn_icon IconPolicy_points in_frame_def)

end
