(* ===== verification/Resources.thy ===== *)
theory Resources
  imports Prelude "HOL-Library.Word"
begin

text \<open>
  \<open>operator/api/v1alpha1\<close>: the resources of the operator as Go types.  Where the client of the
  web interface has a type of the same name, the Go type carries the suffix \<open>V1\<close>.  Go's \<open>int32\<close>
  is a 32-bit word, a pointer that may be nil is an \<open>option\<close>, a string type with constants is
  a string, and a time is counted from Go's zero time.  Of the metadata and conditions, which
  are Kubernetes types, the fields are listed that the code reads or writes.
\<close>

text \<open>Small numbers survive the conversion to \<open>int32\<close>.\<close>

lemma sint_of_nat32: "n < 2 ^ 31 \<Longrightarrow> sint (of_nat n :: 32 word) = int n"
  by (simp add: sint_uint unsigned_of_nat take_bit_nat_eq_self signed_take_bit_eq_take_bit_shift take_bit_eq_mod)

section \<open>Policies\<close>

record SecretReference =
  sec_Name :: string
  sec_Key :: string

record LLMConfigV1 =
  llm_Provider :: string
  llm_Model :: string
  llm_SecretRef :: SecretReference

record CheckItemV1 =
  ci_ID :: string
  ci_Description :: string
  ci_Severity :: string

record ScheduleConfigV1 =
  sch_FullScan :: string
  sch_FailedRescan :: string

record SlackNotification =
  sl_Channel :: string
  sl_SecretRef :: SecretReference

record GitHubNotification =
  gh_Owner :: string
  gh_Repo :: string
  gh_Labels :: "string list"
  gh_SecretRef :: SecretReference

record JiraNotification =
  ji_URL :: string
  ji_Project :: string
  ji_IssueType :: string
  ji_SecretRef :: SecretReference

record NotificationConfig =
  nc_Slack :: "SlackNotification option"
  nc_GitHub :: "GitHubNotification option"
  nc_Jira :: "JiraNotification option"

record ChecklistPolicySpec =
  ps_Schedule :: ScheduleConfigV1
  ps_LLM :: LLMConfigV1
  ps_Checks :: "CheckItemV1 list"
  ps_TargetNamespaces :: "string list"
  ps_Notification :: "NotificationConfig option"
  ps_EscalationThreshold :: "32 word option"

record ScanSummary =
  sum_Total :: "32 word"
  sum_Pass :: "32 word"
  sum_Warn :: "32 word"
  sum_Fail :: "32 word"

record ConditionV1 =
  cond_Type :: string
  cond_Status :: string
  cond_Reason :: string
  cond_Message :: string
  cond_LastTransitionTime :: int

record ChecklistPolicyStatus =
  pst_LastFullScanTime :: "int option"
  pst_LastRescanTime :: "int option"
  pst_LastResultName :: string
  pst_Summary :: "ScanSummary option"
  pst_Conditions :: "ConditionV1 list"

record OwnerReference =
  or_APIVersion :: string
  or_Kind :: string
  or_Name :: string
  or_UID :: string

record ObjectMetaV1 =
  om_Name :: string
  om_Namespace :: string
  om_UID :: string
  om_Generation :: int
  om_Labels :: "(string \<times> string) list"
  om_Annotations :: "(string \<times> string) list"
  om_OwnerReferences :: "OwnerReference list"
  om_Finalizers :: "string list"
  om_DeletionTimestamp :: "int option"

record ChecklistPolicyV1 =
  cp_Meta :: ObjectMetaV1
  cp_Spec :: ChecklistPolicySpec
  cp_Status :: ChecklistPolicyStatus

abbreviation cp_Name :: "ChecklistPolicyV1 \<Rightarrow> string" where
  "cp_Name p \<equiv> om_Name (cp_Meta p)"

abbreviation cp_Namespace :: "ChecklistPolicyV1 \<Rightarrow> string" where
  "cp_Namespace p \<equiv> om_Namespace (cp_Meta p)"

section \<open>Results\<close>

definition VerdictPass :: string where
  "VerdictPass = ''PASS''"

definition VerdictWarn :: string where
  "VerdictWarn = ''WARN''"

definition VerdictFail :: string where
  "VerdictFail = ''FAIL''"

definition ScanTypeFull :: string where
  "ScanTypeFull = ''FullScan''"

definition ScanTypeRescan :: string where
  "ScanTypeRescan = ''Rescan''"

lemma verdicts_distinct [simp]:
  "VerdictPass \<noteq> VerdictWarn" "VerdictPass \<noteq> VerdictFail" "VerdictWarn \<noteq> VerdictFail"
  "VerdictWarn \<noteq> VerdictPass" "VerdictFail \<noteq> VerdictPass" "VerdictFail \<noteq> VerdictWarn"
  by (simp_all add: VerdictPass_def VerdictWarn_def VerdictFail_def)

lemma scan_types_distinct [simp]: "ScanTypeFull \<noteq> ScanTypeRescan" "ScanTypeRescan \<noteq> ScanTypeFull"
  by (simp_all add: ScanTypeFull_def ScanTypeRescan_def)

record ToolCallRecordV1 =
  tcr_ToolName :: string
  tcr_Input :: string
  tcr_Output :: string

record CheckResultV1 =
  cres_ID :: string
  cres_Description :: string
  cres_Verdict :: string
  cres_Reasoning :: string
  cres_Evidence :: "ToolCallRecordV1 list option"
  cres_FailedSince :: "int option"
  cres_Severity :: string

record ChecklistResultSpec =
  rs_PolicyRef :: string
  rs_ScanType :: string
  rs_StartedAt :: int
  rs_CompletedAt :: "int option"
  rs_Checks :: "CheckResultV1 list"
  rs_Summary :: "ScanSummary option"

record ChecklistResultV1 =
  cr_Meta :: ObjectMetaV1
  cr_Spec :: ChecklistResultSpec
  cr_Phase :: string

section \<open>Answers of the Kubernetes API\<close>

text \<open>Errors carry their text; the code tells only those apart that say an object is missing.\<close>

datatype k8s_error = NotFound string | Failure string

primrec error_text :: "k8s_error \<Rightarrow> string" where
  "error_text (NotFound e) = e"
| "error_text (Failure e) = e"

text \<open>Namespace and name.\<close>

type_synonym object_key = "string \<times> string"

section \<open>Defaults of the resource definition\<close>

text \<open>
  What the API server stores of a specification: the defaults of the resource definition are set
  where a field is missing.  They concern the keys of secrets, the type of issues, the severity of
  checks and the escalation threshold.
\<close>

definition default_str :: "string \<Rightarrow> string \<Rightarrow> string" where
  "default_str d s = (if s = [] then d else s)"

definition default_secret :: "SecretReference \<Rightarrow> SecretReference" where
  "default_secret r = r\<lparr>sec_Key := default_str ''api-key'' (sec_Key r)\<rparr>"

definition default_jira :: "JiraNotification \<Rightarrow> JiraNotification" where
  "default_jira j = j\<lparr>ji_SecretRef := default_secret (ji_SecretRef j), ji_IssueType := default_str ''Bug'' (ji_IssueType j)\<rparr>"

definition default_notification :: "NotificationConfig \<Rightarrow> NotificationConfig" where
  "default_notification n =
     n\<lparr>nc_Slack := map_option (\<lambda>s. s\<lparr>sl_SecretRef := default_secret (sl_SecretRef s)\<rparr>) (nc_Slack n),
       nc_GitHub := map_option (\<lambda>g. g\<lparr>gh_SecretRef := default_secret (gh_SecretRef g)\<rparr>) (nc_GitHub n),
       nc_Jira := map_option default_jira (nc_Jira n)\<rparr>"

definition default_check :: "CheckItemV1 \<Rightarrow> CheckItemV1" where
  "default_check c = c\<lparr>ci_Severity := default_str ''warning'' (ci_Severity c)\<rparr>"

definition crd_defaults :: "ChecklistPolicySpec \<Rightarrow> ChecklistPolicySpec" where
  "crd_defaults s =
     s\<lparr>ps_LLM := (ps_LLM s)\<lparr>llm_SecretRef := default_secret (llm_SecretRef (ps_LLM s))\<rparr>,
       ps_Checks := map default_check (ps_Checks s),
       ps_Notification := map_option default_notification (ps_Notification s),
       ps_EscalationThreshold := Some (case ps_EscalationThreshold s of None \<Rightarrow> 5 | Some n \<Rightarrow> n)\<rparr>"

end
