(* ===== verification/AlertStore.thy ===== *)
theory AlertStore
  imports Resources "HOL-Library.AList" "HOL-Library.Multiset"
begin

text \<open>
  \<open>operator/internal/state/store.go\<close>: the alert state of every check of every policy.  The
  maps of the store are association lists with distinct keys; the pointer to a \<open>CheckState\<close>
  that the methods update in place is a read and a write of the entry.  Every method holds the
  lock of the store while it runs, so concurrent scans are sequences of whole calls.  The
  clock is an argument; times are counted from Go's zero time.  A loop over a Go map runs in
  no fixed order: the order is the parameter \<open>it\<close> of \<open>FailedChecks\<close>.
\<close>

section \<open>The state of a check\<close>

datatype AlertState = StateUnknown | StateFiring | StateResolved | StateEscalated

record CheckState =
  State :: AlertState
  FailedSince :: int
  RetryCount :: "32 word"
  LastUpdated :: int

record Transition =
  tr_CheckID :: string
  tr_PolicyRef :: string
  tr_From :: AlertState
  tr_To :: AlertState
  tr_State :: CheckState

record Store =
  st_checks :: "(string \<times> (string \<times> CheckState) list) list"
  st_threshold :: "32 word"

definition NewStore :: "32 word \<Rightarrow> Store" where
  "NewStore threshold =
     \<lparr>st_checks = [], st_threshold = (if sint threshold \<le> 0 then 5 else threshold)\<rparr>"

definition new_check :: CheckState where
  "new_check = \<lparr>State = StateUnknown, FailedSince = 0, RetryCount = 0, LastUpdated = 0\<rparr>"

definition policy_checks :: "Store \<Rightarrow> string \<Rightarrow> (string \<times> CheckState) list" where
  "policy_checks s p = (case map_of (st_checks s) p of None \<Rightarrow> [] | Some m \<Rightarrow> m)"

definition write_check :: "string \<Rightarrow> string \<Rightarrow> CheckState \<Rightarrow> Store \<Rightarrow> Store" where
  "write_check p c cs s =
     s\<lparr>st_checks := AList.update p (AList.update c cs (policy_checks s p)) (st_checks s)\<rparr>"

definition GetState :: "Store \<Rightarrow> string \<Rightarrow> string \<Rightarrow> CheckState option" where
  "GetState s p c = (case map_of (st_checks s) p of None \<Rightarrow> None | Some m \<Rightarrow> map_of m c)"

definition getOrCreate :: "string \<Rightarrow> string \<Rightarrow> Store \<Rightarrow> Store \<times> CheckState" where
  "getOrCreate p c s =
     (case GetState s p c of
        None \<Rightarrow> (write_check p c new_check s, new_check)
      | Some cs \<Rightarrow> (s, cs))"

section \<open>Recording verdicts\<close>

definition fail_switch :: "32 word \<Rightarrow> string \<Rightarrow> string \<Rightarrow> int \<Rightarrow> CheckState \<Rightarrow> CheckState \<times> Transition option" where
  "fail_switch threshold p c now cs =
     (let transition = (\<lambda>to cs'. Some \<lparr>tr_CheckID = c, tr_PolicyRef = p, tr_From = State cs, tr_To = to, tr_State = cs'\<rparr>)
      in case State cs of
        StateFiring \<Rightarrow>
          (let cs1 = cs\<lparr>RetryCount := RetryCount cs + 1, LastUpdated := now\<rparr>
           in if sint threshold \<le> sint (RetryCount cs1)
              then let cs2 = cs1\<lparr>State := StateEscalated\<rparr> in (cs2, transition StateEscalated cs2)
              else (cs1, None))
      | StateEscalated \<Rightarrow> (cs\<lparr>RetryCount := RetryCount cs + 1, LastUpdated := now\<rparr>, None)
      | _ \<Rightarrow>
          (let cs1 = cs\<lparr>State := StateFiring, FailedSince := now, RetryCount := 0, LastUpdated := now\<rparr>
           in (cs1, transition StateFiring cs1)))"

definition RecordFail :: "int \<Rightarrow> string \<Rightarrow> string \<Rightarrow> Store \<Rightarrow> Store \<times> Transition option" where
  "RecordFail now p c s =
     (let (s1, cs) = getOrCreate p c s;
          (cs1, tr) = fail_switch (st_threshold s1) p c now cs
      in (write_check p c cs1 s1, tr))"

definition pass_switch :: "string \<Rightarrow> string \<Rightarrow> int \<Rightarrow> CheckState \<Rightarrow> CheckState \<times> Transition option" where
  "pass_switch p c now cs =
     (if State cs = StateFiring \<or> State cs = StateEscalated
      then let cs1 = cs\<lparr>State := StateResolved, RetryCount := 0, LastUpdated := now\<rparr>
           in (cs1, Some \<lparr>tr_CheckID = c, tr_PolicyRef = p, tr_From = State cs, tr_To = StateResolved, tr_State = cs1\<rparr>)
      else (cs, None))"

definition RecordPass :: "int \<Rightarrow> string \<Rightarrow> string \<Rightarrow> Store \<Rightarrow> Store \<times> Transition option" where
  "RecordPass now p c s =
     (let (s1, cs) = getOrCreate p c s; (cs1, tr) = pass_switch p c now cs
      in (write_check p c cs1 s1, tr))"

definition failing :: "CheckState \<Rightarrow> bool" where
  "failing cs \<longleftrightarrow> State cs = StateFiring \<or> State cs = StateEscalated"

definition FailedChecks ::
  "((string \<times> CheckState) list \<Rightarrow> (string \<times> CheckState) list) \<Rightarrow> Store \<Rightarrow> string \<Rightarrow> string list" where
  "FailedChecks it s p =
     (case map_of (st_checks s) p of
        None \<Rightarrow> []
      | Some m \<Rightarrow> map fst (filter (\<lambda>(i, cs). failing cs) (it m)))"

definition RestoreFromFailedSince :: "int \<Rightarrow> string \<Rightarrow> string \<Rightarrow> int \<Rightarrow> Store \<Rightarrow> Store" where
  "RestoreFromFailedSince now p c failedSince s =
     (let (s1, cs) = getOrCreate p c s
      in write_check p c (cs\<lparr>State := StateFiring, FailedSince := failedSince, LastUpdated := now\<rparr>) s1)"

section \<open>The store as a table\<close>

lemma GetState_write [simp]:
  "GetState (write_check p c cs s) p' c' = (if p' = p \<and> c' = c then Some cs else GetState s p' c')"
  by (auto simp: GetState_def write_check_def policy_checks_def update_conv' split: option.splits)

lemma threshold_write [simp]: "st_threshold (write_check p c cs s) = st_threshold s"
  by (simp add: write_check_def)

lemma GetState_new [simp]: "GetState (NewStore n) p c = None"
  by (simp add: GetState_def NewStore_def)

lemma getOrCreate_simps [simp]:
  "snd (getOrCreate p c s) = (case GetState s p c of None \<Rightarrow> new_check | Some cs \<Rightarrow> cs)"
  "st_threshold (fst (getOrCreate p c s)) = st_threshold s"
  "GetState (fst (getOrCreate p c s)) p' c' =
     (if p' = p \<and> c' = c then Some (snd (getOrCreate p c s)) else GetState s p' c')"
  by (auto simp: getOrCreate_def split: option.splits)

text \<open>The verdicts that reach the store, with the time of their recording.\<close>

datatype alert_event = Failed int | Passed int

primrec event_time :: "alert_event \<Rightarrow> int" where
  "event_time (Failed t) = t"
| "event_time (Passed t) = t"

primrec is_Failed :: "alert_event \<Rightarrow> bool" where
  "is_Failed (Failed t) = True"
| "is_Failed (Passed t) = False"

definition record_event :: "string \<times> string \<Rightarrow> alert_event \<Rightarrow> Store \<Rightarrow> Store \<times> Transition option" where
  "record_event k e s =
     (case e of Failed t \<Rightarrow> RecordFail t (fst k) (snd k) s | Passed t \<Rightarrow> RecordPass t (fst k) (snd k) s)"

definition alert_step ::
  "32 word \<Rightarrow> string \<times> string \<Rightarrow> alert_event \<Rightarrow> CheckState option \<Rightarrow> CheckState option \<times> Transition option" where
  "alert_step th k e v =
     (let cs = (case v of None \<Rightarrow> new_check | Some cs \<Rightarrow> cs);
          (cs1, tr) = (case e of Failed t \<Rightarrow> fail_switch th (fst k) (snd k) t cs | Passed t \<Rightarrow> pass_switch (fst k) (snd k) t cs)
      in (Some cs1, tr))"

lemma fst_alert_step: "Some (the (fst (alert_step th k e v))) = fst (alert_step th k e v)"
  by (simp add: alert_step_def case_prod_beta Let_def)

lemma record_event_eq:
  "fst (record_event k e s) =
     write_check (fst k) (snd k) (the (fst (alert_step (st_threshold s) k e (GetState s (fst k) (snd k)))))
       (fst (getOrCreate (fst k) (snd k) s))"
  "snd (record_event k e s) = snd (alert_step (st_threshold s) k e (GetState s (fst k) (snd k)))"
  by (simp_all add: record_event_def alert_step_def RecordFail_def RecordPass_def case_prod_beta Let_def
      split: alert_event.split)

interpretation alerts: keyed_table "\<lambda>s k. GetState s (fst k) (snd k)" record_event "alert_step th" "\<lambda>s. st_threshold s = th"
  for th
proof
  fix s :: Store and k k' :: "string \<times> string" and e
  assume th: "st_threshold s = th"
  show "st_threshold (fst (record_event k e s)) = th" by (simp add: record_event_eq th)
  show "GetState (fst (record_event k e s)) (fst k) (snd k) =
      fst (alert_step th k e (GetState s (fst k) (snd k)))"
    by (simp add: record_event_eq th fst_alert_step)
  show "snd (record_event k e s) = snd (alert_step th k e (GetState s (fst k) (snd k)))"
    by (simp add: record_event_eq th)
  assume "k' \<noteq> k"
  then show "GetState (fst (record_event k e s)) (fst k') (snd k') = GetState s (fst k') (snd k')"
    by (auto simp: record_event_eq prod_eq_iff)
qed

section \<open>What the state of a check means\<close>

text \<open>
  The specification reads the history of one check, latest verdict first: the passes since
  the last failure, and before them the last unbroken series of failures.
\<close>

definition recent_passes :: "alert_event list \<Rightarrow> alert_event list" where
  "recent_passes h = takeWhile (\<lambda>e. \<not> is_Failed e) (rev h)"

definition last_failures :: "alert_event list \<Rightarrow> alert_event list" where
  "last_failures h = takeWhile is_Failed (dropWhile (\<lambda>e. \<not> is_Failed e) (rev h))"

definition alert_spec :: "32 word \<Rightarrow> alert_event list \<Rightarrow> CheckState" where
  "alert_spec th h =
     (let passes = recent_passes h; fails = last_failures h; retries = length fails - 1
      in if fails = [] then new_check
         else if passes = []
         then \<lparr>State = (if sint th \<le> int retries then StateEscalated else StateFiring),
               FailedSince = event_time (last fails), RetryCount = of_nat retries, LastUpdated = event_time (hd fails)\<rparr>
         else \<lparr>State = StateResolved, FailedSince = event_time (last fails), RetryCount = 0,
               LastUpdated = event_time (last passes)\<rparr>)"

lemma history_simps [simp]:
  "recent_passes [] = []" "last_failures [] = []"
  "recent_passes (h @ [Failed t]) = []"
  "recent_passes (h @ [Passed t]) = Passed t # recent_passes h"
  "last_failures (h @ [Passed t]) = last_failures h"
  by (simp_all add: recent_passes_def last_failures_def)

lemma last_failures_Failed [simp]:
  "last_failures (h @ [Failed t]) = Failed t # (if recent_passes h = [] then last_failures h else [])"
  by (cases "rev h") (auto simp: recent_passes_def last_failures_def)

lemma sint_of_nat_small:
  assumes "int n \<le> sint (th :: 32 word)"
  shows "sint (of_nat n :: 32 word) = int n"
proof -
  have "sint th < 2 ^ 31" using sint_lt [of th] by simp
  then have "int n < 2 ^ 31" using assms by linarith
  then have "n < 2 ^ 31" by simp
  then show ?thesis by (rule sint_of_nat32)
qed

text \<open>
  The step of one check computes the specification of the longer history.  The number of
  retries of a firing check stays below the threshold, so that the comparison never sees a
  count that has wrapped around; that of an escalated check may wrap, as \<open>of_nat\<close> does.
\<close>

lemma alert_step_spec:
  assumes "0 < sint th" and v: "v = (if h = [] then None else Some (alert_spec th h))"
  shows "fst (alert_step th k e v) = Some (alert_spec th (h @ [e]))"
proof -
  have cs: "(case v of None \<Rightarrow> new_check | Some cs \<Rightarrow> cs) = alert_spec th h"
    by (simp add: v alert_spec_def)
  show ?thesis
  proof (cases e)
    case (Passed t)
    then show ?thesis
      by (simp add: alert_step_def cs pass_switch_def) (auto simp: alert_spec_def Let_def new_check_def)
  next
    case (Failed t)
    have "sint (of_nat (length (last_failures h) - 1) + 1 :: 32 word) = int (length (last_failures h))"
      if "last_failures h \<noteq> []" "int (length (last_failures h) - 1) < sint th"
    proof -
      have "(of_nat (length (last_failures h) - 1) + 1 :: 32 word) = of_nat (length (last_failures h))"
        using that(1) by (cases "last_failures h") simp_all
      moreover have "int (length (last_failures h)) \<le> sint th" using that by (cases "last_failures h") simp_all
      ultimately show ?thesis by (simp add: sint_of_nat_small)
    qed
    then show ?thesis using assms(1)
      by (cases "last_failures h")
        (auto simp: Failed alert_step_def cs fail_switch_def alert_spec_def Let_def new_check_def not_le)
  qed
qed

lemma run_alert_spec:
  assumes "0 < sint th" and "v = (if h = [] then None else Some (alert_spec th h))"
  shows "fst (run_local (alert_step th k) es v) =
    (if h @ es = [] then None else Some (alert_spec th (h @ es)))"
  using assms(2)
proof (induction es arbitrary: h v)
  case (Cons e es)
  have "fst (alert_step th k e v) = (if h @ [e] = [] then None else Some (alert_spec th (h @ [e])))"
    using alert_step_spec [OF assms(1) Cons.prems] by simp
  from Cons.IH [OF this] show ?case by (simp add: run_local_step del: run_local.simps(2))
qed simp

definition effective_threshold :: "32 word \<Rightarrow> 32 word" where
  "effective_threshold n = (if sint n \<le> 0 then 5 else n)"

lemma threshold_new [simp]: "st_threshold (NewStore n) = effective_threshold n"
  by (simp add: NewStore_def effective_threshold_def)

lemma threshold_positive [simp]: "0 < sint (effective_threshold n)"
  by (simp add: effective_threshold_def)

lemma get_after_run:
  "GetState (fst (run_keyed record_event es (NewStore n))) p c =
     (let h = of_key (p, c) es in if h = [] then None else Some (alert_spec (effective_threshold n) h))"
  using alerts.run_is_local [of "NewStore n" "effective_threshold n" es "(p, c)"]
  by (simp add: run_alert_spec [where h = "[]"] Let_def)

text \<open>
  whatever the interleaving of the scans, the store knows of every check exactly what the
  specification reads from the verdicts of that check alone: when it failed first in its last
  series of failures, how often it was retried (as a 32-bit count), and whether it is firing,
  escalated or resolved.
\<close>

theorem store_refines_history:
  "GetState (fst (run_keyed record_event es (NewStore n))) p c =
     (let h = of_key (p, c) es in if h = [] then None else Some (alert_spec (effective_threshold n) h))"
  by (rule get_after_run)

text \<open>The checks that a rescan looks at.\<close>

lemma FailedChecks_GetState:
  assumes "mset (it m) = mset m" "distinct (map fst m)" "map_of (st_checks s) p = Some m"
  shows "c \<in> set (FailedChecks it s p) \<longleftrightarrow> (\<exists>cs. GetState s p c = Some cs \<and> failing cs)"
    and "distinct (FailedChecks it s p)"
proof -
  have st: "set (it m) = set m" using assms(1) by (metis set_mset_mset)
  have "distinct (map fst (it m))"
    using assms(1,2) by (metis distinct_count_atmost_1 mset_map set_map st)
  then show "distinct (FailedChecks it s p)"
    by (simp add: FailedChecks_def assms(3) distinct_map_filter)
  show "c \<in> set (FailedChecks it s p) \<longleftrightarrow> (\<exists>cs. GetState s p c = Some cs \<and> failing cs)"
    using assms(2) st by (auto simp: FailedChecks_def GetState_def assms(3) image_iff)
qed

text \<open>The maps of the store have distinct keys, at both levels.\<close>

definition store_ok :: "Store \<Rightarrow> bool" where
  "store_ok s \<longleftrightarrow> distinct (map fst (st_checks s)) \<and> list_all (\<lambda>(p, m). distinct (map fst m)) (st_checks s)"

lemma policy_checks_distinct: "store_ok s \<Longrightarrow> distinct (map fst (policy_checks s p))"
  by (auto simp: store_ok_def policy_checks_def list_all_iff split: option.split dest!: map_of_SomeD)

lemma in_update: "x \<in> set (AList.update k v al) \<Longrightarrow> x = (k, v) \<or> x \<in> set al"
  by (induction al) (auto split: if_splits)

lemma store_ok_write [simp]: "store_ok s \<Longrightarrow> store_ok (write_check p c cs s)"
  using policy_checks_distinct [of s p]
  by (auto simp: store_ok_def write_check_def list_all_iff distinct_update dest: in_update)

lemma store_ok_getOrCreate [simp]: "store_ok s \<Longrightarrow> store_ok (fst (getOrCreate p c s))"
  by (simp add: getOrCreate_def split: option.split)

lemma store_ok_record [simp]: "store_ok s \<Longrightarrow> store_ok (fst (record_event k e s))"
  by (simp add: record_event_eq)

lemma store_ok_run: "store_ok s \<Longrightarrow> store_ok (fst (run_keyed record_event es s))"
  by (induction es arbitrary: s) (auto simp: run_keyed_step simp del: run_keyed.simps(2))

lemma store_ok_new [simp]: "store_ok (NewStore n)"
  by (simp add: store_ok_def NewStore_def)

lemma FailedChecks_spec:
  assumes "\<And>m. mset (it m) = mset m" and "store_ok s"
  shows "distinct (FailedChecks it s p) \<and>
    set (FailedChecks it s p) = {c. \<exists>cs. GetState s p c = Some cs \<and> failing cs}"
proof (cases "map_of (st_checks s) p")
  case None
  then show ?thesis by (simp add: FailedChecks_def GetState_def)
next
  case (Some m)
  have "distinct (map fst m)" using policy_checks_distinct [OF assms(2), of p] Some by (simp add: policy_checks_def)
  from FailedChecks_GetState [where it = it, OF assms(1) [of m] this Some] show ?thesis by auto
qed

lemma failing_spec: "failing (alert_spec th h) \<longleftrightarrow> last_failures h \<noteq> [] \<and> recent_passes h = []"
  by (auto simp: failing_def alert_spec_def new_check_def Let_def)

lemma failing_now:
  "h \<noteq> [] \<Longrightarrow> failing (alert_spec th h) \<longleftrightarrow> is_Failed (last h)"
  by (cases h rule: rev_cases; cases "last h") (auto simp: failing_spec)

text \<open>
  the checks a rescan is asked to look at are those whose latest verdict was a failure,
  each once, in whatever order the maps are traversed.
\<close>

theorem failed_checks_are_failing:
  assumes "\<And>m. mset (it m) = mset m"
  shows "distinct (FailedChecks it (fst (run_keyed record_event es (NewStore n))) p) \<and>
    set (FailedChecks it (fst (run_keyed record_event es (NewStore n))) p) =
      {c. of_key (p, c) es \<noteq> [] \<and> is_Failed (last (of_key (p, c) es))}"
proof -
  let ?s = "fst (run_keyed record_event es (NewStore n))"
  have "(\<exists>cs. GetState ?s p c = Some cs \<and> failing cs) \<longleftrightarrow> of_key (p, c) es \<noteq> [] \<and> is_Failed (last (of_key (p, c) es))" for c
    by (simp add: get_after_run failing_now Let_def)
  then show ?thesis using FailedChecks_spec [OF assms store_ok_run [OF store_ok_new], of es n p] by simp
qed

theorem failed_checks_are_failing_witness:
  "set (FailedChecks rev (fst (run_keyed record_event
     [((''p'', ''a''), Failed 1), ((''p'', ''b''), Failed 2), ((''p'', ''a''), Passed 3)] (NewStore 5))) ''p'') = {''b''}"
proof -
  have "\<And>m. mset (rev m) = mset m" by simp
  from failed_checks_are_failing [of rev, OF this,
      of "[((''p'', ''a''), Failed 1), ((''p'', ''b''), Failed 2), ((''p'', ''a''), Passed 3)]" 5 "''p''"]
  show ?thesis by auto
qed

section \<open>Notifications\<close>

text \<open>The edges of the alert machine, and the paths made of them.\<close>

inductive alert_edge :: "AlertState \<Rightarrow> AlertState \<Rightarrow> bool" where
  opens: "alert_edge StateUnknown StateFiring"
| reopens: "alert_edge StateResolved StateFiring"
| escalates: "alert_edge StateFiring StateEscalated"
| resolves: "alert_edge StateFiring StateResolved"
| resolves_escalated: "alert_edge StateEscalated StateResolved"

inductive_simps alert_edge_from [simp]:
  "alert_edge StateUnknown y" "alert_edge StateFiring y" "alert_edge StateResolved y" "alert_edge StateEscalated y"

fun alert_path :: "AlertState \<Rightarrow> Transition list \<Rightarrow> AlertState \<Rightarrow> bool" where
  "alert_path x [] y \<longleftrightarrow> x = y"
| "alert_path x (t # ts) y \<longleftrightarrow> tr_From t = x \<and> alert_edge x (tr_To t) \<and> State (tr_State t) = tr_To t \<and> alert_path (tr_To t) ts y"

definition state_of :: "CheckState option \<Rightarrow> AlertState" where
  "state_of v = (case v of None \<Rightarrow> StateUnknown | Some cs \<Rightarrow> State cs)"

lemma alert_step_path:
  "alert_path (state_of v) (case snd (alert_step th k e v) of None \<Rightarrow> [] | Some t \<Rightarrow> [t])
     (state_of (fst (alert_step th k e v)))"
  by (cases "state_of v")
    (auto simp: alert_step_def fail_switch_def pass_switch_def state_of_def new_check_def Let_def
      split: alert_event.splits option.splits AlertState.splits)

lemma alert_path_append: "alert_path x ts y \<Longrightarrow> alert_path y us z \<Longrightarrow> alert_path x (ts @ us) z"
  by (induction x ts y rule: alert_path.induct) auto

lemma run_alert_path:
  "alert_path (state_of v) (snd (run_local (alert_step th k) es v)) (state_of (fst (run_local (alert_step th k) es v)))"
proof (induction es arbitrary: v)
  case (Cons e es)
  show ?case
    using alert_path_append [OF alert_step_path [of v th k e] Cons.IH [of "fst (alert_step th k e v)"]]
    by (simp add: run_local_step del: run_local.simps(2))
qed simp

text \<open>
  C3: the transitions reported for a check, the only occasions on which anybody is notified, form
  one path of the alert machine from \<open>UNKNOWN\<close> to the present state: no alert is opened
  twice without being resolved in between, none is resolved without having been opened, and
  escalation is reported at most once for each alert.
\<close>

theorem transitions_form_path:
  "alert_path StateUnknown (of_key (p, c) (snd (run_keyed record_event es (NewStore n))))
     (state_of (GetState (fst (run_keyed record_event es (NewStore n))) p c))"
  using alerts.run_is_local [of "NewStore n" "effective_threshold n" es "(p, c)"]
    run_alert_path [of None "effective_threshold n" "(p, c)" "of_key (p, c) es"]
  by (simp add: state_of_def)

text \<open>The transitions of a check that only fails.\<close>

definition failures :: "string \<times> string \<Rightarrow> nat \<Rightarrow> ((string \<times> string) \<times> alert_event) list" where
  "failures k m = map (\<lambda>i. (k, Failed (int i))) [0..<m]"

definition alert_log :: "32 word \<Rightarrow> ((string \<times> string) \<times> alert_event) list \<Rightarrow> string \<times> string \<Rightarrow> AlertState list" where
  "alert_log n es k = map tr_To (of_key k (snd (run_keyed record_event es (NewStore n))))"

lemma of_key_failures: "of_key k (failures k m) = map (\<lambda>i. Failed (int i)) [0..<m]"
  by (induction m) (simp_all add: failures_def)

lemma history_failures:
  "recent_passes (map (\<lambda>i. Failed (int i)) [0..<m]) = []"
  "length (last_failures (map (\<lambda>i. Failed (int i)) [0..<m])) = m"
  by (induction m) simp_all

lemma state_failures:
  "State (alert_spec th (map (\<lambda>i. Failed (int i)) [0..<m])) =
     (if m = 0 then StateUnknown else if sint th \<le> int (m - 1) then StateEscalated else StateFiring)"
  using history_failures(2) [of m]
  by (auto simp: alert_spec_def history_failures(1) new_check_def Let_def)

lemma snd_alert_step:
  "map tr_To (case snd (alert_step th k e v) of None \<Rightarrow> [] | Some t \<Rightarrow> [t]) =
     (if state_of (fst (alert_step th k e v)) = state_of v then [] else [state_of (fst (alert_step th k e v))])"
  by (cases "state_of v")
    (auto simp: alert_step_def fail_switch_def pass_switch_def state_of_def new_check_def Let_def
      split: alert_event.splits option.splits AlertState.splits)

lemma run_failures:
  assumes th: "0 < sint th"
  shows "map tr_To (snd (run_local (alert_step th k) (map (\<lambda>i. Failed (int i)) [0..<m]) None)) =
    (if m = 0 then [] else if int m \<le> sint th then [StateFiring] else [StateFiring, StateEscalated])"
proof (induction m)
  case (Suc m)
  let ?h = "\<lambda>m. map (\<lambda>i. Failed (int i)) [0..<m]"
  let ?v = "fst (run_local (alert_step th k) (?h m) None)"
  have v: "?v = (if ?h m = [] then None else Some (alert_spec th (?h m)))"
    using run_alert_spec [OF th, of None "[]" k "?h m"] by simp
  have "state_of (fst (alert_step th k (Failed (int m)) ?v)) = (if sint th \<le> int m then StateEscalated else StateFiring)"
    using alert_step_spec [OF th v, of k "Failed (int m)"] state_failures [of th "Suc m"]
    by (simp add: state_of_def)
  moreover have "state_of ?v = (if m = 0 then StateUnknown else if sint th \<le> int (m - 1) then StateEscalated else StateFiring)"
    using state_failures [of th m] by (simp add: v state_of_def)
  ultimately have "map tr_To (snd (run_local (alert_step th k) (?h (Suc m)) None)) =
      map tr_To (snd (run_local (alert_step th k) (?h m) None)) @
      (if m = 0 then [StateFiring] else if sint th = int m then [StateEscalated] else [])"
    using th snd_alert_step [of th k "Failed (int m)" ?v]
    by (auto simp: run_local_append run_local_step simp del: run_local.simps(2))
  then show ?case using Suc.IH th by (simp split: if_splits)
qed simp

text \<open>
  a check that fails at every scan opens its alert at the first failure and escalates at
  the failure after as many more as the threshold says, that is at failure number threshold
  plus one; nothing else is ever reported.
\<close>

theorem escalation_after_threshold:
  "alert_log n (failures k m) k =
     (if m = 0 then [] else if int m \<le> sint (effective_threshold n) then [StateFiring]
      else [StateFiring, StateEscalated])"
  using alerts.run_is_local [of "NewStore n" "effective_threshold n" "failures k m" k]
    run_failures [OF threshold_positive, of n k m]
  by (simp add: alert_log_def of_key_failures)

text \<open>A restored check counts as firing: its next failure is not reported again.\<close>

lemma restored_is_silent:
  assumes "0 < sint (st_threshold s) - 1" "GetState s p c = None"
  shows "snd (RecordFail t' p c (RestoreFromFailedSince t p c since s)) = None"
    and "map_option FailedSince (GetState (fst (RecordFail t' p c (RestoreFromFailedSince t p c since s))) p c) = Some since"
  using assms
  by (simp_all add: RecordFail_def RestoreFromFailedSince_def case_prod_beta fail_switch_def new_check_def Let_def)

end
