(* ===== verification/Sha256.thy ===== *)
theory Sha256
  imports Prelude "HOL-Library.Word"
begin

text \<open>
  The functions of Go's \<open>crypto/sha256\<close> and \<open>crypto/hmac\<close> that the operator and the API server
  call: SHA-256 (FIPS 180-4) and HMAC over it (RFC 2104).  A Go string is a sequence of
  bytes; here it is a list of characters, each a byte.
\<close>

unbundle bit_operations_syntax

section \<open>SHA-256\<close>

type_synonym w32 = "32 word"

definition rotr :: "nat \<Rightarrow> w32 \<Rightarrow> w32" where
  "rotr n x = drop_bit n x OR push_bit (32 - n) x"

definition big_sigma0 :: "w32 \<Rightarrow> w32" where
  "big_sigma0 x = rotr 2 x XOR rotr 13 x XOR rotr 22 x"

definition big_sigma1 :: "w32 \<Rightarrow> w32" where
  "big_sigma1 x = rotr 6 x XOR rotr 11 x XOR rotr 25 x"

definition small_sigma0 :: "w32 \<Rightarrow> w32" where
  "small_sigma0 x = rotr 7 x XOR rotr 18 x XOR drop_bit 3 x"

definition small_sigma1 :: "w32 \<Rightarrow> w32" where
  "small_sigma1 x = rotr 17 x XOR rotr 19 x XOR drop_bit 10 x"

definition choose_bits :: "w32 \<Rightarrow> w32 \<Rightarrow> w32 \<Rightarrow> w32" where
  "choose_bits x y z = (x AND y) XOR (NOT x AND z)"

definition majority :: "w32 \<Rightarrow> w32 \<Rightarrow> w32 \<Rightarrow> w32" where
  "majority x y z = (x AND y) XOR (x AND z) XOR (y AND z)"

text \<open>
  The constants, as the standard derives them: the first 32 bits of the fractional parts of the
  cube roots (for the rounds) and of the square roots (for the initial value) of the first primes.
\<close>

fun root_digits :: "nat \<Rightarrow> nat \<Rightarrow> nat \<Rightarrow> nat \<Rightarrow> nat" where
  "root_digits k n 0 r = r"
| "root_digits k n (Suc i) r = root_digits k n i (if (r + 2 ^ i) ^ k \<le> n then r + 2 ^ i else r)"

definition root_fraction :: "nat \<Rightarrow> nat \<Rightarrow> w32" where
  "root_fraction k p = of_nat (root_digits k (p * 2 ^ (32 * k)) 37 0)"

definition small_primes :: "nat list" where
  "small_primes = filter (\<lambda>p. list_all (\<lambda>d. p mod d \<noteq> 0) [2..<p]) [2..<312]"

definition round_constants :: "w32 list" where
  "round_constants = map (root_fraction 3) small_primes"

definition initial_hash :: "w32 list" where
  "initial_hash = map (root_fraction 2) [2, 3, 5, 7, 11, 13, 17, 19]"

text \<open>The message schedule, newest word first, extended \<open>n\<close> times.\<close>

fun extend_schedule :: "nat \<Rightarrow> w32 list \<Rightarrow> w32 list" where
  "extend_schedule 0 ws = ws"
| "extend_schedule (Suc n) ws =
     extend_schedule n ((small_sigma1 (ws ! 1) + ws ! 6 + small_sigma0 (ws ! 14) + ws ! 15) # ws)"

fun sha_round :: "w32 \<times> w32 \<Rightarrow> w32 list \<Rightarrow> w32 list" where
  "sha_round (k, w) [a, b, c, d, e, f, g, h] =
     (let t1 = h + big_sigma1 e + choose_bits e f g + k + w; t2 = big_sigma0 a + majority a b c
      in [t1 + t2, a, b, c, d + t1, e, f, g])"
| "sha_round _ s = s"

definition compress :: "w32 list \<Rightarrow> w32 list \<Rightarrow> w32 list" where
  "compress h block =
     map2 (+) h (fold sha_round (zip round_constants (rev (extend_schedule 48 (rev block)))) h)"

definition byte :: "char \<Rightarrow> nat" where
  "byte c = of_char c"

fun big_endian :: "nat \<Rightarrow> nat \<Rightarrow> nat list" where
  "big_endian 0 n = []"
| "big_endian (Suc k) n = big_endian k (n div 256) @ [n mod 256]"

definition padded :: "nat list \<Rightarrow> nat list" where
  "padded m = m @ [128] @ replicate ((119 - length m mod 64) mod 64) 0 @ big_endian 8 (8 * length m)"

fun words_of :: "nat list \<Rightarrow> w32 list" where
  "words_of (a # b # c # d # m) = of_nat (((a * 256 + b) * 256 + c) * 256 + d) # words_of m"
| "words_of _ = []"

fun hash_blocks :: "nat \<Rightarrow> w32 list \<Rightarrow> w32 list \<Rightarrow> w32 list" where
  "hash_blocks 0 ws h = h"
| "hash_blocks (Suc n) ws h = hash_blocks n (drop 16 ws) (compress h (take 16 ws))"

definition sha256 :: "nat list \<Rightarrow> nat list" where
  "sha256 m =
     (let p = padded m in concat (map (\<lambda>w. big_endian 4 (unat w)) (hash_blocks (length p div 64) (words_of p) initial_hash)))"

definition bytes :: "string \<Rightarrow> nat list" where
  "bytes s = map byte s"

definition of_bytes :: "nat list \<Rightarrow> string" where
  "of_bytes bs = map char_of bs"

definition Sum256 :: "string \<Rightarrow> string" where
  "Sum256 s = of_bytes (sha256 (bytes s))"

text \<open>The verb \<open>%x\<close> of \<open>fmt.Sprintf\<close> on bytes.\<close>

definition hex_char :: "nat \<Rightarrow> char" where
  "hex_char n = ''0123456789abcdef'' ! n"

definition hex :: "string \<Rightarrow> string" where
  "hex s = concat (map (\<lambda>c. [hex_char (byte c div 16), hex_char (byte c mod 16)]) s)"

section \<open>HMAC\<close>

definition xor_byte :: "nat \<Rightarrow> char \<Rightarrow> char" where
  "xor_byte n c = char_of (n XOR byte c)"

definition hmac_key :: "string \<Rightarrow> string" where
  "hmac_key key =
     (let k = (if 64 < length key then Sum256 key else key) in k @ replicate (64 - length k) (char_of (0 :: nat)))"

definition hmac :: "string \<Rightarrow> string \<Rightarrow> string" where
  "hmac key msg =
     Sum256 (map (xor_byte 92) (hmac_key key) @ Sum256 (map (xor_byte 54) (hmac_key key) @ msg))"

section \<open>Lengths\<close>

lemma length_big_endian [simp]: "length (big_endian k n) = k"
  by (induction k arbitrary: n) simp_all

lemma length_padded: "64 dvd length (padded m)"
proof -
  have "length m + 9 + (119 - length m mod 64) = 64 * (length m div 64 + 2)"
    using minus_mod_eq_mult_div [of "length m" 64] mod_less_eq_dividend [of "length m" 64]
      mod_less_divisor [of 64 "length m"] by simp
  then have "(length m + 9 + (119 - length m mod 64) mod 64) mod 64 = 0"
    by (metis mod_add_right_eq mod_mult_self1_is_0)
  moreover have "length (padded m) = length m + 9 + (119 - length m mod 64) mod 64"
    unfolding padded_def by (simp only: length_append list.size length_replicate length_big_endian)
  ultimately show ?thesis by (simp only: dvd_eq_mod_eq_0)
qed

lemma length_sha_round: "length (sha_round kw s) = length s"
  by (induction kw s rule: sha_round.induct) (simp_all only: sha_round.simps Let_def list.size)

lemma length_fold_round: "length (fold sha_round kws s) = length s"
  by (induction kws arbitrary: s) (simp_all add: length_sha_round)

lemma length_hash_blocks: "length (hash_blocks n ws h) = length h"
  by (induction n ws h rule: hash_blocks.induct) (simp_all add: compress_def length_fold_round)

lemma length_initial: "length initial_hash = 8"
  by (simp add: initial_hash_def)

lemma length_Sum256 [simp]: "length (Sum256 s) = 32"
  by (simp add: Sum256_def of_bytes_def sha256_def Let_def length_concat o_def sum_list_triv length_hash_blocks length_initial)

lemma length_hex [simp]: "length (hex s) = 2 * length s"
  by (induction s) (simp_all add: hex_def)

end
