(* ===== verification/Engine.thy ===== *)
theory Engine
  imports Resources Sha256 "HOL-Library.AList" "HOL-Library.Multiset"
begin

text \<open>
  \<open>operator/internal/engine\<close>: the tool registry (\<open>tool/registry.go\<close>) and its cache for the
  duration of a scan (\<open>tool/cache.go\<close>), the interface of the language models
  (\<open>llm/adapter.go\<close>) and the engine (\<open>engine.go\<close>) that runs the checks of a policy through them.

  Tools read the live cluster and language models answer as they like: both get the number of
  the moment at which they are called, so that the same call may have another answer later.
  A model works by calling tools and finally returning; such a session is a value of the type
  \<open>session\<close>, so that it returns whatever the tools answer.  Errors are their texts.
\<close>

section \<open>Tools\<close>

record Parameter =
  par_Name :: string
  par_Type :: string
  par_Description :: string
  par_Required :: bool

record Definition =
  def_Name :: string
  def_Description :: string
  def_Parameters :: "Parameter list"

type_synonym tool_func = "nat \<Rightarrow> string \<Rightarrow> string + string"

type_synonym Registry = "(string \<times> Definition \<times> tool_func) list"

definition Register :: "Definition \<Rightarrow> tool_func \<Rightarrow> Registry \<Rightarrow> Registry" where
  "Register d fn reg = AList.update (def_Name d) (d, fn) reg"

definition Definitions :: "(Registry \<Rightarrow> Registry) \<Rightarrow> Registry \<Rightarrow> Definition list" where
  "Definitions it reg = map (\<lambda>(n, d, fn). d) (it reg)"

definition Call :: "Registry \<Rightarrow> nat \<Rightarrow> string \<Rightarrow> string \<Rightarrow> string + string" where
  "Call reg now name params =
     (case map_of reg name of
        None \<Rightarrow> Inl (''tool not found: '' @ name)
      | Some (d, fn) \<Rightarrow> fn now params)"

section \<open>The cache of a scan\<close>

text \<open>
  The state of a scan: the moment, the cache, and, for the theorems only, the calls that were
  executed, latest first, and the number of requests to the language model.
\<close>

record scan =
  sc_now :: nat
  sc_cache :: "(string \<times> string) list"
  sc_calls :: "((string \<times> string) \<times> (string + string)) list"
  sc_asked :: nat

definition NewCachingRegistry :: "nat \<Rightarrow> scan" where
  "NewCachingRegistry now = \<lparr>sc_now = now, sc_cache = [], sc_calls = [], sc_asked = 0\<rparr>"

definition cacheKey :: "string \<Rightarrow> string \<Rightarrow> string" where
  "cacheKey name params = hex (take 16 (Sum256 (name @ ''|'' @ params)))"

definition cached_Call :: "Registry \<Rightarrow> string \<Rightarrow> string \<Rightarrow> scan \<Rightarrow> scan \<times> (string + string)" where
  "cached_Call reg name params sc =
     (let key = cacheKey name params
      in case map_of (sc_cache sc) key of
           Some result \<Rightarrow> (sc, Inr result)
         | None \<Rightarrow>
             (let answer = Call reg (sc_now sc) name params;
                  sc1 = sc\<lparr>sc_now := sc_now sc + 1, sc_calls := ((name, params), answer) # sc_calls sc\<rparr>
              in case answer of
                   Inl err \<Rightarrow> (sc1, Inl err)
                 | Inr result \<Rightarrow> (sc1\<lparr>sc_cache := AList.update key result (sc_cache sc)\<rparr>, Inr result)))"

definition Hashes :: "scan \<Rightarrow> (string \<times> string) list" where
  "Hashes sc = map (\<lambda>(k, v). (k, hex (take 16 (Sum256 v)))) (sc_cache sc)"

section \<open>Language models\<close>

datatype 'a session = Return 'a | CallTool string string "string + string \<Rightarrow> 'a session"

primrec run_session :: "Registry \<Rightarrow> 'a session \<Rightarrow> scan \<Rightarrow> scan \<times> 'a" where
  "run_session reg (Return x) sc = (sc, x)"
| "run_session reg (CallTool name input k) sc =
     run_session reg (k (snd (cached_Call reg name input sc))) (fst (cached_Call reg name input sc))"

record VerifyRequest =
  vr_CheckID :: string
  vr_Description :: string
  vr_Tools :: "Definition list"
  vr_Namespaces :: "string list"
  vr_Snapshot :: string

record ToolCallRecord =
  tc_ToolName :: string
  tc_Input :: string
  tc_Output :: string

record VerifyResponse =
  vp_Verdict :: string
  vp_Reasoning :: string
  vp_ToolCalls :: "ToolCallRecord list"

record BatchVerifyRequest =
  bv_Checks :: "VerifyRequest list"
  bv_Tools :: "Definition list"
  bv_Namespaces :: "string list"
  bv_Snapshot :: string

record Adapter =
  Verify :: "nat \<Rightarrow> VerifyRequest \<Rightarrow> (string + VerifyResponse) session"
  BatchVerify :: "nat \<Rightarrow> BatchVerifyRequest \<Rightarrow> (string + VerifyResponse list) session"

definition ask :: "Registry \<Rightarrow> (nat \<Rightarrow> 'a session) \<Rightarrow> scan \<Rightarrow> scan \<times> 'a" where
  "ask reg session sc =
     run_session reg (session (sc_now sc)) (sc\<lparr>sc_now := sc_now sc + 1, sc_asked := sc_asked sc + 1\<rparr>)"

section \<open>The engine\<close>

definition batchSize :: nat where
  "batchSize = 5"

definition snapshotTools :: "(string \<times> string) list" where
  "snapshotTools = [(''list_pods'', ''{}''), (''list_nodes'', ''{}''), (''get_events'', ''{}'')]"

record Engine =
  e_snapshotHashes :: "string \<rightharpoonup> string"
  e_lastResults :: "string \<rightharpoonup> (string \<rightharpoonup> string)"

definition New :: Engine where
  "New = \<lparr>e_snapshotHashes = Map.empty, e_lastResults = Map.empty\<rparr>"

definition hashSnapshot :: "string \<Rightarrow> string" where
  "hashSnapshot data = hex (take 16 (Sum256 data))"

fun collect_tools :: "Registry \<Rightarrow> (string \<times> string) list \<Rightarrow> scan \<Rightarrow> string \<Rightarrow> scan \<times> string" where
  "collect_tools reg [] sc sb = (sc, sb)"
| "collect_tools reg ((name, params) # sts) sc sb =
     (case cached_Call reg name params sc of
        (sc1, Inl err) \<Rightarrow> collect_tools reg sts sc1 sb
      | (sc1, Inr result) \<Rightarrow> collect_tools reg sts sc1 (sb @ ''### '' @ name @ ''\<newline>'' @ result @ ''\<newline>\<newline>''))"

definition collectSnapshot :: "Registry \<Rightarrow> scan \<Rightarrow> scan \<times> string" where
  "collectSnapshot reg sc = collect_tools reg snapshotTools sc []"

definition convertEvidence :: "ToolCallRecord list \<Rightarrow> ToolCallRecordV1 list option" where
  "convertEvidence toolCalls =
     (if toolCalls = [] then None
      else Some (map (\<lambda>tc. \<lparr>tcr_ToolName = tc_ToolName tc, tcr_Input = tc_Input tc, tcr_Output = tc_Output tc\<rparr>) toolCalls))"

fun summarize :: "CheckResultV1 list \<Rightarrow> ScanSummary \<Rightarrow> ScanSummary" where
  "summarize [] s = s"
| "summarize (r # rs) s =
     summarize rs
       (if cres_Verdict r = VerdictPass then s\<lparr>sum_Pass := sum_Pass s + 1\<rparr>
        else if cres_Verdict r = VerdictWarn then s\<lparr>sum_Warn := sum_Warn s + 1\<rparr>
        else if cres_Verdict r = VerdictFail then s\<lparr>sum_Fail := sum_Fail s + 1\<rparr>
        else s)"

definition computeSummary :: "CheckResultV1 list \<Rightarrow> ScanSummary" where
  "computeSummary results =
     summarize results \<lparr>sum_Total = of_nat (length results), sum_Pass = 0, sum_Warn = 0, sum_Fail = 0\<rparr>"

definition base_result :: "CheckItemV1 \<Rightarrow> string \<Rightarrow> string \<Rightarrow> CheckResultV1" where
  "base_result check verdict reasoning =
     \<lparr>cres_ID = ci_ID check, cres_Description = ci_Description check, cres_Verdict = verdict, cres_Reasoning = reasoning,
      cres_Evidence = None, cres_FailedSince = None, cres_Severity = ci_Severity check\<rparr>"

definition answered_result :: "CheckItemV1 \<Rightarrow> VerifyResponse \<Rightarrow> CheckResultV1" where
  "answered_result check resp =
     (base_result check (vp_Verdict resp) (vp_Reasoning resp))\<lparr>cres_Evidence := convertEvidence (vp_ToolCalls resp)\<rparr>"

text \<open>
  What the requests of a scan share: the adapter, the registry, the tool definitions, the
  namespaces and the snapshot.
\<close>

record scan_context =
  cx_adapter :: Adapter
  cx_registry :: Registry
  cx_tools :: "Definition list"
  cx_namespaces :: "string list"
  cx_snapshot :: string

definition verify_single :: "scan_context \<Rightarrow> CheckItemV1 \<Rightarrow> scan \<Rightarrow> scan \<times> CheckResultV1 list" where
  "verify_single cx check sc =
     (let req = \<lparr>vr_CheckID = ci_ID check, vr_Description = ci_Description check, vr_Tools = cx_tools cx,
                 vr_Namespaces = cx_namespaces cx, vr_Snapshot = cx_snapshot cx\<rparr>;
          (sc1, answer) = ask (cx_registry cx) (\<lambda>now. Verify (cx_adapter cx) now req) sc
      in (sc1, [case answer of
                  Inl err \<Rightarrow> base_result check VerdictFail (''LLM API error: '' @ err)
                | Inr resp \<Rightarrow> answered_result check resp]))"

definition batch_result :: "VerifyResponse list \<Rightarrow> nat \<Rightarrow> CheckItemV1 \<Rightarrow> CheckResultV1" where
  "batch_result responses j check =
     (if j < length responses then answered_result check (responses ! j)
      else base_result check VerdictFail ''No response from batch for this check.'')"

definition verify_many :: "scan_context \<Rightarrow> CheckItemV1 list \<Rightarrow> scan \<Rightarrow> scan \<times> CheckResultV1 list" where
  "verify_many cx batch sc =
     (let batchReqs = map (\<lambda>check. \<lparr>vr_CheckID = ci_ID check, vr_Description = ci_Description check, vr_Tools = [],
                                     vr_Namespaces = [], vr_Snapshot = []\<rparr>) batch;
          req = \<lparr>bv_Checks = batchReqs, bv_Tools = cx_tools cx, bv_Namespaces = cx_namespaces cx, bv_Snapshot = cx_snapshot cx\<rparr>;
          (sc1, answer) = ask (cx_registry cx) (\<lambda>now. BatchVerify (cx_adapter cx) now req) sc
      in (sc1, (case answer of
                  Inl err \<Rightarrow> map (\<lambda>check. base_result check VerdictFail (''LLM batch API error: '' @ err)) batch
                | Inr responses \<Rightarrow> map (\<lambda>(j, check). batch_result responses j check) (enumerate 0 batch))))"

definition verify_batch :: "scan_context \<Rightarrow> CheckItemV1 list \<Rightarrow> scan \<Rightarrow> scan \<times> CheckResultV1 list" where
  "verify_batch cx batch sc =
     (case batch of [check] \<Rightarrow> verify_single cx check sc | _ \<Rightarrow> verify_many cx batch sc)"

text \<open>The loop over \<open>i\<close> in steps of the batch size, with the results collected so far.\<close>

function run_batches ::
  "scan_context \<Rightarrow> CheckItemV1 list \<Rightarrow> nat \<Rightarrow> scan \<Rightarrow> CheckResultV1 list \<Rightarrow> scan \<times> CheckResultV1 list" where
  "run_batches cx checks i sc results =
     (if i < length checks then
        let upto = min (i + batchSize) (length checks);
            (sc1, rs) = verify_batch cx (drop i (take upto checks)) sc
        in run_batches cx checks (i + batchSize) sc1 (results @ rs)
      else (sc, results))"
  by pat_completeness auto

termination
  by (relation "measure (\<lambda>(cx, checks, i, sc, results). length checks - i)") (auto simp: batchSize_def)

declare run_batches.simps [simp del]

definition reused_result :: "(string \<rightharpoonup> string) \<Rightarrow> CheckItemV1 \<Rightarrow> CheckResultV1" where
  "reused_result prev check =
     base_result check (case prev (ci_ID check) of None \<Rightarrow> [] | Some v \<Rightarrow> v)
       ''Snapshot unchanged -- previous verdict reused.''"

definition all_cached :: "(string \<rightharpoonup> string) \<Rightarrow> CheckItemV1 list \<Rightarrow> bool" where
  "all_cached prev checks \<longleftrightarrow> list_all (\<lambda>check. prev (ci_ID check) \<noteq> None) checks"

definition policyKey :: "ChecklistPolicyV1 \<Rightarrow> string" where
  "policyKey policy = cp_Namespace policy @ ''/'' @ cp_Name policy"

definition result_spec :: "ChecklistPolicyV1 \<Rightarrow> int \<Rightarrow> int \<Rightarrow> CheckResultV1 list \<Rightarrow> ChecklistResultSpec" where
  "result_spec policy startedAt completedAt results =
     \<lparr>rs_PolicyRef = cp_Name policy, rs_ScanType = [], rs_StartedAt = startedAt, rs_CompletedAt = Some completedAt,
      rs_Checks = results, rs_Summary = Some (computeSummary results)\<rparr>"

text \<open>The verdicts the engine would reuse for a snapshot, if it has any.\<close>

definition reusable :: "Engine \<Rightarrow> string \<Rightarrow> string \<Rightarrow> CheckItemV1 list \<Rightarrow> (string \<rightharpoonup> string) option" where
  "reusable eng key currentHash checks =
     (let prevHash = (case e_snapshotHashes eng key of None \<Rightarrow> [] | Some h \<Rightarrow> h)
      in case e_lastResults eng key of
           None \<Rightarrow> None
         | Some prev \<Rightarrow> if prevHash = currentHash \<and> 0 < length checks \<and> all_cached prev checks then Some prev else None)"

definition verdict_map :: "CheckResultV1 list \<Rightarrow> (string \<rightharpoonup> string)" where
  "verdict_map results = fold (\<lambda>r m. m(cres_ID r \<mapsto> cres_Verdict r)) results Map.empty"

record scan_input =
  in_adapter :: Adapter
  in_registry :: Registry
  in_order :: "Registry \<Rightarrow> Registry"
  in_moment :: nat
  in_startedAt :: int
  in_completedAt :: int

definition RunChecks ::
  "scan_input \<Rightarrow> ChecklistPolicyV1 \<Rightarrow> CheckItemV1 list \<Rightarrow> Engine \<Rightarrow> Engine \<times> scan \<times> (string + ChecklistResultSpec)" where
  "RunChecks env policy checks eng =
     (let reg = in_registry env;
          toolDefs = Definitions (in_order env) reg;
          (sc, snapshot) = collectSnapshot reg (NewCachingRegistry (in_moment env));
          key = policyKey policy;
          currentHash = hashSnapshot snapshot
      in case reusable eng key currentHash checks of
           Some prev \<Rightarrow>
             (eng, sc, Inr (result_spec policy (in_startedAt env) (in_completedAt env) (map (reused_result prev) checks)))
         | None \<Rightarrow>
             (let cx = \<lparr>cx_adapter = in_adapter env, cx_registry = reg, cx_tools = toolDefs,
                        cx_namespaces = ps_TargetNamespaces (cp_Spec policy), cx_snapshot = snapshot\<rparr>;
                  (sc1, results) = run_batches cx checks 0 sc [];
                  eng1 = eng\<lparr>e_snapshotHashes := (e_snapshotHashes eng)(key \<mapsto> currentHash),
                             e_lastResults := (e_lastResults eng)(key \<mapsto> verdict_map results)\<rparr>
              in (eng1, sc1, Inr (result_spec policy (in_startedAt env) (in_completedAt env) results))))"

text \<open>\<open>time.Format\<close> in the local zone is the parameter \<open>timestamp\<close>.\<close>

definition GenerateResultName :: "(int \<Rightarrow> string) \<Rightarrow> int \<Rightarrow> string \<Rightarrow> string \<Rightarrow> string" where
  "GenerateResultName timestamp now policyName scanType = policyName @ ''-'' @ scanType @ ''-'' @ timestamp now"

section \<open>Every check gets a result\<close>

definition check_of :: "CheckResultV1 \<Rightarrow> string \<times> string \<times> string" where
  "check_of r = (cres_ID r, cres_Description r, cres_Severity r)"

definition item_of :: "CheckItemV1 \<Rightarrow> string \<times> string \<times> string" where
  "item_of c = (ci_ID c, ci_Description c, ci_Severity c)"

lemma check_of_simps [simp]:
  "check_of (base_result c v t) = item_of c" "check_of (answered_result c a) = item_of c"
  "check_of (batch_result as j c) = item_of c" "check_of (reused_result prev c) = item_of c"
  by (simp_all add: check_of_def item_of_def base_result_def answered_result_def batch_result_def reused_result_def)

lemma map_enumerate_snd: "map (\<lambda>(j, x). f x) (enumerate n xs) = map f xs"
  by (induction xs arbitrary: n) simp_all

lemma verify_single_checks: "map check_of (snd (verify_single cx c sc)) = [item_of c]"
  by (simp add: verify_single_def case_prod_beta Let_def split: sum.split)

lemma verify_many_checks: "map check_of (snd (verify_many cx batch sc)) = map item_of batch"
  by (simp add: verify_many_def case_prod_beta Let_def map_enumerate_snd [unfolded case_prod_beta] o_def split: sum.split)

lemma verify_batch_checks: "map check_of (snd (verify_batch cx batch sc)) = map item_of batch"
  by (simp add: verify_batch_def verify_single_checks verify_many_checks split: list.split)

lemma batch_append: "take i xs @ drop i (take (min (i + b) (length xs)) xs) = take (i + b) xs"
  by (simp add: take_add drop_take min_def)

text \<open>One round of the loop, and induction over its rounds.\<close>

definition round_of :: "scan_context \<Rightarrow> CheckItemV1 list \<Rightarrow> nat \<Rightarrow> scan \<Rightarrow> scan \<times> CheckResultV1 list" where
  "round_of cx checks i sc = verify_batch cx (drop i (take (min (i + batchSize) (length checks)) checks)) sc"

lemma run_batches_step:
  "i < length checks \<Longrightarrow>
   run_batches cx checks i sc results =
     run_batches cx checks (i + batchSize) (fst (round_of cx checks i sc)) (results @ snd (round_of cx checks i sc))"
  "\<not> i < length checks \<Longrightarrow> run_batches cx checks i sc results = (sc, results)"
  by (simp_all add: run_batches.simps [of cx checks i] round_of_def case_prod_beta Let_def)

lemma run_batches_rounds [case_names round finished]:
  assumes "\<And>i sc results. i < length checks \<Longrightarrow>
      P (i + batchSize) (fst (round_of cx checks i sc)) (results @ snd (round_of cx checks i sc)) \<Longrightarrow> P i sc results"
    and "\<And>i sc results. \<not> i < length checks \<Longrightarrow> P i sc results"
  shows "P i sc results"
proof (induction "length checks - i" arbitrary: i sc results rule: less_induct)
  case less
  have "length checks - (i + batchSize) < length checks - i" if "i < length checks"
    using that by (simp add: batchSize_def)
  then show ?case using assms less by blast
qed

lemma run_batches_checks:
  "map check_of results = map item_of (take i checks) \<Longrightarrow>
   map check_of (snd (run_batches cx checks i sc results)) = map item_of checks"
proof (induction i sc results rule: run_batches_rounds [of checks _ cx])
  case (round i sc results)
  have "map check_of (results @ snd (round_of cx checks i sc)) = map item_of (take (i + batchSize) checks)"
    unfolding batch_append [symmetric] map_append round(3) round_of_def verify_batch_checks by simp
  from round(2) [OF this] show ?case by (simp only: run_batches_step(1) [OF round(1)])
qed (simp add: run_batches_step(2))

text \<open>The outcome of a scan, by cases.\<close>

definition scan_start :: "scan_input \<Rightarrow> scan" where
  "scan_start env = fst (collectSnapshot (in_registry env) (NewCachingRegistry (in_moment env)))"

definition scan_snapshot :: "scan_input \<Rightarrow> string" where
  "scan_snapshot env = snd (collectSnapshot (in_registry env) (NewCachingRegistry (in_moment env)))"

definition scan_cx :: "scan_input \<Rightarrow> ChecklistPolicyV1 \<Rightarrow> scan_context" where
  "scan_cx env policy =
     \<lparr>cx_adapter = in_adapter env, cx_registry = in_registry env, cx_tools = Definitions (in_order env) (in_registry env),
      cx_namespaces = ps_TargetNamespaces (cp_Spec policy), cx_snapshot = scan_snapshot env\<rparr>"

definition fresh_scan :: "scan_input \<Rightarrow> ChecklistPolicyV1 \<Rightarrow> CheckItemV1 list \<Rightarrow> scan \<times> CheckResultV1 list" where
  "fresh_scan env policy checks = run_batches (scan_cx env policy) checks 0 (scan_start env) []"

lemma RunChecks_reused:
  "reusable eng (policyKey policy) (hashSnapshot (scan_snapshot env)) checks = Some prev \<Longrightarrow>
   RunChecks env policy checks eng =
     (eng, scan_start env,
      Inr (result_spec policy (in_startedAt env) (in_completedAt env) (map (reused_result prev) checks)))"
  by (simp add: RunChecks_def scan_start_def scan_snapshot_def case_prod_beta Let_def)

lemma RunChecks_fresh:
  "reusable eng (policyKey policy) (hashSnapshot (scan_snapshot env)) checks = None \<Longrightarrow>
   RunChecks env policy checks eng =
     (eng\<lparr>e_snapshotHashes := (e_snapshotHashes eng)(policyKey policy \<mapsto> hashSnapshot (scan_snapshot env)),
          e_lastResults := (e_lastResults eng)(policyKey policy \<mapsto> verdict_map (snd (fresh_scan env policy checks)))\<rparr>,
      fst (fresh_scan env policy checks),
      Inr (result_spec policy (in_startedAt env) (in_completedAt env) (snd (fresh_scan env policy checks))))"
  by (simp add: RunChecks_def fresh_scan_def scan_cx_def scan_start_def scan_snapshot_def case_prod_beta Let_def)

definition run_results :: "scan_input \<Rightarrow> ChecklistPolicyV1 \<Rightarrow> CheckItemV1 list \<Rightarrow> Engine \<Rightarrow> CheckResultV1 list" where
  "run_results env policy checks eng =
     (case reusable eng (policyKey policy) (hashSnapshot (scan_snapshot env)) checks of
        Some prev \<Rightarrow> map (reused_result prev) checks
      | None \<Rightarrow> snd (fresh_scan env policy checks))"

lemma RunChecks_result:
  "snd (snd (RunChecks env policy checks eng)) =
     Inr (result_spec policy (in_startedAt env) (in_completedAt env) (run_results env policy checks eng))"
  by (cases "reusable eng (policyKey policy) (hashSnapshot (scan_snapshot env)) checks")
    (simp_all add: RunChecks_reused RunChecks_fresh run_results_def)

lemma run_results_checks: "map check_of (run_results env policy checks eng) = map item_of checks"
  by (auto simp: run_results_def fresh_scan_def run_batches_checks split: option.split)

text \<open>
  C4: a scan always returns a result, whatever the tools and the language model answer, with one
  entry for every check, in the order of the policy and with its id, description and severity,
  and with the summary of exactly these entries.
\<close>

theorem every_check_answered:
  "\<exists>spec. snd (snd (RunChecks env policy checks eng)) = Inr spec
     \<and> map check_of (rs_Checks spec) = map item_of checks
     \<and> rs_Summary spec = Some (computeSummary (rs_Checks spec))
     \<and> rs_PolicyRef spec = cp_Name policy"
  by (simp add: RunChecks_result run_results_checks result_spec_def)

section \<open>Summaries\<close>

definition with_verdict :: "string \<Rightarrow> CheckResultV1 list \<Rightarrow> nat" where
  "with_verdict v rs = length (filter (\<lambda>r. cres_Verdict r = v) rs)"

lemma summarize_eq:
  "summarize rs s = s\<lparr>sum_Pass := sum_Pass s + of_nat (with_verdict VerdictPass rs),
     sum_Warn := sum_Warn s + of_nat (with_verdict VerdictWarn rs),
     sum_Fail := sum_Fail s + of_nat (with_verdict VerdictFail rs)\<rparr>"
  by (induction rs arbitrary: s) (simp_all add: with_verdict_def add_ac)

lemma computeSummary_eq:
  "computeSummary rs = \<lparr>sum_Total = of_nat (length rs), sum_Pass = of_nat (with_verdict VerdictPass rs),
     sum_Warn = of_nat (with_verdict VerdictWarn rs), sum_Fail = of_nat (with_verdict VerdictFail rs)\<rparr>"
  by (simp add: computeSummary_def summarize_eq)

lemma with_verdict_le: "with_verdict v rs \<le> length rs"
  by (simp add: with_verdict_def)

lemma with_verdict_sum:
  "with_verdict VerdictPass rs + with_verdict VerdictWarn rs + with_verdict VerdictFail rs
     + length (filter (\<lambda>r. cres_Verdict r \<notin> {VerdictPass, VerdictWarn, VerdictFail}) rs) = length rs"
  by (induction rs) (auto simp: with_verdict_def)

text \<open>
  for fewer than $2^{31}$ results the summary counts them: the total is their number, the
  others those with each verdict, and what is missing from the total are verdicts of the
  language model that are none of the three.
\<close>

theorem summary_counts:
  assumes "length rs < 2 ^ 31"
  shows "sint (sum_Total (computeSummary rs)) = int (length rs)
    \<and> sint (sum_Pass (computeSummary rs)) = int (with_verdict VerdictPass rs)
    \<and> sint (sum_Warn (computeSummary rs)) = int (with_verdict VerdictWarn rs)
    \<and> sint (sum_Fail (computeSummary rs)) = int (with_verdict VerdictFail rs)
    \<and> sint (sum_Pass (computeSummary rs)) + sint (sum_Warn (computeSummary rs)) + sint (sum_Fail (computeSummary rs))
        + int (length (filter (\<lambda>r. cres_Verdict r \<notin> {VerdictPass, VerdictWarn, VerdictFail}) rs))
      = sint (sum_Total (computeSummary rs))"
proof -
  have "with_verdict v rs < 2 ^ 31" for v using with_verdict_le [of v rs] assms by linarith
  then have "sint (of_nat (with_verdict v rs) :: 32 word) = int (with_verdict v rs)" for v by (rule sint_of_nat32)
  moreover have "sint (of_nat (length rs) :: 32 word) = int (length rs)" using assms by (rule sint_of_nat32)
  ultimately show ?thesis using with_verdict_sum [of rs] by (simp only: computeSummary_eq ScanSummary.simps simp_thms)
qed

theorem summary_counts_witness:
  "sint (sum_Total (computeSummary [base_result \<lparr>ci_ID = ''a'', ci_Description = [], ci_Severity = []\<rparr> VerdictPass []])) = 1"
  using summary_counts [of "[base_result \<lparr>ci_ID = ''a'', ci_Description = [], ci_Severity = []\<rparr> VerdictPass []]"] by simp

section \<open>Requests to the language model\<close>

lemma asked_cached_Call [simp]: "sc_asked (fst (cached_Call reg n p sc)) = sc_asked sc"
  by (simp add: cached_Call_def Let_def split: option.split sum.split)

lemma asked_run_session [simp]: "sc_asked (fst (run_session reg w sc)) = sc_asked sc"
  by (induction w arbitrary: sc) simp_all

lemma asked_ask: "sc_asked (fst (ask reg w sc)) = sc_asked sc + 1"
  by (simp add: ask_def)

lemma asked_round [simp]: "sc_asked (fst (round_of cx checks i sc)) = sc_asked sc + 1"
  by (simp add: round_of_def verify_batch_def verify_single_def verify_many_def asked_ask case_prod_beta Let_def
      split: list.split)

lemma asked_collect: "sc_asked (fst (collect_tools reg ts sc sb)) = sc_asked sc"
proof (induction reg ts sc sb rule: collect_tools.induct)
  case (2 reg n p ts sc sb)
  then show ?case using asked_cached_Call [of reg n p sc]
    by (auto split: prod.split sum.split simp del: asked_cached_Call)
qed simp

lemma batches_left:
  assumes "0 < n"
  shows "(n + 4) div 5 = 1 + (n - 5 + 4) div (5 :: nat)"
proof (cases "n < 5")
  case True
  then have "(n + 4) div 5 = 1" using assms by (intro div_nat_eqI) simp_all
  then show ?thesis using True by simp
next
  case False
  then obtain m where "n = m + 5" by (metis le_iff_add add.commute not_less)
  then show ?thesis by simp
qed

lemma asked_run_batches:
  "sc_asked (fst (run_batches cx checks i sc results)) = sc_asked sc + (length checks - i + 4) div 5"
proof (induction i sc results rule: run_batches_rounds [of checks _ cx])
  case (round i sc results)
  have "(length checks - i + 4) div 5 = 1 + (length checks - (i + 5) + 4) div 5"
    using batches_left [of "length checks - i"] round(1) by simp
  then show ?case using round(2) by (simp only: run_batches_step(1) [OF round(1)] batchSize_def asked_round add.assoc)
qed (simp add: run_batches_step(2))

lemma requests_made:
  "sc_asked (fst (snd (RunChecks env policy checks eng))) =
     (if reusable eng (policyKey policy) (hashSnapshot (scan_snapshot env)) checks = None
      then (length checks + 4) div 5 else 0)"
proof -
  have "sc_asked (scan_start env) = 0"
    by (simp add: scan_start_def collectSnapshot_def asked_collect NewCachingRegistry_def)
  then show ?thesis
    by (cases "reusable eng (policyKey policy) (hashSnapshot (scan_snapshot env)) checks")
      (simp_all add: RunChecks_reused RunChecks_fresh fresh_scan_def asked_run_batches)
qed

text \<open>
  C32: the loop over the batches ends after one request to the language model for every five
  checks begun; when verdicts are reused there is none.
\<close>

theorem requests_per_scan:
  "sc_asked (fst (snd (RunChecks env policy checks eng))) =
     (if reusable eng (policyKey policy) (hashSnapshot (scan_snapshot env)) checks = None
      then (length checks + 4) div 5 else 0)"
  by (rule requests_made)

section \<open>The cache\<close>

text \<open>
  An invariant of the cached call and of the counters of a request holds throughout a scan,
  whatever the language model does.
\<close>

locale scan_invariant =
  fixes I :: "scan \<Rightarrow> bool"
  assumes call_I: "I sc \<Longrightarrow> I (fst (cached_Call reg n p sc))"
    and ask_I: "I sc \<Longrightarrow> I (sc\<lparr>sc_now := now, sc_asked := asked\<rparr>)"
    and start_I: "I (NewCachingRegistry now)"
begin

lemma session_I: "I sc \<Longrightarrow> I (fst (run_session reg w sc))"
  by (induction w arbitrary: sc) (simp_all add: call_I)

lemma round_I: "I sc \<Longrightarrow> I (fst (round_of cx checks i sc))"
  by (simp add: round_of_def verify_batch_def verify_single_def verify_many_def ask_def session_I ask_I case_prod_beta Let_def
      split: list.split)

lemma collect_I: "I sc \<Longrightarrow> I (fst (collect_tools reg ts sc sb))"
proof (induction reg ts sc sb rule: collect_tools.induct)
  case (2 reg n p ts sc sb)
  then show ?case using call_I [of sc reg n p] by (auto split: prod.split sum.split)
qed simp

lemma batches_I: "I sc \<Longrightarrow> I (fst (run_batches cx checks i sc results))"
  by (induction i sc results rule: run_batches_rounds [of checks _ cx])
    (simp_all add: run_batches_step round_I)

lemma scan_I: "I (fst (snd (RunChecks env policy checks eng)))"
proof -
  have "I (scan_start env)" by (simp add: scan_start_def collectSnapshot_def collect_I start_I)
  then show ?thesis
    by (cases "reusable eng (policyKey policy) (hashSnapshot (scan_snapshot env)) checks")
      (simp_all add: RunChecks_reused RunChecks_fresh fresh_scan_def batches_I)
qed

end

fun keys_answered :: "((string \<times> string) \<times> (string + string)) list \<Rightarrow> string list" where
  "keys_answered [] = []"
| "keys_answered (((n, p), Inl err) # cs) = keys_answered cs"
| "keys_answered (((n, p), Inr result) # cs) = cacheKey n p # keys_answered cs"

definition answered_keys :: "scan \<Rightarrow> string list" where
  "answered_keys sc = keys_answered (sc_calls sc)"

definition cache_ok :: "scan \<Rightarrow> bool" where
  "cache_ok sc \<longleftrightarrow> distinct (answered_keys sc) \<and> fst ` set (sc_cache sc) = set (answered_keys sc)"

lemma cache_ok_call: "cache_ok sc \<Longrightarrow> cache_ok (fst (cached_Call reg n p sc))"
  by (auto simp: cache_ok_def cached_Call_def answered_keys_def Let_def dom_update map_of_eq_None_iff
      split: option.split sum.split)

interpretation cache: scan_invariant cache_ok
  by unfold_locales
    (auto simp: cache_ok_call NewCachingRegistry_def, simp_all add: cache_ok_def answered_keys_def)

text \<open>
  C33: within a scan, a tool call that has been answered is never executed again: the keys of the
  answered calls are pairwise different, however the language model calls the tools.
\<close>

theorem answered_calls_not_repeated:
  "distinct (answered_keys (fst (snd (RunChecks env policy checks eng))))"
  using cache.scan_I [of env policy checks eng] by (simp add: cache_ok_def)

section \<open>Reused verdicts\<close>

lemma verdict_map_fold:
  "fold (\<lambda>r m. m(cres_ID r \<mapsto> cres_Verdict r)) rs m i \<noteq> None \<longleftrightarrow> i \<in> cres_ID ` set rs \<or> m i \<noteq> None"
  by (induction rs arbitrary: m) auto

lemma verdict_map_dom: "verdict_map rs i \<noteq> None \<longleftrightarrow> i \<in> cres_ID ` set rs"
  using verdict_map_fold [of rs Map.empty i] by (simp add: verdict_map_def)

lemma verdict_map_reused:
  "all_cached prev checks \<Longrightarrow> i \<in> ci_ID ` set checks \<Longrightarrow> verdict_map (map (reused_result prev) checks) i = prev i"
proof -
  have "fold (\<lambda>r m. m(cres_ID r \<mapsto> cres_Verdict r)) (map (reused_result prev) checks) m i =
      (if i \<in> ci_ID ` set checks then prev i else m i)" if "all_cached prev checks" for m
    using that by (induction checks arbitrary: m)
      (auto simp: all_cached_def reused_result_def base_result_def)
  then show "all_cached prev checks \<Longrightarrow> i \<in> ci_ID ` set checks \<Longrightarrow> ?thesis" by (simp add: verdict_map_def)
qed

lemma hash_nonempty [simp]: "hashSnapshot d \<noteq> []"
proof -
  have "length (hashSnapshot d) = 32" by (simp add: hashSnapshot_def)
  then show ?thesis by fastforce
qed

lemmas hash_nonempty' [simp] = hash_nonempty [symmetric]

text \<open>What a scan leaves behind for the next one.\<close>

lemma RunChecks_remembers:
  assumes run: "RunChecks env policy checks eng = (eng1, sc1, Inr spec)"
    and i: "i \<in> ci_ID ` set checks"
  shows "e_snapshotHashes eng1 (policyKey policy) = Some (hashSnapshot (scan_snapshot env))"
    and "\<exists>prev. e_lastResults eng1 (policyKey policy) = Some prev \<and> prev i = verdict_map (rs_Checks spec) i \<and> prev i \<noteq> None"
proof -
  let ?h = "hashSnapshot (scan_snapshot env)"
  have ids: "cres_ID ` set (run_results env policy checks eng) = ci_ID ` set checks"
    using arg_cong [OF run_results_checks [of env policy checks eng], of "\<lambda>xs. fst ` set xs"]
    by (simp add: image_image check_of_def item_of_def)
  have "e_snapshotHashes eng1 (policyKey policy) = Some ?h \<and>
    (\<exists>prev. e_lastResults eng1 (policyKey policy) = Some prev \<and> prev i = verdict_map (rs_Checks spec) i \<and> prev i \<noteq> None)"
  proof (cases "reusable eng (policyKey policy) ?h checks")
    case None
    then show ?thesis using run i ids verdict_map_dom [of "snd (fresh_scan env policy checks)" i]
      by (auto simp: RunChecks_fresh result_spec_def run_results_def)
  next
    case (Some prev)
    then have c: "all_cached prev checks" "e_lastResults eng (policyKey policy) = Some prev"
      "e_snapshotHashes eng (policyKey policy) = Some ?h"
      by (auto simp: reusable_def Let_def split: option.splits if_splits)
    moreover have "prev i \<noteq> None" using c(1) i by (auto simp: all_cached_def list_all_iff)
    ultimately show ?thesis using run i Some
      by (auto simp: RunChecks_reused result_spec_def verdict_map_reused)
  qed
  then show "e_snapshotHashes eng1 (policyKey policy) = Some ?h"
    and "\<exists>prev. e_lastResults eng1 (policyKey policy) = Some prev \<and> prev i = verdict_map (rs_Checks spec) i \<and> prev i \<noteq> None"
    by blast+
qed

lemma unchanged_scan_reuses:
  assumes run: "RunChecks env policy checks eng = (eng1, sc1, Inr spec)"
    and same: "scan_snapshot env' = scan_snapshot env"
    and sub: "checks' \<noteq> []" "ci_ID ` set checks' \<subseteq> ci_ID ` set checks"
    and pol: "policyKey policy' = policyKey policy"
  shows "fst (RunChecks env' policy' checks' eng1) = eng1"
    and "sc_asked (fst (snd (RunChecks env' policy' checks' eng1))) = 0"
    and "map cres_Verdict (run_results env' policy' checks' eng1) =
      map (\<lambda>c. the (verdict_map (rs_Checks spec) (ci_ID c))) checks'"
proof -
  obtain c where "c \<in> set checks'" using sub(1) by (cases checks') auto
  then have c: "ci_ID c \<in> ci_ID ` set checks" using sub(2) by auto
  obtain prev where prev: "e_lastResults eng1 (policyKey policy) = Some prev"
    using RunChecks_remembers(2) [OF run c] by blast
  have v: "prev i = verdict_map (rs_Checks spec) i \<and> prev i \<noteq> None" if "i \<in> ci_ID ` set checks'" for i
    using RunChecks_remembers(2) [OF run, of i] that sub(2) prev by auto
  have "all_cached prev checks'" unfolding all_cached_def list_all_iff using v by blast
  then have r: "reusable eng1 (policyKey policy') (hashSnapshot (scan_snapshot env')) checks' = Some prev"
    using prev RunChecks_remembers(1) [OF run c] sub(1) by (simp add: reusable_def same pol)
  show "fst (RunChecks env' policy' checks' eng1) = eng1" by (simp add: RunChecks_reused [OF r])
  show "sc_asked (fst (snd (RunChecks env' policy' checks' eng1))) = 0"
    by (simp add: RunChecks_reused [OF r] scan_start_def collectSnapshot_def asked_collect NewCachingRegistry_def)
  show "map cres_Verdict (run_results env' policy' checks' eng1) =
      map (\<lambda>c. the (verdict_map (rs_Checks spec) (ci_ID c))) checks'"
  proof -
    have "cres_Verdict (reused_result prev c) = the (verdict_map (rs_Checks spec) (ci_ID c))" if "c \<in> set checks'" for c
      using v [of "ci_ID c"] that by (auto simp: reused_result_def base_result_def split: option.split)
    then show ?thesis by (simp add: run_results_def r)
  qed
qed

text \<open>
  when the snapshot of the cluster has not changed since the last scan of the policy, a scan
  of checks that were part of it asks the language model nothing and repeats their verdicts.
\<close>

theorem unchanged_snapshot_repeats:
  assumes "RunChecks env policy checks eng = (eng1, sc1, Inr spec)"
    and "scan_snapshot env' = scan_snapshot env"
    and "checks' \<noteq> []" and "ci_ID ` set checks' \<subseteq> ci_ID ` set checks"
  shows "\<exists>sc2 spec2. RunChecks env' policy checks' eng1 = (eng1, sc2, Inr spec2)
    \<and> sc_asked sc2 = 0
    \<and> map cres_Verdict (rs_Checks spec2) = map (\<lambda>c. the (verdict_map (rs_Checks spec) (ci_ID c))) checks'"
  using unchanged_scan_reuses [OF assms refl] RunChecks_result [of env' policy checks' eng1]
  by (cases "RunChecks env' policy checks' eng1") (auto simp: result_spec_def)

text \<open>A language model that cannot be reached.\<close>

definition unreachable :: "string \<Rightarrow> Adapter" where
  "unreachable err = \<lparr>Verify = (\<lambda>now req. Return (Inl err)), BatchVerify = (\<lambda>now req. Return (Inl err))\<rparr>"

text \<open>An adapter that answers no request.\<close>

definition silent :: "Adapter \<Rightarrow> bool" where
  "silent A \<longleftrightarrow>
     (\<forall>now req reg sc. isl (snd (run_session reg (Verify A now req) sc)))
     \<and> (\<forall>now req reg sc. isl (snd (run_session reg (BatchVerify A now req) sc)))"

lemma silent_unreachable: "silent (unreachable err)"
  by (simp add: silent_def unreachable_def)

lemma silent_ask:
  assumes "silent A"
  shows "snd (ask reg (\<lambda>now. Verify A now req) sc) \<noteq> Inr x" "snd (ask reg (\<lambda>now. BatchVerify A now breq) sc) \<noteq> Inr y"
  using assms unfolding silent_def ask_def by (metis isl_def sum.distinct(1))+

lemma verify_single_silent: "silent (cx_adapter cx) \<Longrightarrow> r \<in> set (snd (verify_single cx c sc)) \<Longrightarrow> cres_Verdict r = VerdictFail"
  by (auto simp: verify_single_def base_result_def case_prod_beta Let_def silent_ask split: sum.splits)

lemma verify_many_silent: "silent (cx_adapter cx) \<Longrightarrow> r \<in> set (snd (verify_many cx batch sc)) \<Longrightarrow> cres_Verdict r = VerdictFail"
  by (auto simp: verify_many_def base_result_def case_prod_beta Let_def silent_ask split: sum.splits)

lemma round_silent: "silent (cx_adapter cx) \<Longrightarrow> r \<in> set (snd (round_of cx checks i sc)) \<Longrightarrow> cres_Verdict r = VerdictFail"
  by (auto simp: round_of_def verify_batch_def verify_single_silent verify_many_silent split: list.splits)

lemma batches_silent:
  assumes "silent (cx_adapter cx)"
  shows "list_all (\<lambda>r. cres_Verdict r = VerdictFail) results \<Longrightarrow>
    list_all (\<lambda>r. cres_Verdict r = VerdictFail) (snd (run_batches cx checks i sc results))"
proof (induction i sc results rule: run_batches_rounds [of checks _ cx])
  case (round i sc results)
  then show ?case using round_silent [OF assms] by (simp add: run_batches_step(1) list_all_iff ball_Un)
qed (simp add: run_batches_step(2))

lemma verdict_map_all_fail:
  assumes "list_all (\<lambda>r. cres_Verdict r = VerdictFail) rs" "i \<in> cres_ID ` set rs"
  shows "verdict_map rs i = Some VerdictFail"
proof -
  have "fold (\<lambda>r m. m(cres_ID r \<mapsto> cres_Verdict r)) rs m i = (if i \<in> cres_ID ` set rs then Some VerdictFail else m i)" for m
    using assms(1) by (induction rs arbitrary: m) auto
  then show ?thesis using assms(2) by (simp add: verdict_map_def)
qed

text \<open>
  the failures of an unreachable language model are remembered like verdicts: the first scan
  reports every check as failed, and as long as the snapshot stays the same every later scan
  repeats these failures without asking again, although the model may be back.
\<close>

theorem outage_is_remembered:
  assumes "in_adapter env = unreachable err" and "RunChecks env policy checks New = (eng1, sc1, Inr spec)"
    and "scan_snapshot env' = scan_snapshot env"
    and "checks' \<noteq> []" and "set checks' \<subseteq> set checks"
  shows "\<exists>sc2 spec2. RunChecks env' policy checks' eng1 = (eng1, sc2, Inr spec2)
    \<and> sc_asked sc2 = 0 \<and> list_all (\<lambda>r. cres_Verdict r = VerdictFail) (rs_Checks spec2)"
proof -
  have "reusable New (policyKey policy) h checks = None" for h by (simp add: reusable_def New_def)
  then have spec: "rs_Checks spec = snd (fresh_scan env policy checks)"
    using assms(2) by (auto simp: RunChecks_fresh result_spec_def)
  have fails: "list_all (\<lambda>r. cres_Verdict r = VerdictFail) (rs_Checks spec)"
    unfolding spec fresh_scan_def by (rule batches_silent) (simp_all add: scan_cx_def assms(1) silent_unreachable)
  have "snd (snd (RunChecks env policy checks New)) = Inr spec" by (simp add: assms(2))
  then have "map check_of (rs_Checks spec) = map item_of checks"
    by (auto simp: RunChecks_result result_spec_def run_results_checks)
  from arg_cong [OF this, of "\<lambda>xs. fst ` set xs"] have ids: "cres_ID ` set (rs_Checks spec) = ci_ID ` set checks"
    by (simp add: image_image check_of_def item_of_def)
  have sub: "ci_ID ` set checks' \<subseteq> ci_ID ` set checks" using assms(5) by blast
  have "map cres_Verdict (run_results env' policy checks' eng1) = map (\<lambda>c. VerdictFail) checks'"
    unfolding unchanged_scan_reuses(3) [OF assms(2,3,4) sub refl]
    using sub verdict_map_all_fail [OF fails] by (auto simp: ids)
  then have "\<forall>v \<in> set (map cres_Verdict (run_results env' policy checks' eng1)). v = VerdictFail" by simp
  then have "list_all (\<lambda>r. cres_Verdict r = VerdictFail) (run_results env' policy checks' eng1)"
    by (simp add: list_all_iff)
  then show ?thesis
    using unchanged_scan_reuses(1,2) [OF assms(2,3,4) sub refl] RunChecks_result [of env' policy checks' eng1]
    by (cases "RunChecks env' policy checks' eng1") (auto simp: result_spec_def)
qed

section \<open>Adapters with proper verdicts\<close>

text \<open>
  The contract of an adapter: its verdicts are \<open>PASS\<close>, \<open>WARN\<close> or \<open>FAIL\<close>, whatever the tools
  answer.  Then all results are proper, also the reused ones.
\<close>

definition proper :: "string \<Rightarrow> bool" where
  "proper v \<longleftrightarrow> v = VerdictPass \<or> v = VerdictWarn \<or> v = VerdictFail"

definition engine_proper :: "Engine \<Rightarrow> bool" where
  "engine_proper eng \<longleftrightarrow> (\<forall>key prev i v. e_lastResults eng key = Some prev \<longrightarrow> prev i = Some v \<longrightarrow> proper v)"

abbreviation results_proper :: "CheckResultV1 list \<Rightarrow> bool" where
  "results_proper rs \<equiv> list_all (\<lambda>r. proper (cres_Verdict r)) rs"

lemma proper_fail [simp]: "proper VerdictFail"
  by (simp add: proper_def)

lemma engine_proper_New [simp]: "engine_proper New"
  by (simp add: engine_proper_def New_def)

lemma verdict_map_in: "verdict_map rs i = Some v \<Longrightarrow> v \<in> cres_Verdict ` set rs"
proof -
  have "fold (\<lambda>r m. m(cres_ID r \<mapsto> cres_Verdict r)) rs m i = Some v \<Longrightarrow> v \<in> cres_Verdict ` set rs \<or> m i = Some v" for m
    by (induction rs arbitrary: m) (fastforce split: if_splits)+
  then show "verdict_map rs i = Some v \<Longrightarrow> ?thesis" by (auto simp: verdict_map_def)
qed

locale proper_adapter =
  fixes A :: Adapter
  assumes verify_proper: "snd (run_session reg (Verify A now req) sc) = Inr resp \<Longrightarrow> proper (vp_Verdict resp)"
    and batch_proper: "snd (run_session reg (BatchVerify A now breq) sc) = Inr resps \<Longrightarrow>
      list_all (\<lambda>resp. proper (vp_Verdict resp)) resps"
begin

lemma single_results:
  assumes "cx_adapter cx = A"
  shows "results_proper (snd (verify_single cx c sc))"
  by (auto simp: verify_single_def ask_def base_result_def answered_result_def case_prod_beta Let_def assms
      dest!: verify_proper split: sum.split)

lemma many_results:
  assumes "cx_adapter cx = A"
  shows "results_proper (snd (verify_many cx batch sc))"
  by (auto simp: verify_many_def ask_def base_result_def answered_result_def batch_result_def case_prod_beta Let_def
      list_all_length nth_enumerate_eq assms dest!: batch_proper split: sum.split)

lemma batches_results:
  assumes "cx_adapter cx = A"
  shows "results_proper results \<Longrightarrow> results_proper (snd (run_batches cx checks i sc results))"
proof (induction i sc results rule: run_batches_rounds [of checks _ cx])
  case (round i sc results)
  have "results_proper (snd (round_of cx checks i sc))"
    using single_results [OF assms] many_results [OF assms]
    by (simp add: round_of_def verify_batch_def split: list.split)
  then show ?case using round by (simp add: run_batches_step(1))
qed (simp add: run_batches_step(2))

lemma scan_results:
  assumes "in_adapter env = A" and eng: "engine_proper eng"
    and run: "RunChecks env policy checks eng = (eng1, sc1, Inr spec)"
  shows "results_proper (rs_Checks spec) \<and> engine_proper eng1"
proof (cases "reusable eng (policyKey policy) (hashSnapshot (scan_snapshot env)) checks")
  case None
  have "results_proper (snd (fresh_scan env policy checks))"
    unfolding fresh_scan_def by (rule batches_results) (simp_all add: scan_cx_def assms(1))
  moreover from this have "proper v" if "verdict_map (snd (fresh_scan env policy checks)) i = Some v" for i v
    using verdict_map_in [OF that] by (auto simp: list_all_iff)
  ultimately show ?thesis using run eng
    by (auto simp: RunChecks_fresh [OF None] result_spec_def engine_proper_def split: if_splits)
next
  case (Some prev)
  then have p: "all_cached prev checks" "e_lastResults eng (policyKey policy) = Some prev"
    by (auto simp: reusable_def Let_def split: option.splits if_splits)
  have "proper (cres_Verdict (reused_result prev c))" if "c \<in> set checks" for c
    using that p eng by (auto simp: all_cached_def list_all_iff engine_proper_def reused_result_def base_result_def)
  then show ?thesis using run eng by (auto simp: RunChecks_reused [OF Some] result_spec_def list_all_iff)
qed

end

section \<open>Concrete scans\<close>

definition demo_check :: "string \<Rightarrow> CheckItemV1" where
  "demo_check i = \<lparr>ci_ID = i, ci_Description = ''d'', ci_Severity = ''warning''\<rparr>"

definition demo_policyV1 :: ChecklistPolicyV1 where
  "demo_policyV1 =
     \<lparr>cp_Meta = \<lparr>om_Name = ''p'', om_Namespace = ''ns'', om_UID = ''u'', om_Generation = 1, om_Labels = [], om_Annotations = [],
                 om_OwnerReferences = [], om_Finalizers = [], om_DeletionTimestamp = None\<rparr>,
      cp_Spec = \<lparr>ps_Schedule = \<lparr>sch_FullScan = ''0 * * * *'', sch_FailedRescan = []\<rparr>,
                 ps_LLM = \<lparr>llm_Provider = ''claude'', llm_Model = [], llm_SecretRef = \<lparr>sec_Name = ''s'', sec_Key = []\<rparr>\<rparr>,
                 ps_Checks = [demo_check ''a'', demo_check ''b''], ps_TargetNamespaces = [], ps_Notification = None,
                 ps_EscalationThreshold = None\<rparr>,
      cp_Status = \<lparr>pst_LastFullScanTime = None, pst_LastRescanTime = None, pst_LastResultName = [], pst_Summary = None,
                   pst_Conditions = []\<rparr>\<rparr>"

definition demo_env :: "Adapter \<Rightarrow> scan_input" where
  "demo_env a = \<lparr>in_adapter = a, in_registry = [], in_order = id, in_moment = 0, in_startedAt = 1, in_completedAt = 2\<rparr>"

definition passing :: Adapter where
  "passing =
     (let r = \<lparr>vp_Verdict = VerdictPass, vp_Reasoning = [], vp_ToolCalls = []\<rparr>
      in \<lparr>Verify = (\<lambda>now req. Return (Inr r)), BatchVerify = (\<lambda>now req. Return (Inr (map (\<lambda>c. r) (bv_Checks req))))\<rparr>)"

lemma demo_snapshot: "scan_snapshot (demo_env a) = scan_snapshot (demo_env b)"
  by (simp add: scan_snapshot_def demo_env_def)

theorem outage_is_remembered_witness:
  "\<exists>eng1 sc2 spec2. RunChecks (demo_env passing) demo_policyV1 [demo_check ''a''] eng1 = (eng1, sc2, Inr spec2)
    \<and> sc_asked sc2 = 0 \<and> list_all (\<lambda>r. cres_Verdict r = VerdictFail) (rs_Checks spec2)"
proof -
  let ?cs = "[demo_check ''a'', demo_check ''b'']" and ?env = "demo_env (unreachable ''down'')"
  obtain eng1 sc1 spec where run: "RunChecks ?env demo_policyV1 ?cs New = (eng1, sc1, Inr spec)"
    using RunChecks_result [of ?env demo_policyV1 ?cs New] by (metis prod.collapse)
  have "in_adapter ?env = unreachable ''down''" by (simp add: demo_env_def)
  from outage_is_remembered [OF this run demo_snapshot [of passing], of "[demo_check ''a'']"] show ?thesis by auto
qed

theorem unchanged_snapshot_repeats_witness:
  "\<exists>eng1 sc2 spec2. RunChecks (demo_env (unreachable ''down'')) demo_policyV1 [demo_check ''b''] eng1 = (eng1, sc2, Inr spec2)
    \<and> sc_asked sc2 = 0 \<and> length (rs_Checks spec2) = 1"
proof -
  let ?cs = "[demo_check ''a'', demo_check ''b'']"
  obtain eng1 sc1 spec where run: "RunChecks (demo_env passing) demo_policyV1 ?cs New = (eng1, sc1, Inr spec)"
    using RunChecks_result [of "demo_env passing" demo_policyV1 ?cs New] by (metis prod.collapse)
  from unchanged_snapshot_repeats [OF run demo_snapshot [of "unreachable ''down''"], of "[demo_check ''b'']"]
  obtain sc2 spec2 where r: "RunChecks (demo_env (unreachable ''down'')) demo_policyV1 [demo_check ''b''] eng1 = (eng1, sc2, Inr spec2)"
    "sc_asked sc2 = 0" "map cres_Verdict (rs_Checks spec2) = map (\<lambda>c. the (verdict_map (rs_Checks spec) (ci_ID c))) [demo_check ''b'']"
    by auto
  have "length (rs_Checks spec2) = 1" using arg_cong [OF r(3), of length] by simp
  with r show ?thesis by blast
qed

end
