(* ===== verification/GoLib.thy ===== *)
theory GoLib
  imports JsLib
begin

text \<open>
  The functions of Go's \<open>strings\<close> package that the operator and the API server use.  A Go string
  is a sequence of bytes; case is changed for ASCII letters.  \<open>HasPrefix\<close> and \<open>Contains\<close> are
  \<open>startsWith\<close> and \<open>str_includes\<close> of \<open>JsLib\<close>, and \<open>ToUpper\<close> is its \<open>toUpperCase\<close>.
\<close>

definition lower_ascii :: "char \<Rightarrow> char" where
  "lower_ascii c = (let n = of_char c :: nat in if 65 \<le> n \<and> n \<le> 90 then char_of (n + 32) else c)"

definition ToLower :: "string \<Rightarrow> string" where
  "ToLower s = map lower_ascii s"

fun go_Index :: "string \<Rightarrow> string \<Rightarrow> nat option" where
  "go_Index s sub =
     (if startsWith s sub then Some 0
      else case s of [] \<Rightarrow> None | c # s' \<Rightarrow> map_option Suc (go_Index s' sub))"

declare go_Index.simps [simp del]

definition go_white :: "char \<Rightarrow> bool" where
  "go_white c \<longleftrightarrow> c \<in> {CHR '' '', CHR 0x09, CHR 0x0A, CHR 0x0B, CHR 0x0C, CHR 0x0D}"

definition TrimSpace :: "string \<Rightarrow> string" where
  "TrimSpace s = rev (dropWhile go_white (rev (dropWhile go_white s)))"

definition TrimPrefix :: "string \<Rightarrow> string \<Rightarrow> string" where
  "TrimPrefix s p = (if startsWith s p then drop (length p) s else s)"

text \<open>\<open>strings.SplitN(s, sep, n)\<close> for a single separator byte and \<open>n > 0\<close>.\<close>

fun SplitN :: "nat \<Rightarrow> char \<Rightarrow> string \<Rightarrow> string list" where
  "SplitN 0 c s = []"
| "SplitN (Suc 0) c s = [s]"
| "SplitN (Suc (Suc n)) c s =
     (if c \<in> set s then takeWhile (\<lambda>d. d \<noteq> c) s # SplitN (Suc n) c (tl (dropWhile (\<lambda>d. d \<noteq> c) s)) else [s])"

text \<open>\<open>%q\<close>: a quoted Go string; bytes from 128 on are taken to be parts of printable characters.\<close>

definition lower_hex :: "nat \<Rightarrow> char" where
  "lower_hex d = (if d < 10 then char_of (48 + d) else char_of (87 + d))"

definition go_quote_unit :: "char \<Rightarrow> string" where
  "go_quote_unit c =
     (let n = of_char c :: nat
      in if n = 34 then [CHR 0x5C, CHR 0x22] else if n = 92 then [CHR 0x5C, CHR 0x5C]
         else if n = 7 then [CHR 0x5C, CHR ''a''] else if n = 8 then [CHR 0x5C, CHR ''b'']
         else if n = 12 then [CHR 0x5C, CHR ''f''] else if n = 10 then [CHR 0x5C, CHR ''n'']
         else if n = 13 then [CHR 0x5C, CHR ''r''] else if n = 9 then [CHR 0x5C, CHR ''t'']
         else if n = 11 then [CHR 0x5C, CHR ''v'']
         else if n < 32 \<or> n = 127 then [CHR 0x5C, CHR ''x'', lower_hex (n div 16), lower_hex (n mod 16)]
         else [c])"

definition go_quote :: "string \<Rightarrow> string" where
  "go_quote s = [CHR 0x22] @ concat (map go_quote_unit s) @ [CHR 0x22]"

lemma go_Index_None: "go_Index s sub = None \<longleftrightarrow> \<not> str_includes s sub"
  by (induction s) (simp_all add: go_Index.simps [of "_ # _"] go_Index.simps [of "[]"] startsWith_prefix str_includes_sublist
      sublist_Cons_right)

lemma go_Index_first:
  assumes "\<not> str_includes (pre @ butlast sub) sub" "sub \<noteq> []"
  shows "go_Index (pre @ sub @ post) sub = Some (length pre)"
  using assms(1)
proof (induction pre)
  case Nil
  then show ?case by (simp add: go_Index.simps)
next
  case (Cons c pre)
  have "\<not> prefix sub (c # pre @ sub @ post)"
  proof
    assume p: "prefix sub (c # pre @ sub @ post)"
    have "length sub \<le> length (c # pre @ butlast sub)" by simp
    moreover have "c # pre @ sub @ post = (c # pre @ butlast sub) @ [last sub] @ post"
      using assms(2) by simp
    ultimately have "prefix sub (c # pre @ butlast sub)" using p by (metis prefix_length_prefix prefixI)
    then show False using Cons.prems by (simp add: str_includes_sublist prefix_imp_sublist)
  qed
  moreover have "\<not> str_includes (pre @ butlast sub) sub"
    using Cons.prems by (simp add: str_includes_sublist sublist_Cons_right)
  ultimately show ?case using Cons.IH by (simp add: go_Index.simps [of "_ # _"] startsWith_prefix)
qed

lemma upper_append [simp]: "toUpperCase (s @ t) = toUpperCase s @ toUpperCase t"
  by (simp add: toUpperCase_def)

lemma includes_append: "str_includes s (x @ y) \<Longrightarrow> str_includes s y"
  by (meson str_includes_sublist sublist_append_leftI sublist_order.order_trans)

lemma TrimSpace_prefix:
  assumes "w \<noteq> []" "\<not> go_white (hd w)" "\<not> go_white (last w)" "list_all go_white sp"
  shows "prefix w (TrimSpace (sp @ w @ post))"
proof -
  have d: "dropWhile go_white (sp @ w @ post) = w @ post"
    using assms(1,2,4) by (induction sp) (cases w; simp)+
  have "\<exists>r. rev (dropWhile go_white (rev post @ rev w)) = w @ r"
  proof (induction post rule: rev_induct)
    case Nil
    have "dropWhile go_white (rev w) = rev w" using assms(1,3) by (cases w rule: rev_cases) simp_all
    then show ?case by simp
  qed auto
  then show ?thesis by (auto simp: TrimSpace_def d prefix_def)
qed

lemma lower_no_upper:
  assumes "65 \<le> (of_char u :: nat)" "(of_char u :: nat) \<le> 90"
  shows "u \<notin> set (ToLower s)"
proof -
  have "lower_ascii c \<noteq> u" for c
  proof
    assume "lower_ascii c = u"
    then have "(of_char (lower_ascii c) :: nat) = of_char u" by simp
    then show False using assms by (auto simp: lower_ascii_def Let_def split: if_splits)
  qed
  then show ?thesis by (auto simp: ToLower_def)
qed

end
