(* ===== verification/Scheduler.thy ===== *)
theory Scheduler
  imports AlertStore Engine GoLib
begin

text \<open>
  \<open>operator/internal/scheduler/scheduler.go\<close> with the dispatcher of
  \<open>operator/internal/notify/notifier.go\<close>: a scan of a policy, what it records in the alert
  store, whom it notifies, and what it writes to the cluster.

  The cluster is a parameter: the answers of its API to the calls of a scan.  What the scan asks
  for is a list of effects.  \<open>meta.SetStatusCondition\<close>, which puts a condition into a list, is a
  parameter too; \<open>sets_conditions\<close> states what its documentation promises.
\<close>

section \<open>Notifications\<close>

record Event =
  ev_PolicyRef :: string
  ev_CheckID :: string
  ev_Description :: string
  ev_Severity :: string
  ev_Verdict :: string
  ev_Reasoning :: string
  ev_Transition :: Transition

text \<open>A notifier with its answer to an event: the error, if there is one.\<close>

record Notifier =
  nf_Name :: string
  nf_Send :: "Event \<Rightarrow> string option"

type_synonym Dispatcher = "Notifier list"

datatype effect =
    Sent string Event
  | CreateResult ChecklistResultV1
  | UpdateStatus ChecklistPolicyV1

fun dispatch_loop :: "Notifier list \<Rightarrow> Event \<Rightarrow> effect list \<Rightarrow> string list \<Rightarrow> effect list \<times> string list" where
  "dispatch_loop [] event effs errs = (effs, errs)"
| "dispatch_loop (n # ns) event effs errs =
     dispatch_loop ns event (effs @ [Sent (nf_Name n) event])
       (case nf_Send n event of None \<Rightarrow> errs | Some err \<Rightarrow> errs @ [err])"

definition Dispatch :: "Dispatcher \<Rightarrow> Event \<Rightarrow> effect list \<times> string list" where
  "Dispatch d event = dispatch_loop d event [] []"

section \<open>Processing results\<close>

text \<open>
  The results of a scan go through the alert store one by one; \<open>clock\<close> gives the time at which
  each is recorded.
\<close>

definition process_result ::
  "Dispatcher \<Rightarrow> string \<Rightarrow> int \<Rightarrow> CheckResultV1 \<Rightarrow> Store \<Rightarrow> Store \<times> CheckResultV1 \<times> effect list" where
  "process_result d policyName now check store =
     (let (store1, check1, transition) =
            (if cres_Verdict check = VerdictFail then
               (let (s1, tr) = RecordFail now policyName (cres_ID check) store
                in (s1, (case GetState s1 policyName (cres_ID check) of
                           None \<Rightarrow> check
                         | Some cs \<Rightarrow> check\<lparr>cres_FailedSince := Some (FailedSince cs)\<rparr>), tr))
             else if cres_Verdict check = VerdictPass then
               (let (s1, tr) = RecordPass now policyName (cres_ID check) store in (s1, check, tr))
             else (store, check, None))
      in (store1, check1,
          (case transition of
             None \<Rightarrow> []
           | Some tr \<Rightarrow>
               fst (Dispatch d \<lparr>ev_PolicyRef = policyName, ev_CheckID = cres_ID check1, ev_Description = cres_Description check1,
                                ev_Severity = cres_Severity check1, ev_Verdict = cres_Verdict check1,
                                ev_Reasoning = cres_Reasoning check1, ev_Transition = tr\<rparr>))))"

fun process_loop ::
  "Dispatcher \<Rightarrow> string \<Rightarrow> (nat \<Rightarrow> int) \<Rightarrow> nat \<Rightarrow> CheckResultV1 list \<Rightarrow> Store \<Rightarrow> Store \<times> CheckResultV1 list \<times> effect list" where
  "process_loop d p clock i [] store = (store, [], [])"
| "process_loop d p clock i (check # checks) store =
     (let (store1, check1, effs) = process_result d p (clock i) check store;
          (store2, checks2, effs2) = process_loop d p clock (i + 1) checks store1
      in (store2, check1 # checks2, effs @ effs2))"

definition processResults ::
  "Dispatcher \<Rightarrow> ChecklistPolicyV1 \<Rightarrow> (nat \<Rightarrow> int) \<Rightarrow> ChecklistResultSpec \<Rightarrow> Store \<Rightarrow> Store \<times> ChecklistResultSpec \<times> effect list" where
  "processResults d policy clock spec store =
     (let (store1, checks, effs) = process_loop d (cp_Name policy) clock 0 (rs_Checks spec) store
      in (store1, spec\<lparr>rs_Checks := checks\<rparr>, effs))"

section \<open>Writing to the cluster\<close>

type_synonym set_condition = "ConditionV1 \<Rightarrow> ConditionV1 list \<Rightarrow> ConditionV1 list"

text \<open>The answers of the cluster and the clock during one scan.\<close>

record scan_world =
  sw_timestamp :: "int \<Rightarrow> string"
  sw_clock :: "nat \<Rightarrow> int"
  sw_createNow :: int
  sw_statusNow :: int
  sw_create :: "ChecklistResultV1 \<Rightarrow> string option"
  sw_get :: "string + ChecklistPolicyV1"
  sw_status :: "ChecklistPolicyV1 \<Rightarrow> string option"
  sw_setCondition :: set_condition

definition result_of :: "scan_world \<Rightarrow> ChecklistPolicyV1 \<Rightarrow> ChecklistResultSpec \<Rightarrow> ChecklistResultV1" where
  "result_of w policy spec =
     \<lparr>cr_Meta = \<lparr>om_Name = ToLower (GenerateResultName (sw_timestamp w) (sw_createNow w) (cp_Name policy) (rs_ScanType spec)),
                 om_Namespace = cp_Namespace policy, om_UID = [], om_Generation = 0,
                 om_Labels = [(''dtm.io/policy'', cp_Name policy)], om_Annotations = [],
                 om_OwnerReferences = [\<lparr>or_APIVersion = ''dtm.dtm.io/v1alpha1'', or_Kind = ''ChecklistPolicy'',
                                        or_Name = cp_Name policy, or_UID = om_UID (cp_Meta policy)\<rparr>],
                 om_Finalizers = [], om_DeletionTimestamp = None\<rparr>,
      cr_Spec = spec, cr_Phase = ''Completed''\<rparr>"

definition createResult :: "scan_world \<Rightarrow> ChecklistPolicyV1 \<Rightarrow> ChecklistResultSpec \<Rightarrow> effect list \<times> string option" where
  "createResult w policy spec =
     (let result = result_of w policy spec
      in ([CreateResult result], map_option (\<lambda>e. ''creating ChecklistResult: '' @ e) (sw_create w result)))"

definition condition :: "string \<Rightarrow> string \<Rightarrow> string \<Rightarrow> string \<Rightarrow> int \<Rightarrow> ConditionV1" where
  "condition ty st reason msg t =
     \<lparr>cond_Type = ty, cond_Status = st, cond_Reason = reason, cond_Message = msg, cond_LastTransitionTime = t\<rparr>"

definition scan_message :: "ScanSummary \<Rightarrow> string" where
  "scan_message s =
     ''Last scan: '' @ dec (sint (sum_Pass s)) @ '' pass, '' @ dec (sint (sum_Warn s)) @ '' warn, '' @ dec (sint (sum_Fail s)) @ '' fail''"

definition scan_conditions :: "set_condition \<Rightarrow> int \<Rightarrow> ScanSummary \<Rightarrow> ConditionV1 list \<Rightarrow> ConditionV1 list" where
  "scan_conditions setCond now summary cs =
     (let msg = scan_message summary
      in if 0 < sint (sum_Fail summary)
         then setCond (condition ''Available'' ''False'' ''ChecksFailed'' msg now)
                (setCond (condition ''Degraded'' ''True'' ''ChecksFailed'' msg now) cs)
         else setCond (condition ''Degraded'' ''False'' ''ScanCompleted'' msg now)
                (setCond (condition ''Available'' ''True'' ''ScanCompleted'' msg now) cs))"

definition updatePolicyStatus :: "scan_world \<Rightarrow> ChecklistPolicyV1 \<Rightarrow> ChecklistResultSpec \<Rightarrow> effect list \<times> string option" where
  "updatePolicyStatus w policy0 spec =
     (case sw_get w of
        Inl err \<Rightarrow> ([], Some (''fetching latest policy: '' @ err))
      | Inr policy \<Rightarrow>
          (let now = sw_statusNow w;
               st = cp_Status policy;
               st1 = (if rs_ScanType spec = ScanTypeFull then st\<lparr>pst_LastFullScanTime := Some now\<rparr>
                      else st\<lparr>pst_LastRescanTime := Some now\<rparr>);
               st2 = st1\<lparr>pst_Summary := rs_Summary spec,
                         pst_LastResultName := GenerateResultName (sw_timestamp w) now (cp_Name policy0) (rs_ScanType spec)\<rparr>
           in case rs_Summary spec of
                None \<Rightarrow> ([], Some ''runtime error: invalid memory address or nil pointer dereference'')
              | Some summary \<Rightarrow>
                  (let policy1 = policy\<lparr>cp_Status := st2\<lparr>pst_Conditions := scan_conditions (sw_setCondition w) now summary (pst_Conditions st2)\<rparr>\<rparr>
                   in ([UpdateStatus policy1], sw_status w policy1))))"

definition setDegradedCondition :: "scan_world \<Rightarrow> string \<Rightarrow> string \<Rightarrow> effect list" where
  "setDegradedCondition w reason message =
     (case sw_get w of
        Inl err \<Rightarrow> []
      | Inr policy \<Rightarrow>
          (let st = cp_Status policy; now = sw_statusNow w
           in [UpdateStatus (policy\<lparr>cp_Status := st\<lparr>pst_Conditions :=
                 sw_setCondition w (condition ''Available'' ''False'' reason message now)
                   (sw_setCondition w (condition ''Degraded'' ''True'' reason message now) (pst_Conditions st))\<rparr>\<rparr>)]))"

section \<open>Scans\<close>

text \<open>The state that scans change: the engine of the scheduler and the store shared by all.\<close>

record scan_state =
  ss_engine :: Engine
  ss_store :: Store

record Scheduler =
  sd_policy :: ChecklistPolicyV1
  sd_dispatcher :: Dispatcher

definition runFullScan :: "Scheduler \<Rightarrow> scan_input \<Rightarrow> scan_world \<Rightarrow> scan_state \<Rightarrow> scan_state \<times> effect list" where
  "runFullScan s env w st =
     (let (eng1, sc, outcome) = RunChecks env (sd_policy s) (ps_Checks (cp_Spec (sd_policy s))) (ss_engine st)
      in case outcome of
           Inl err \<Rightarrow> (st\<lparr>ss_engine := eng1\<rparr>, setDegradedCondition w ''LLMError'' (''Full scan failed: '' @ err))
         | Inr spec0 \<Rightarrow>
             (let (store1, spec, effs) = processResults (sd_dispatcher s) (sd_policy s) (sw_clock w) (spec0\<lparr>rs_ScanType := ScanTypeFull\<rparr>) (ss_store st);
                  (created, failure) = createResult w (sd_policy s) spec
              in (\<lparr>ss_engine = eng1, ss_store = store1\<rparr>,
                  effs @ created @ (if failure = None then fst (updatePolicyStatus w (sd_policy s) spec) else []))))"

definition checks_to_rescan :: "string list \<Rightarrow> CheckItemV1 list \<Rightarrow> CheckItemV1 list" where
  "checks_to_rescan failedIDs checks = filter (\<lambda>check. ci_ID check \<in> set failedIDs) checks"

definition runRescan ::
  "((string \<times> CheckState) list \<Rightarrow> (string \<times> CheckState) list) \<Rightarrow> Scheduler \<Rightarrow> scan_input \<Rightarrow> scan_world \<Rightarrow> scan_state \<Rightarrow> scan_state \<times> effect list" where
  "runRescan it s env w st =
     (let failedIDs = FailedChecks it (ss_store st) (cp_Name (sd_policy s))
      in if length failedIDs = 0 then (st, [])
         else
           let (eng1, sc, outcome) =
                 RunChecks env (sd_policy s) (checks_to_rescan failedIDs (ps_Checks (cp_Spec (sd_policy s)))) (ss_engine st)
           in case outcome of
                Inl err \<Rightarrow> (st\<lparr>ss_engine := eng1\<rparr>, setDegradedCondition w ''LLMError'' (''Rescan failed: '' @ err))
              | Inr spec0 \<Rightarrow>
                  (let (store1, spec, effs) = processResults (sd_dispatcher s) (sd_policy s) (sw_clock w) (spec0\<lparr>rs_ScanType := ScanTypeRescan\<rparr>) (ss_store st)
                   in (\<lparr>ss_engine = eng1, ss_store = store1\<rparr>, effs @ fst (createResult w (sd_policy s) spec))))"

section \<open>Scans and the history of alerts\<close>

text \<open>The verdicts that a list of results records.\<close>

fun recorded :: "string \<Rightarrow> (nat \<Rightarrow> int) \<Rightarrow> nat \<Rightarrow> CheckResultV1 list \<Rightarrow> ((string \<times> string) \<times> alert_event) list" where
  "recorded p clock i [] = []"
| "recorded p clock i (c # cs) =
     (if cres_Verdict c = VerdictFail then [((p, cres_ID c), Failed (clock i))]
      else if cres_Verdict c = VerdictPass then [((p, cres_ID c), Passed (clock i))] else [])
     @ recorded p clock (i + 1) cs"

lemma dispatch_loop_eq:
  "fst (dispatch_loop ns ev effs errs) = effs @ map (\<lambda>n. Sent (nf_Name n) ev) ns"
  by (induction ns arbitrary: effs errs) simp_all

lemma Dispatch_eq: "fst (Dispatch d ev) = map (\<lambda>n. Sent (nf_Name n) ev) d"
  by (simp add: Dispatch_def dispatch_loop_eq)

lemma process_result_eq:
  "process_result d p now check store =
     (let k = (p, cres_ID check); v = cres_Verdict check;
          out = (if v = VerdictFail then record_event k (Failed now) store
                 else if v = VerdictPass then record_event k (Passed now) store else (store, None));
          check1 = (if v = VerdictFail then check\<lparr>cres_FailedSince := map_option FailedSince (GetState (fst out) p (cres_ID check))\<rparr>
                    else check)
      in (fst out, check1,
          (case snd out of None \<Rightarrow> []
           | Some tr \<Rightarrow> map (\<lambda>n. Sent (nf_Name n) \<lparr>ev_PolicyRef = p, ev_CheckID = cres_ID check, ev_Description = cres_Description check,
                           ev_Severity = cres_Severity check, ev_Verdict = v, ev_Reasoning = cres_Reasoning check, ev_Transition = tr\<rparr>) d)))"
proof -
  obtain cs where "GetState (fst (RecordFail now p (cres_ID check) store)) p (cres_ID check) = Some cs"
    by (simp add: RecordFail_def case_prod_beta Let_def)
  then show ?thesis
    by (auto simp: process_result_def record_event_def case_prod_beta Let_def Dispatch_eq split: option.split)
qed

lemma run_keyed_append:
  "fst (run_keyed step (xs @ ys) s) = fst (run_keyed step ys (fst (run_keyed step xs s)))"
  "snd (run_keyed step (xs @ ys) s) = snd (run_keyed step xs s) @ snd (run_keyed step ys (fst (run_keyed step xs s)))"
  by (induction xs arbitrary: s) (auto simp: run_keyed_step simp del: run_keyed.simps(2))

text \<open>Who was sent which transition, in order.\<close>

fun sent_log :: "effect list \<Rightarrow> (string \<times> Transition) list" where
  "sent_log [] = []"
| "sent_log (Sent n ev # es) = (n, ev_Transition ev) # sent_log es"
| "sent_log (_ # es) = sent_log es"

lemma sent_log_append [simp]: "sent_log (xs @ ys) = sent_log xs @ sent_log ys"
  by (induction xs rule: sent_log.induct) simp_all

lemma sent_log_map [simp]: "sent_log (map (\<lambda>n. Sent (nf_Name n) ev) d) = map (\<lambda>n. (nf_Name n, ev_Transition ev)) d"
  by (induction d) simp_all

lemma process_loop_step:
  "fst (process_loop d p clock i (c # cs) s) = fst (process_loop d p clock (i + 1) cs (fst (process_result d p (clock i) c s)))"
  "fst (snd (process_loop d p clock i (c # cs) s)) =
     fst (snd (process_result d p (clock i) c s)) # fst (snd (process_loop d p clock (i + 1) cs (fst (process_result d p (clock i) c s))))"
  "snd (snd (process_loop d p clock i (c # cs) s)) =
     snd (snd (process_result d p (clock i) c s)) @ snd (snd (process_loop d p clock (i + 1) cs (fst (process_result d p (clock i) c s))))"
  by (simp_all add: case_prod_beta Let_def)

lemma process_result_recorded:
  "fst (process_result d p (clock i) c s) = fst (run_keyed record_event (recorded p clock i [c]) s)"
  "sent_log (snd (snd (process_result d p (clock i) c s))) =
     concat (map (\<lambda>(k, tr). map (\<lambda>n. (nf_Name n, tr)) d) (snd (run_keyed record_event (recorded p clock i [c]) s)))"
  by (auto simp: process_result_eq Let_def case_prod_beta split: option.split)

lemma recorded_Cons: "recorded p clock i (c # cs) = recorded p clock i [c] @ recorded p clock (i + 1) cs"
  by simp

lemma process_loop_recorded:
  "fst (process_loop d p clock i cs s) = fst (run_keyed record_event (recorded p clock i cs) s) \<and>
   sent_log (snd (snd (process_loop d p clock i cs s))) =
     concat (map (\<lambda>(k, tr). map (\<lambda>n. (nf_Name n, tr)) d) (snd (run_keyed record_event (recorded p clock i cs) s)))"
proof (induction cs arbitrary: i s)
  case (Cons c cs)
  show ?case using Cons.IH [of "i + 1" "fst (process_result d p (clock i) c s)"]
    unfolding process_loop_step recorded_Cons [of p clock i c cs] run_keyed_append
    by (simp only: process_result_recorded sent_log_append map_append concat_append simp_thms)
qed simp

text \<open>A sequence of scans, of any policies and with any dispatchers, on the one store.\<close>

record done_scan =
  dn_dispatcher :: Dispatcher
  dn_policy :: ChecklistPolicyV1
  dn_clock :: "nat \<Rightarrow> int"
  dn_spec :: ChecklistResultSpec

fun store_after :: "done_scan list \<Rightarrow> Store \<Rightarrow> Store" where
  "store_after [] s = s"
| "store_after (x # xs) s =
     store_after xs (fst (processResults (dn_dispatcher x) (dn_policy x) (dn_clock x) (dn_spec x) s))"

definition history_of :: "done_scan list \<Rightarrow> ((string \<times> string) \<times> alert_event) list" where
  "history_of xs = concat (map (\<lambda>x. recorded (cp_Name (dn_policy x)) (dn_clock x) 0 (rs_Checks (dn_spec x))) xs)"

lemma processResults_store:
  "fst (processResults d policy clock spec s) = fst (run_keyed record_event (recorded (cp_Name policy) clock 0 (rs_Checks spec)) s)"
  "sent_log (snd (snd (processResults d policy clock spec s))) =
     concat (map (\<lambda>(k, tr). map (\<lambda>n. (nf_Name n, tr)) d) (snd (run_keyed record_event (recorded (cp_Name policy) clock 0 (rs_Checks spec)) s)))"
  using process_loop_recorded [of d "cp_Name policy" clock 0 "rs_Checks spec" s]
  by (simp_all add: processResults_def case_prod_beta Let_def)

lemma store_after_history: "store_after xs s = fst (run_keyed record_event (history_of xs) s)"
  by (induction xs arbitrary: s) (simp_all add: history_of_def processResults_store run_keyed_append)

text \<open>
  C1: after any sequence of scans the alert state of a check is the one its verdicts call for:
  failures and passes count, warnings leave everything as it is.
\<close>

theorem alerts_follow_verdicts:
  "GetState (store_after xs (NewStore n)) p c =
     (let h = of_key (p, c) (history_of xs) in if h = [] then None else Some (alert_spec (effective_threshold n) h))"
  by (simp add: store_after_history get_after_run)

text \<open>
  C20: the notifications of a scan are exactly the transitions its verdicts cause in the store, in
  the order of the checks, each sent once to every notifier, whether or not another one fails.
\<close>

theorem notifications_are_transitions:
  "sent_log (snd (snd (processResults d policy clock spec s))) =
     concat (map (\<lambda>(k, tr). map (\<lambda>n. (nf_Name n, tr)) d)
       (snd (run_keyed record_event (recorded (cp_Name policy) clock 0 (rs_Checks spec)) s)))"
  by (rule processResults_store(2))

text \<open>A failed result carries the time since when the check has been failing.\<close>

lemma process_result_since:
  assumes "cres_Verdict c = VerdictFail"
  shows "cres_FailedSince (fst (snd (process_result d p now c s))) =
    map_option FailedSince (GetState (fst (process_result d p now c s)) p (cres_ID c))"
  by (simp add: process_result_eq assms Let_def)

lemma process_result_same:
  "check_of (fst (snd (process_result d p now c s))) = check_of c"
  "cres_Verdict (fst (snd (process_result d p now c s))) = cres_Verdict c"
  by (simp_all add: process_result_eq check_of_def Let_def)

lemma process_loop_same:
  "map check_of (fst (snd (process_loop d p clock i cs s))) = map check_of cs"
  "map cres_Verdict (fst (snd (process_loop d p clock i cs s))) = map cres_Verdict cs"
  by (induction cs arbitrary: i s)
    (simp_all add: process_loop_step process_result_same del: process_loop.simps(2))

lemma processResults_same:
  "map check_of (rs_Checks (fst (snd (processResults d policy clock spec s)))) = map check_of (rs_Checks spec)"
  "map cres_Verdict (rs_Checks (fst (snd (processResults d policy clock spec s)))) = map cres_Verdict (rs_Checks spec)"
  "rs_ScanType (fst (snd (processResults d policy clock spec s))) = rs_ScanType spec"
  "rs_Summary (fst (snd (processResults d policy clock spec s))) = rs_Summary spec"
  by (simp_all add: processResults_def process_loop_same case_prod_beta Let_def)

section \<open>Rescans\<close>

lemma createResult_eq:
  "fst (createResult w policy spec) = [CreateResult (result_of w policy spec)]"
  "snd (createResult w policy spec) = None \<longleftrightarrow> sw_create w (result_of w policy spec) = None"
  by (simp_all add: createResult_def Let_def)

lemma result_of_simps [simp]:
  "cr_Spec (result_of w policy spec) = spec"
  "om_Name (cr_Meta (result_of w policy spec)) =
     ToLower (GenerateResultName (sw_timestamp w) (sw_createNow w) (cp_Name policy) (rs_ScanType spec))"
  "om_Namespace (cr_Meta (result_of w policy spec)) = cp_Namespace policy"
  by (simp_all add: result_of_def)

fun created :: "effect list \<Rightarrow> ChecklistResultV1 list" where
  "created [] = []"
| "created (CreateResult r # es) = r # created es"
| "created (_ # es) = created es"

fun status_updates :: "effect list \<Rightarrow> ChecklistPolicyV1 list" where
  "status_updates [] = []"
| "status_updates (UpdateStatus p # es) = p # status_updates es"
| "status_updates (_ # es) = status_updates es"

lemma effects_append [simp]:
  "created (xs @ ys) = created xs @ created ys" "status_updates (xs @ ys) = status_updates xs @ status_updates ys"
  by (induction xs rule: created.induct) simp_all

lemma sent_effects [simp]:
  "created (map (\<lambda>n. Sent (nf_Name n) ev) ns) = []" "status_updates (map (\<lambda>n. Sent (nf_Name n) ev) ns) = []"
  by (induction ns) simp_all

lemma process_result_effects [simp]:
  "created (snd (snd (process_result d p now c s))) = []"
  "status_updates (snd (snd (process_result d p now c s))) = []"
  by (simp_all add: process_result_eq Let_def split: option.split)

lemma process_effects:
  "created (snd (snd (process_loop d p clock i cs s))) = []"
  "status_updates (snd (snd (process_loop d p clock i cs s))) = []"
  by (induction cs arbitrary: i s) (simp_all add: process_loop_step del: process_loop.simps(2))

lemma processResults_effects:
  "created (snd (snd (processResults d policy clock spec s))) = []"
  "status_updates (snd (snd (processResults d policy clock spec s))) = []"
  by (simp_all add: processResults_def process_effects case_prod_beta Let_def)

text \<open>A scan in terms of its results.\<close>

definition processed ::
  "Scheduler \<Rightarrow> scan_input \<Rightarrow> scan_world \<Rightarrow> string \<Rightarrow> CheckItemV1 list \<Rightarrow> scan_state \<Rightarrow> Store \<times> ChecklistResultSpec \<times> effect list" where
  "processed s env w ty checks st =
     processResults (sd_dispatcher s) (sd_policy s) (sw_clock w)
       ((result_spec (sd_policy s) (in_startedAt env) (in_completedAt env) (run_results env (sd_policy s) checks (ss_engine st)))\<lparr>rs_ScanType := ty\<rparr>)
       (ss_store st)"

lemma RunChecks_split:
  "RunChecks env policy checks eng =
     (fst (RunChecks env policy checks eng), fst (snd (RunChecks env policy checks eng)),
      Inr (result_spec policy (in_startedAt env) (in_completedAt env) (run_results env policy checks eng)))"
  by (metis RunChecks_result prod.collapse)

lemma runFullScan_eq:
  "runFullScan s env w st =
     (let checks = ps_Checks (cp_Spec (sd_policy s)); pr = processed s env w ScanTypeFull checks st
      in (\<lparr>ss_engine = fst (RunChecks env (sd_policy s) checks (ss_engine st)), ss_store = fst pr\<rparr>,
          snd (snd pr) @ fst (createResult w (sd_policy s) (fst (snd pr)))
            @ (if snd (createResult w (sd_policy s) (fst (snd pr))) = None
               then fst (updatePolicyStatus w (sd_policy s) (fst (snd pr))) else [])))"
  unfolding runFullScan_def
  by (subst RunChecks_split) (simp add: processed_def case_prod_beta Let_def)

lemma runRescan_eq:
  "FailedChecks it (ss_store st) (cp_Name (sd_policy s)) = [] \<Longrightarrow> runRescan it s env w st = (st, [])"
  "FailedChecks it (ss_store st) (cp_Name (sd_policy s)) \<noteq> [] \<Longrightarrow> runRescan it s env w st =
     (let checks = checks_to_rescan (FailedChecks it (ss_store st) (cp_Name (sd_policy s))) (ps_Checks (cp_Spec (sd_policy s)));
          pr = processed s env w ScanTypeRescan checks st
      in (\<lparr>ss_engine = fst (RunChecks env (sd_policy s) checks (ss_engine st)), ss_store = fst pr\<rparr>,
          snd (snd pr) @ [CreateResult (result_of w (sd_policy s) (fst (snd pr)))]))"
   apply (simp add: runRescan_def)
  unfolding runRescan_def
  by (subst RunChecks_split) (simp add: processed_def createResult_eq case_prod_beta Let_def)

lemma processed_ids:
  "map cres_ID (rs_Checks (fst (snd (processed s env w ty checks st)))) = map ci_ID checks"
proof -
  have "map check_of (rs_Checks (fst (snd (processed s env w ty checks st)))) = map item_of checks"
    by (simp add: processed_def processResults_same result_spec_def run_results_checks)
  from arg_cong [OF this, of "map fst"] show ?thesis by (simp add: check_of_def item_of_def o_def)
qed

lemma processed_effects [simp]:
  "created (snd (snd (processed s env w ty checks st))) = []"
  "status_updates (snd (snd (processed s env w ty checks st))) = []"
  by (simp_all add: processed_def processResults_effects)

definition failing_now :: "done_scan list \<Rightarrow> string \<Rightarrow> string \<Rightarrow> bool" where
  "failing_now xs p c \<longleftrightarrow>
     (let h = of_key (p, c) (history_of xs) in h \<noteq> [] \<and> is_Failed (last h))"

lemma FailedChecks_after:
  assumes "\<And>m. mset (it m) = mset m"
  shows "set (FailedChecks it (store_after xs (NewStore n)) p) = {c. failing_now xs p c}"
proof -
  let ?s = "fst (run_keyed record_event (history_of xs) (NewStore n))"
  have "set (FailedChecks it ?s p) = {c. \<exists>cs. GetState ?s p c = Some cs \<and> failing cs}"
    using FailedChecks_spec [OF assms store_ok_run [OF store_ok_new]] by blast
  also have "\<dots> = {c. failing_now xs p c}"
    by (auto simp: get_after_run AlertStore.failing_now failing_now_def Let_def split: if_splits)
  finally show ?thesis by (simp add: store_after_history)
qed

text \<open>
  C19: when some check id recorded under the name of the policy is failing, a rescan writes one
  result, for exactly the checks of the policy whose latest verdict was a failure, in the order of the
  policy; the result has no checks when the failing ids are all those of checks the policy no
  longer has.  When no id recorded under that name is failing, a rescan does nothing.
\<close>

theorem rescan_covers_failing:
  assumes "\<And>m. mset (it m) = mset m" and "ss_store st = store_after xs (NewStore n)"
  shows "if \<exists>c. failing_now xs (cp_Name (sd_policy s)) c
    then \<exists>r. created (snd (runRescan it s env w st)) = [r]
      \<and> map cres_ID (rs_Checks (cr_Spec r)) =
          map ci_ID (filter (\<lambda>c. failing_now xs (cp_Name (sd_policy s)) (ci_ID c)) (ps_Checks (cp_Spec (sd_policy s))))
    else runRescan it s env w st = (st, [])"
proof -
  let ?F = "FailedChecks it (ss_store st) (cp_Name (sd_policy s))"
  have F: "set ?F = {c. failing_now xs (cp_Name (sd_policy s)) c}"
    using FailedChecks_after [OF assms(1)] by (simp add: assms(2))
  then have "?F = [] \<longleftrightarrow> \<not> (\<exists>c. failing_now xs (cp_Name (sd_policy s)) c)"
    using set_empty [of ?F] by auto
  then show ?thesis using F
    by (auto simp: runRescan_eq Let_def processed_ids checks_to_rescan_def)
qed

definition failed_scan :: "ChecklistPolicyV1 \<Rightarrow> string \<Rightarrow> done_scan" where
  "failed_scan policy i =
     \<lparr>dn_dispatcher = [], dn_policy = policy, dn_clock = (\<lambda>_. 1),
      dn_spec = result_spec policy 0 1 [base_result (demo_check i) VerdictFail []]\<rparr>"

definition demo_world :: scan_world where
  "demo_world =
     \<lparr>sw_timestamp = (\<lambda>_. ''20260101-000000''), sw_clock = (\<lambda>_. 2), sw_createNow = 3, sw_statusNow = 4, sw_create = (\<lambda>_. None),
      sw_get = Inr demo_policyV1, sw_status = (\<lambda>_. None), sw_setCondition = (\<lambda>c cs. c # filter (\<lambda>d. cond_Type d \<noteq> cond_Type c) cs)\<rparr>"

definition demo_scheduler :: Scheduler where
  "demo_scheduler = \<lparr>sd_policy = demo_policyV1, sd_dispatcher = []\<rparr>"

lemma failed_scan_history:
  "history_of [failed_scan policy i] = [((cp_Name policy, i), Failed 1)]"
  by (simp add: history_of_def failed_scan_def result_spec_def base_result_def demo_check_def)

lemma demo_simps [simp]:
  "cp_Name demo_policyV1 = ''p''" "sd_policy demo_scheduler = demo_policyV1"
  "ps_Checks (cp_Spec demo_policyV1) = [demo_check ''a'', demo_check ''b'']" "ci_ID (demo_check i) = i"
  by (simp_all add: demo_policyV1_def demo_scheduler_def demo_check_def)

theorem rescan_covers_failing_witness:
  "\<exists>r. created (snd (runRescan rev demo_scheduler (demo_env passing) demo_world
       \<lparr>ss_engine = New, ss_store = store_after [failed_scan demo_policyV1 ''b''] (NewStore 5)\<rparr>)) = [r]
     \<and> map cres_ID (rs_Checks (cr_Spec r)) = [''b'']"
proof -
  let ?st = "\<lparr>ss_engine = New, ss_store = store_after [failed_scan demo_policyV1 ''b''] (NewStore 5)\<rparr>"
  have f: "failing_now [failed_scan demo_policyV1 ''b''] ''p'' c \<longleftrightarrow> c = ''b''" for c
    by (simp add: failing_now_def failed_scan_history)
  have "\<And>m. mset (rev m) = mset m" by simp
  from rescan_covers_failing [of rev ?st "[failed_scan demo_policyV1 ''b'']" 5 demo_scheduler "demo_env passing" demo_world, OF this]
  show ?thesis by (simp add: f del: store_after.simps)
qed

text \<open>
  a rescan never touches the status of the policy: whatever it finds, the time of the last
  rescan, the summary and the condition \<open>Degraded\<close> stay as the last full scan left them.
\<close>

theorem rescan_keeps_status:
  "status_updates (snd (runRescan it s env w st)) = []"
  by (cases "FailedChecks it (ss_store st) (cp_Name (sd_policy s)) = []")
    (simp_all add: runRescan_eq Let_def)

text \<open>
  a check that is removed from its policy while failing stays failing for ever: as long as no
  other check fails, every rescan creates a result without any check and changes nothing.
\<close>

theorem removed_check_fails_forever:
  assumes "\<And>m. mset (it m) = mset m" and "store_ok (ss_store st)"
    and "\<exists>c cs. GetState (ss_store st) (cp_Name (sd_policy s)) c = Some cs \<and> failing cs"
    and "list_all (\<lambda>c. \<forall>cs. GetState (ss_store st) (cp_Name (sd_policy s)) (ci_ID c) = Some cs \<longrightarrow> \<not> failing cs)
      (ps_Checks (cp_Spec (sd_policy s)))"
  shows "ss_store (fst (runRescan it s env w st)) = ss_store st
    \<and> (\<exists>r. created (snd (runRescan it s env w st)) = [r] \<and> rs_Checks (cr_Spec r) = [])"
proof -
  let ?F = "FailedChecks it (ss_store st) (cp_Name (sd_policy s))"
  have F: "set ?F = {c. \<exists>cs. GetState (ss_store st) (cp_Name (sd_policy s)) c = Some cs \<and> failing cs}"
    using FailedChecks_spec [OF assms(1,2)] by blast
  then have ne: "?F \<noteq> []" using assms(3) by auto
  have none: "checks_to_rescan ?F (ps_Checks (cp_Spec (sd_policy s))) = []"
    using assms(4) F by (auto simp: checks_to_rescan_def list_all_iff filter_empty_conv)
  have "run_results env (sd_policy s) [] eng = []" for eng
    using arg_cong [OF run_results_checks [of env "sd_policy s" "[]" eng], of length] by simp
  then show ?thesis
    by (simp add: runRescan_eq(2) [OF ne] none Let_def processed_def processResults_store processResults_def result_spec_def)
qed

theorem removed_check_fails_forever_witness:
  "\<exists>r. created (snd (runRescan rev demo_scheduler (demo_env passing) demo_world
       \<lparr>ss_engine = New, ss_store = store_after [failed_scan demo_policyV1 ''gone''] (NewStore 5)\<rparr>)) = [r]
     \<and> rs_Checks (cr_Spec r) = []"
proof -
  let ?st = "\<lparr>ss_engine = New, ss_store = store_after [failed_scan demo_policyV1 ''gone''] (NewStore 5)\<rparr>"
  have g: "GetState (ss_store ?st) ''p'' c = (if c = ''gone'' then Some (alert_spec 5 [Failed 1]) else None)" for c
    unfolding scan_state.simps store_after_history failed_scan_history get_after_run
    by (simp add: effective_threshold_def)
  have f: "failing (alert_spec 5 [Failed 1])" by (simp add: AlertStore.failing_now)
  have e: "\<exists>c cs. GetState (ss_store ?st) (cp_Name (sd_policy demo_scheduler)) c = Some cs \<and> failing cs"
    unfolding demo_simps g using f by auto
  have ok: "store_ok (ss_store ?st)" unfolding scan_state.simps store_after_history by (simp add: store_ok_run)
  have "\<And>m. mset (rev m) = mset m" by simp
  from removed_check_fails_forever [of rev ?st demo_scheduler "demo_env passing" demo_world, OF this ok e]
  show ?thesis unfolding demo_simps g by simp
qed

section \<open>The status after a full scan\<close>

text \<open>
  What the documentation of \<open>meta.SetStatusCondition\<close> says: afterwards the condition of that type
  has the given status, reason and message, and those of other types are as before.
\<close>

definition find_condition :: "string \<Rightarrow> ConditionV1 list \<Rightarrow> (string \<times> string \<times> string) option" where
  "find_condition ty cs =
     map_option (\<lambda>c. (cond_Status c, cond_Reason c, cond_Message c)) (find (\<lambda>c. cond_Type c = ty) cs)"

definition sets_conditions :: "set_condition \<Rightarrow> bool" where
  "sets_conditions f \<longleftrightarrow>
     (\<forall>c cs ty. find_condition ty (f c cs) =
        (if ty = cond_Type c then Some (cond_Status c, cond_Reason c, cond_Message c) else find_condition ty cs))"

lemma scan_conditions_find:
  assumes "sets_conditions f"
  shows "find_condition ''Degraded'' (scan_conditions f now sm cs) =
      Some (if 0 < sint (sum_Fail sm) then (''True'', ''ChecksFailed'', scan_message sm) else (''False'', ''ScanCompleted'', scan_message sm))"
    and "find_condition ''Available'' (scan_conditions f now sm cs) =
      Some (if 0 < sint (sum_Fail sm) then (''False'', ''ChecksFailed'', scan_message sm) else (''True'', ''ScanCompleted'', scan_message sm))"
  using assms by (simp_all add: sets_conditions_def scan_conditions_def condition_def Let_def)

lemma processed_spec:
  "rs_ScanType (fst (snd (processed s env w ty checks st))) = ty"
  "rs_Summary (fst (snd (processed s env w ty checks st))) =
     Some (computeSummary (rs_Checks (fst (snd (processed s env w ty checks st)))))"
proof -
  let ?spec = "(result_spec (sd_policy s) (in_startedAt env) (in_completedAt env) (run_results env (sd_policy s) checks (ss_engine st)))\<lparr>rs_ScanType := ty\<rparr>"
  have "with_verdict v (rs_Checks (fst (snd (processed s env w ty checks st)))) = with_verdict v (rs_Checks ?spec)" for v
    using arg_cong [OF processResults_same(2) [of "sd_dispatcher s" "sd_policy s" "sw_clock w" ?spec "ss_store st"],
        of "\<lambda>vs. length (filter (\<lambda>x. x = v) vs)"]
    by (simp add: with_verdict_def processed_def filter_map o_def)
  moreover have "length (rs_Checks (fst (snd (processed s env w ty checks st)))) = length (rs_Checks ?spec)"
    using arg_cong [OF processResults_same(2) [of "sd_dispatcher s" "sd_policy s" "sw_clock w" ?spec "ss_store st"], of length]
    by (simp add: processed_def)
  ultimately have "computeSummary (rs_Checks (fst (snd (processed s env w ty checks st)))) = computeSummary (rs_Checks ?spec)"
    by (simp only: computeSummary_eq)
  then show "rs_Summary (fst (snd (processed s env w ty checks st))) =
     Some (computeSummary (rs_Checks (fst (snd (processed s env w ty checks st)))))"
    by (simp add: processed_def processResults_same result_spec_def)
  show "rs_ScanType (fst (snd (processed s env w ty checks st))) = ty"
    by (simp add: processed_def processResults_same)
qed

lemma fail_positive:
  assumes "length rs < 2 ^ 31"
  shows "0 < sint (sum_Fail (computeSummary rs)) \<longleftrightarrow> (\<exists>r \<in> set rs. cres_Verdict r = VerdictFail)"
proof -
  have "with_verdict VerdictFail rs < 2 ^ 31" using with_verdict_le [of VerdictFail rs] assms by linarith
  then have "sint (sum_Fail (computeSummary rs)) = int (with_verdict VerdictFail rs)"
    by (simp only: computeSummary_eq ScanSummary.simps sint_of_nat32)
  then show ?thesis by (auto simp: with_verdict_def filter_empty_conv)
qed

text \<open>
  C18: a full scan whose result could be stored writes to the latest version of the policy the time
  of the scan, the counts of its verdicts, and the conditions \<open>Degraded\<close> and \<open>Available\<close>, which
  say whether some check failed and contradict each other never.
\<close>

theorem full_scan_status:
  assumes "sets_conditions (sw_setCondition w)" and "\<And>r. sw_create w r = None" and "sw_get w = Inr latest"
    and "length (ps_Checks (cp_Spec (sd_policy s))) < 2 ^ 31"
  shows "\<exists>r p. created (snd (runFullScan s env w st)) = [r] \<and> status_updates (snd (runFullScan s env w st)) = [p]
    \<and> cp_Meta p = cp_Meta latest \<and> cp_Spec p = cp_Spec latest
    \<and> pst_LastFullScanTime (cp_Status p) = Some (sw_statusNow w)
    \<and> pst_Summary (cp_Status p) = Some (computeSummary (rs_Checks (cr_Spec r)))
    \<and> (let degraded = (\<exists>c \<in> set (rs_Checks (cr_Spec r)). cres_Verdict c = VerdictFail)
       in map_option fst (find_condition ''Degraded'' (pst_Conditions (cp_Status p))) = Some (if degraded then ''True'' else ''False'')
        \<and> map_option fst (find_condition ''Available'' (pst_Conditions (cp_Status p))) = Some (if degraded then ''False'' else ''True''))"
proof -
  let ?checks = "ps_Checks (cp_Spec (sd_policy s))"
  let ?spec = "fst (snd (processed s env w ScanTypeFull ?checks st))"
  have len: "length (rs_Checks ?spec) < 2 ^ 31"
    using arg_cong [OF processed_ids [of s env w ScanTypeFull ?checks st], of length] assms(4) by simp
  have "created (snd (runFullScan s env w st)) = [result_of w (sd_policy s) ?spec]"
    and "status_updates (snd (runFullScan s env w st)) = status_updates (fst (updatePolicyStatus w (sd_policy s) ?spec))"
    using assms(2) by (simp_all add: runFullScan_eq Let_def createResult_eq updatePolicyStatus_def assms(3) processed_spec)
  then show ?thesis
    using fail_positive [OF len] scan_conditions_find [OF assms(1)]
    by (simp add: updatePolicyStatus_def assms(3) processed_spec Let_def)
qed

lemma find_other_type:
  "ty \<noteq> t \<Longrightarrow> find (\<lambda>c. cond_Type c = ty) (filter (\<lambda>d. cond_Type d \<noteq> t) cs) = find (\<lambda>c. cond_Type c = ty) cs"
  by (induction cs) auto

lemma demo_sets_conditions: "sets_conditions (sw_setCondition demo_world)"
  by (simp add: sets_conditions_def demo_world_def find_condition_def find_other_type)

theorem full_scan_status_witness:
  "\<exists>p. status_updates (snd (runFullScan demo_scheduler (demo_env passing) demo_world \<lparr>ss_engine = New, ss_store = NewStore 5\<rparr>)) = [p]
     \<and> pst_LastFullScanTime (cp_Status p) = Some 4"
proof -
  have "sw_create demo_world r = None" "sw_get demo_world = Inr demo_policyV1" "sw_statusNow demo_world = 4" for r
    by (simp_all add: demo_world_def)
  then show ?thesis
    using full_scan_status [OF demo_sets_conditions, of demo_policyV1 demo_scheduler "demo_env passing" "\<lparr>ss_engine = New, ss_store = NewStore 5\<rparr>"]
    by auto
qed

lemma lower_no_F: "CHR ''F'' \<notin> set (ToLower s)"
  by (rule lower_no_upper) simp_all

text \<open>
  the result named in the status does not exist: after a full scan \<open>lastResultName\<close> is never
  the name of the created result, whatever the clock says, because only the latter is in lower case.
\<close>

theorem status_names_no_result:
  assumes "created (snd (runFullScan s env w st)) = [r]" and "status_updates (snd (runFullScan s env w st)) = [p]"
  shows "pst_LastResultName (cp_Status p) \<noteq> om_Name (cr_Meta r)"
proof -
  let ?spec = "fst (snd (processed s env w ScanTypeFull (ps_Checks (cp_Spec (sd_policy s))) st))"
  have "status_updates (fst (updatePolicyStatus w (sd_policy s) ?spec)) = [p]"
    using assms(2) by (simp add: runFullScan_eq Let_def createResult_eq split: if_splits)
  then have "CHR ''F'' \<in> set (pst_LastResultName (cp_Status p))"
    by (auto simp: updatePolicyStatus_def processed_spec GenerateResultName_def ScanTypeFull_def Let_def split: sum.splits)
  moreover have "r = result_of w (sd_policy s) ?spec"
    using assms(1) by (auto simp: runFullScan_eq Let_def createResult_eq updatePolicyStatus_def processed_spec split: if_splits sum.splits)
  ultimately show ?thesis using lower_no_F by (metis result_of_simps(2))
qed

theorem status_names_no_result_witness:
  "\<exists>r p. created (snd (runFullScan demo_scheduler (demo_env passing) demo_world \<lparr>ss_engine = New, ss_store = NewStore 5\<rparr>)) = [r]
     \<and> status_updates (snd (runFullScan demo_scheduler (demo_env passing) demo_world \<lparr>ss_engine = New, ss_store = NewStore 5\<rparr>)) = [p]
     \<and> pst_LastResultName (cp_Status p) \<noteq> om_Name (cr_Meta r)"
proof -
  let ?out = "snd (runFullScan demo_scheduler (demo_env passing) demo_world \<lparr>ss_engine = New, ss_store = NewStore 5\<rparr>)"
  have w: "sw_create demo_world r = None" "sw_get demo_world = Inr demo_policyV1" for r by (simp_all add: demo_world_def)
  obtain r p where "created ?out = [r]" "status_updates ?out = [p]"
    by (simp add: runFullScan_eq Let_def createResult_eq w updatePolicyStatus_def processed_spec)
  then show ?thesis using status_names_no_result by blast
qed

section \<open>Policies of the same name\<close>

lemma single_notifier:
  "map (tr_To \<circ> snd) (concat (map (\<lambda>(k, tr). map (\<lambda>n. (nf_Name n, tr)) [nb]) outs)) = map tr_To (map snd outs)"
  by (induction outs) auto

text \<open>
  C35: alerts are kept by the name of the policy alone.  When a check of a policy fails and then the
  check of the same id passes in a policy of the same name in another namespace, the alert of the
  first policy is resolved, the notifiers of the second say so, and the first is not rescanned.
\<close>

theorem same_name_shares_alerts:
  assumes "cp_Name pa = cp_Name pb" and "cp_Namespace pa \<noteq> cp_Namespace pb"
    and "rs_Checks specA = [ra]" and "cres_Verdict ra = VerdictFail"
    and "rs_Checks specB = [rb]" and "cres_Verdict rb = VerdictPass" and "cres_ID ra = cres_ID rb"
    and "s1 = fst (processResults da pa clockA specA (NewStore n))"
    and "\<And>m. mset (it m) = mset m"
  shows "map (tr_To \<circ> snd) (sent_log (snd (snd (processResults [nb] pb clockB specB s1)))) = [StateResolved]
    \<and> runRescan it \<lparr>sd_policy = pa, sd_dispatcher = da\<rparr> env w \<lparr>ss_engine = eng, ss_store = fst (processResults [nb] pb clockB specB s1)\<rparr>
      = (\<lparr>ss_engine = eng, ss_store = fst (processResults [nb] pb clockB specB s1)\<rparr>, [])"
proof -
  let ?k = "(cp_Name pb, cres_ID rb)"
  let ?es = "[(?k, Failed (clockA 0)), (?k, Passed (clockB 0))]"
  let ?th = "effective_threshold n"
  have s1: "s1 = fst (run_keyed record_event [(?k, Failed (clockA 0))] (NewStore n))"
    by (simp add: assms(8) processResults_store assms(1,3,4,7))
  have th: "st_threshold s1 = ?th" unfolding s1 by (rule alerts.run_ok) simp
  have rb: "recorded (cp_Name pb) clockB 0 (rs_Checks specB) = [(?k, Passed (clockB 0))]"
    by (simp add: assms(5,6))
  have "of_key ?k (snd (run_keyed record_event [(?k, Passed (clockB 0))] s1)) =
      snd (run_local (alert_step ?th ?k) [Passed (clockB 0)] (GetState s1 (cp_Name pb) (cres_ID rb)))"
    using alerts.run_is_local [OF th, of "[(?k, Passed (clockB 0))]" ?k] by (simp del: run_keyed.simps run_local.simps)
  moreover have g: "GetState s1 (cp_Name pb) (cres_ID rb) = Some (alert_spec ?th [Failed (clockA 0)])"
    unfolding s1 get_after_run by simp
  moreover have "failing (alert_spec ?th [Failed (clockA 0)])" by (simp add: AlertStore.failing_now)
  ultimately have "map tr_To (of_key ?k (snd (run_keyed record_event [(?k, Passed (clockB 0))] s1))) = [StateResolved]"
    by (simp add: alert_step_def pass_switch_def failing_def Let_def)
  moreover have "map snd (snd (run_keyed record_event [(?k, Passed (clockB 0))] s1)) =
      of_key ?k (snd (run_keyed record_event [(?k, Passed (clockB 0))] s1))"
    by (simp add: case_prod_beta split: option.split)
  ultimately have sent: "map (tr_To \<circ> snd) (sent_log (snd (snd (processResults [nb] pb clockB specB s1)))) = [StateResolved]"
    unfolding processResults_store(2) rb by (simp only: single_notifier)
  let ?s2 = "fst (processResults [nb] pb clockB specB s1)"
  have s2: "?s2 = fst (run_keyed record_event ?es (NewStore n))"
    unfolding processResults_store(1) rb s1 run_keyed_append(1) [symmetric] by simp
  have "set (FailedChecks it ?s2 (cp_Name pa)) = {c. \<exists>cs. GetState ?s2 (cp_Name pa) c = Some cs \<and> failing cs}"
    using FailedChecks_spec [OF assms(9), of ?s2 "cp_Name pa"] store_ok_run [OF store_ok_new, of ?es n] unfolding s2 by blast
  also have "\<dots> = {}"
    unfolding s2 get_after_run assms(1) by (auto simp: AlertStore.failing_now Let_def split: if_splits)
  finally show ?thesis using sent by (simp add: runRescan_eq(1))
qed

definition demo_result :: "string \<Rightarrow> ChecklistResultSpec" where
  "demo_result v = result_spec demo_policyV1 0 1 [base_result (demo_check ''a'') v []]"

theorem same_name_shares_alerts_witness:
  "map (tr_To \<circ> snd) (sent_log (snd (snd (processResults [\<lparr>nf_Name = ''slack'', nf_Send = (\<lambda>_. None)\<rparr>]
     (demo_policyV1\<lparr>cp_Meta := (cp_Meta demo_policyV1)\<lparr>om_Namespace := ''other''\<rparr>\<rparr>) (\<lambda>_. 2) (demo_result VerdictPass)
     (fst (processResults [] demo_policyV1 (\<lambda>_. 1) (demo_result VerdictFail) (NewStore 5))))))) = [StateResolved]"
proof -
  let ?pb = "demo_policyV1\<lparr>cp_Meta := (cp_Meta demo_policyV1)\<lparr>om_Namespace := ''other''\<rparr>\<rparr>"
  have d: "cp_Name demo_policyV1 = cp_Name ?pb" "cp_Namespace demo_policyV1 \<noteq> cp_Namespace ?pb"
    "rs_Checks (demo_result v) = [base_result (demo_check ''a'') v []]" "cres_Verdict (base_result (demo_check ''a'') v []) = v" for v
    by (simp_all add: demo_policyV1_def demo_result_def result_spec_def base_result_def)
  have "\<And>m. mset (rev m) = mset m" by simp
  from same_name_shares_alerts [OF d(1,2) d(3) d(4) d(3) d(4) _ refl this] show ?thesis
    by (simp add: base_result_def)
qed

end
