(* ===== verification/GoJson.thy ===== *)
theory GoJson
  imports GoLib JsonRound "HOL-Library.Word" "HOL-Library.Monad_Syntax"
begin

text \<open>
  Decoding and encoding of JSON as Go's \<open>encoding/json\<close> does it for struct types.  Decoding: keys
  match in any case and later ones win, null leaves a field at its zero value, a value of another
  type is an error (\<open>None\<close>).  Objects with two keys that differ only in case are decoded as if
  the last one stood alone.  Encoding: fields in the order of the struct, those marked
  \<open>omitempty\<close> only when they are not empty; \<open><\<close>, \<open>>\<close> and \<open>&\<close> are escaped in strings.
\<close>

section \<open>Decoding\<close>

definition decode_string :: "json \<Rightarrow> string option \<Rightarrow> string option" where
  "decode_string v acc =
     (case acc of None \<Rightarrow> None
      | Some old \<Rightarrow> (case v of JStr s \<Rightarrow> Some s | JNull \<Rightarrow> Some old | _ \<Rightarrow> None))"

definition string_field :: "string \<Rightarrow> json \<Rightarrow> string option" where
  "string_field k v =
     (case v of
        JObj fs \<Rightarrow> fold (\<lambda>(k', v') acc. if ToLower k' = k then decode_string v' acc else acc) fs (Some [])
      | JNull \<Rightarrow> Some []
      | _ \<Rightarrow> None)"

definition raw_field :: "(json \<Rightarrow> string) \<Rightarrow> string \<Rightarrow> json \<Rightarrow> string" where
  "raw_field raw k v =
     (case v of
        JObj fs \<Rightarrow> fold (\<lambda>(k', v') acc. if ToLower k' = k then raw v' else acc) fs []
      | _ \<Rightarrow> [])"

text \<open>The value of a field, \<open>JNull\<close> when it is absent, and decoders for the types of fields.\<close>

definition field :: "string \<Rightarrow> fields \<Rightarrow> json" where
  "field k fs = fold (\<lambda>(k', v') acc. if ToLower k' = ToLower k then v' else acc) fs JNull"

definition de_string :: "json \<Rightarrow> string option" where
  "de_string v = (case v of JStr s \<Rightarrow> Some s | JNull \<Rightarrow> Some [] | _ \<Rightarrow> None)"

definition de_int32 :: "json \<Rightarrow> 32 word option" where
  "de_int32 v =
     (case v of
        JNum n \<Rightarrow> (if - (2 ^ 31) \<le> n \<and> n < 2 ^ 31 then Some (word_of_int n) else None)
      | JNull \<Rightarrow> Some 0
      | _ \<Rightarrow> None)"

definition de_int64 :: "json \<Rightarrow> int option" where
  "de_int64 v =
     (case v of
        JNum n \<Rightarrow> (if - (2 ^ 63) \<le> n \<and> n < 2 ^ 63 then Some n else None)
      | JNull \<Rightarrow> Some 0
      | _ \<Rightarrow> None)"

definition de_ptr :: "(json \<Rightarrow> 'a option) \<Rightarrow> json \<Rightarrow> 'a option option" where
  "de_ptr d v = (if v = JNull then Some None else map_option Some (d v))"

fun de_all :: "(json \<Rightarrow> 'a option) \<Rightarrow> json list \<Rightarrow> 'a list option" where
  "de_all d [] = Some []"
| "de_all d (v # vs) = do {x \<leftarrow> d v; xs \<leftarrow> de_all d vs; Some (x # xs)}"

definition de_list :: "(json \<Rightarrow> 'a option) \<Rightarrow> json \<Rightarrow> 'a list option" where
  "de_list d v = (case v of JArr vs \<Rightarrow> de_all d vs | JNull \<Rightarrow> Some [] | _ \<Rightarrow> None)"

definition de_struct :: "(fields \<Rightarrow> 'a option) \<Rightarrow> json \<Rightarrow> 'a option" where
  "de_struct d v = (case v of JObj fs \<Rightarrow> d fs | JNull \<Rightarrow> d [] | _ \<Rightarrow> None)"

section \<open>Encoding\<close>

definition nonempty_str :: "string \<Rightarrow> string \<Rightarrow> fields" where
  "nonempty_str k s = (if s = [] then [] else [(k, JStr s)])"

definition nonempty_list :: "string \<Rightarrow> ('a \<Rightarrow> json) \<Rightarrow> 'a list \<Rightarrow> fields" where
  "nonempty_list k f xs = (if xs = [] then [] else [(k, JArr (map f xs))])"

definition html_escape :: "char \<Rightarrow> string" where
  "html_escape c =
     (if c = CHR ''<'' then [CHR 0x5C] @ ''u003c'' else if c = CHR ''>'' then [CHR 0x5C] @ ''u003e''
      else if c = CHR ''&'' then [CHR 0x5C] @ ''u0026'' else [c])"

definition Marshal :: "json \<Rightarrow> string" where
  "Marshal v = concat (map html_escape (JSON_stringify v))"

text \<open>\<open>json.Unmarshal\<close> up to decoding; a text with numbers outside the model counts as unreadable.\<close>

definition go_parse :: "string \<Rightarrow> json option" where
  "go_parse s = (case JSON_parse s of Done v \<Rightarrow> Some v | Bad \<Rightarrow> None | Beyond \<Rightarrow> None)"

section \<open>Laws\<close>

lemma field_simps [simp]:
  "field k [] = JNull"
  "field k (fs @ [(k', v)]) = (if ToLower k' = ToLower k then v else field k fs)"
  by (simp_all add: field_def)

lemma field_append: "field k (fs @ gs) = (if \<exists>k' \<in> fst ` set gs. ToLower k' = ToLower k then field k gs else field k fs)"
proof (induction gs rule: rev_induct)
  case (snoc g gs)
  then show ?case by (cases g) (auto simp flip: append_assoc)
qed simp

lemma field_none: "(\<And>k'. k' \<in> fst ` set fs \<Longrightarrow> ToLower k' \<noteq> ToLower k) \<Longrightarrow> field k fs = JNull"
proof (induction fs rule: rev_induct)
  case (snoc f fs)
  then show ?case by (cases f) auto
qed simp

lemma de_all_map: "(\<And>x. x \<in> set xs \<Longrightarrow> d (f x) = Some (g x)) \<Longrightarrow> de_all d (map f xs) = Some (map g xs)"
  by (induction xs) auto

definition go_escape :: "char \<Rightarrow> string" where
  "go_escape c = concat (map html_escape (escape_unit c))"

lemma html_plain_digits: "is_digit c \<Longrightarrow> html_escape c = [c]"
  by (auto simp: html_escape_def is_digit_def)

lemma html_join: "concat (map html_escape (join '','' xs)) = join '','' (map (\<lambda>x. concat (map html_escape x)) xs)"
  by (induction "'',''" xs rule: join.induct) (simp_all add: html_escape_def)

lemma html_dec: "concat (map html_escape (dec i)) = dec i"
proof -
  have "concat (map html_escape s) = s" if "\<forall>c \<in> set s. is_digit c" for s
    using that by (induction s) (simp_all add: html_plain_digits)
  then show ?thesis using dec_nat_digits by (simp add: dec_def html_escape_def)
qed

lemma html_quote: "concat (map html_escape (quote_str s)) = quote_by go_escape s"
proof -
  have "concat (map html_escape (concat (map escape_unit s))) = concat (map go_escape s)"
    by (induction s) (simp_all add: go_escape_def)
  then show ?thesis by (simp add: quote_str_def quote_by_def html_escape_def)
qed

lemma html_bracket:
  "l \<in> {CHR ''['', CHR ''{''} \<Longrightarrow> r \<in> {CHR '']'', CHR ''}''} \<Longrightarrow>
   concat (map html_escape (bracket l r [] ind items)) = bracket l r [] ind (map (\<lambda>x. concat (map html_escape x)) items)"
  by (auto simp: bracket_def html_join html_escape_def)

lemma Marshal_print: "concat (map html_escape (stringify [] ind v)) = print_by go_escape [] ind v"
proof (induction "[] :: string" ind v rule: stringify.induct)
  case (5 ind vs)
  then show ?case by (simp add: html_bracket comp_def cong: map_cong)
next
  case (6 ind fs)
  then show ?case
    by (simp add: html_bracket comp_def member_def member_by_def html_quote cong: map_cong) (simp add: html_escape_def)
qed (simp_all add: html_dec html_quote, simp_all add: html_escape_def)

lemma html_hex_digit: "n < 16 \<Longrightarrow> html_escape (JsonText.hex_digit n) = [JsonText.hex_digit n]"
proof -
  have "list_all (\<lambda>n. html_escape (JsonText.hex_digit n) = [JsonText.hex_digit n]) [0..<16]" by code_simp
  then show "n < 16 \<Longrightarrow> ?thesis" by (simp add: list_all_iff)
qed

lemma html_units: "char_of (60 :: nat) = CHR ''<''" "char_of (62 :: nat) = CHR ''>''" "char_of (38 :: nat) = CHR ''&''"
  by code_simp+

lemma go_escape_html:
  "go_escape CHR ''<'' = [CHR 0x5C] @ ''u003c''" "go_escape CHR ''>'' = [CHR 0x5C] @ ''u003e''"
  "go_escape CHR ''&'' = [CHR 0x5C] @ ''u0026''"
  by (simp_all add: go_escape_def escape_unit_def html_escape_def)

lemma go_escape_other: "c \<notin> {CHR ''<'', CHR ''>'', CHR ''&''} \<Longrightarrow> go_escape c = escape_unit c"
  by (auto simp: go_escape_def escape_unit_def Let_def html_hex_digit) (simp_all add: html_escape_def)

interpretation go: json_printer go_escape
proof
  fix c t
  show "pstr (go_escape c @ t) = map_pr (cons_fst c) (pstr t)"
  proof (cases "c \<in> {CHR ''<'', CHR ''>'', CHR ''&''}")
    case True
    then show ?thesis
      by (elim insertE emptyE) (simp_all add: go_escape_html pstr.simps hex_value_def html_units)
  qed (simp add: go_escape_other pstr_escape)
qed

text \<open>What \<open>json.Marshal\<close> writes, \<open>json.Unmarshal\<close> reads back.\<close>

lemma unmarshal_marshal: "wf_json v \<Longrightarrow> go_parse (Marshal v) = Some v"
  using go.parse_print [of v "[]"] by (simp add: Marshal_def JSON_stringify_def Marshal_print go_parse_def)

end
