(* ===== verification/GoUrl.thy ===== *)
theory GoUrl
  imports Client GoLib
begin

text \<open>
  What the server uses of \<open>net/url\<close>: the target of a request is read into the decoded path, which
  the middleware of \<open>auth.go\<close> tests, and the escaped path, which the multiplexer of \<open>net/http\<close>
  cuts into segments and decodes segment by segment.  Targets are those of ordinary requests,
  which start with a slash; characters are the bytes on the wire.
\<close>

section \<open>Percent escapes\<close>

definition unhex :: "char \<Rightarrow> nat option" where
  "unhex c =
     (let n = of_char c :: nat
      in if 48 \<le> n \<and> n \<le> 57 then Some (n - 48) else if 97 \<le> n \<and> n \<le> 102 then Some (n - 87)
         else if 65 \<le> n \<and> n \<le> 70 then Some (n - 55) else None)"

text \<open>Decoding in paths, where \<open>+\<close> stands for itself; a malformed escape is an error.\<close>

fun path_unescape :: "string \<Rightarrow> string option" where
  "path_unescape [] = Some []"
| "path_unescape (c # s) =
     (if c = CHR ''%'' then
        (case s of
           x # y # s' \<Rightarrow>
             (case (unhex x, unhex y) of
                (Some a, Some b) \<Rightarrow> map_option (\<lambda>t. char_of (a * 16 + b) # t) (path_unescape s')
              | _ \<Rightarrow> None)
         | _ \<Rightarrow> None)
      else map_option (\<lambda>t. c # t) (path_unescape s))"

definition alnum :: "char \<Rightarrow> bool" where
  "alnum c \<longleftrightarrow> (let n = of_char c :: nat in 48 \<le> n \<and> n \<le> 57 \<or> 65 \<le> n \<and> n \<le> 90 \<or> 97 \<le> n \<and> n \<le> 122)"

definition unreserved :: "char \<Rightarrow> bool" where
  "unreserved c \<longleftrightarrow> alnum c \<or> c \<in> set ''-_.~''"

definition should_escape :: "char \<Rightarrow> bool" where
  "should_escape c \<longleftrightarrow> \<not> unreserved c \<and> \<not> c \<in> set ''$&+,/:;=@''"

definition path_escape :: "string \<Rightarrow> string" where
  "path_escape s = concat (map (\<lambda>c. if should_escape c then percent (of_char c) else [c]) s)"

definition valid_encoded :: "string \<Rightarrow> bool" where
  "valid_encoded s \<longleftrightarrow> list_all (\<lambda>c. c \<in> set ''!$&'' \<or> c = CHR 0x27 \<or> c \<in> set ''()*+,;=:@[]%'' \<or> \<not> should_escape c) s"

section \<open>Request targets\<close>

text \<open>
  A target with a space, a control character or a malformed escape in its path is refused before
  any handler runs.  The other targets give the decoded and the escaped path.
\<close>

definition raw_path :: "string \<Rightarrow> string" where
  "raw_path u = takeWhile (\<lambda>c. c \<noteq> CHR ''?'') u"

definition wire_char :: "char \<Rightarrow> bool" where
  "wire_char c \<longleftrightarrow> (let n = of_char c :: nat in 32 < n \<and> n \<noteq> 127)"

definition parse_target :: "string \<Rightarrow> (string \<times> string) option" where
  "parse_target u =
     (let raw = raw_path u
      in if \<not> list_all wire_char u \<or> \<not> startsWith raw ''/'' then None
         else map_option (\<lambda>path. (path, if valid_encoded raw then raw else path_escape path)) (path_unescape raw))"

definition url_path :: "string \<Rightarrow> string" where
  "url_path u = (case parse_target u of None \<Rightarrow> [] | Some (path, escaped) \<Rightarrow> path)"

definition escaped_path :: "string \<Rightarrow> string" where
  "escaped_path u = (case parse_target u of None \<Rightarrow> [] | Some (path, escaped) \<Rightarrow> escaped)"

text \<open>The segments of an escaped path, as they stand and decoded.\<close>

fun split_on :: "char \<Rightarrow> string \<Rightarrow> string list" where
  "split_on d [] = [[]]"
| "split_on d (c # s) =
     (if c = d then [] # split_on d s
      else (case split_on d s of p # ps \<Rightarrow> (c # p) # ps | [] \<Rightarrow> [[c]]))"

definition raw_segments :: "string \<Rightarrow> string list" where
  "raw_segments escaped = tl (split_on CHR ''/'' escaped)"

definition segment_unescape :: "string \<Rightarrow> string" where
  "segment_unescape s = (case path_unescape s of None \<Rightarrow> s | Some t \<Rightarrow> t)"

definition path_segments :: "string \<Rightarrow> string list" where
  "path_segments escaped = map segment_unescape (raw_segments escaped)"

section \<open>Decoding reads back what escaping writes\<close>

lemma unhex_hex: "d < 16 \<Longrightarrow> unhex (Client.hex_digit d) = Some d"
  by (auto simp: unhex_def Client.hex_digit_def Let_def)

lemma path_unescape_percent: "n < 256 \<Longrightarrow> path_unescape (percent n @ s) = map_option (\<lambda>t. char_of n # t) (path_unescape s)"
proof -
  assume "n < 256"
  then have "n div 16 < 16" by auto
  then show ?thesis by (simp add: percent_def unhex_hex)
qed

lemma percent_escaped: "should_escape CHR ''%''"
  by code_simp

lemma path_unescape_escape: "path_unescape (path_escape s) = Some s"
proof (induction s)
  case (Cons c s)
  have "path_escape (c # s) = (if should_escape c then percent (of_char c) else [c]) @ path_escape s"
    by (simp add: path_escape_def)
  moreover have "\<not> should_escape c \<Longrightarrow> c \<noteq> CHR ''%''" using percent_escaped by metis
  moreover have "(of_char c :: nat) < 256" by simp
  ultimately show ?case using Cons.IH by (auto simp: path_unescape_percent)
qed (simp add: path_escape_def)

lemma parse_target_paths:
  assumes "parse_target u = Some (path, escaped)"
  shows "path_unescape escaped = Some path" "startsWith escaped ''/''"
proof -
  from assms have raw: "startsWith (raw_path u) ''/''" "path_unescape (raw_path u) = Some path"
    and e: "escaped = (if valid_encoded (raw_path u) then raw_path u else path_escape path)"
    by (auto simp: parse_target_def Let_def split: if_splits)
  show "path_unescape escaped = Some path" using e raw(2) path_unescape_escape by auto
  obtain s where "raw_path u = CHR ''/'' # s" using raw(1) by (cases "raw_path u") (auto simp: startsWith_def)
  then have "\<exists>t. path = CHR ''/'' # t" using raw(2) by auto
  moreover have "\<not> should_escape CHR ''/''" by code_simp
  ultimately have "startsWith (path_escape path) ''/''" by (auto simp: path_escape_def startsWith_def)
  then show "startsWith escaped ''/''" using e raw(1) by simp
qed

section \<open>The decoded path is made of the decoded segments\<close>

lemma split_on_plain: "d \<notin> set s \<Longrightarrow> split_on d s = [s]"
  by (induction s) auto

lemma split_on_append: "d \<notin> set s \<Longrightarrow> split_on d (s @ d # t) = s # split_on d t"
  by (induction s) auto

lemma split_on_join: "split_on d s \<noteq> [] \<and> s = hd (split_on d s) @ concat (map ((#) d) (tl (split_on d s)))"
  by (induction s) (auto split: list.splits)

lemma slash_no_hex: "unhex CHR ''/'' = None"
  by code_simp

lemma path_unescape_slash:
  "path_unescape (a @ CHR ''/'' # b) = Some p \<Longrightarrow>
   \<exists>a' b'. path_unescape a = Some a' \<and> path_unescape b = Some b' \<and> p = a' @ CHR ''/'' # b'"
proof (induction a arbitrary: p rule: length_induct)
  case (1 a)
  show ?case
  proof (cases a)
    case Nil
    then show ?thesis using "1.prems" by auto
  next
    case (Cons c s)
    show ?thesis
    proof (cases "c = CHR ''%''")
      case True
      with "1.prems" Cons obtain x y s' where s: "s = x # y # s'"
        by (cases s rule: remdups_adj.cases) (auto simp: slash_no_hex split: option.splits list.splits)
      with "1.prems" Cons True obtain i j t where ij: "unhex x = Some i" "unhex y = Some j"
        and t: "path_unescape (s' @ CHR ''/'' # b) = Some t" "p = char_of (i * 16 + j) # t"
        by (auto split: option.splits)
      have "length s' < length a" using Cons s by simp
      with "1.IH" t(1) obtain a' b' where "path_unescape s' = Some a'" "path_unescape b = Some b'" "t = a' @ CHR ''/'' # b'"
        by blast
      then show ?thesis using t(2) ij True Cons s by auto
    next
      case False
      with "1.prems" Cons obtain t where t: "path_unescape (s @ CHR ''/'' # b) = Some t" "p = c # t" by auto
      have "length s < length a" using Cons by simp
      with "1.IH" t(1) obtain a' b' where "path_unescape s = Some a'" "path_unescape b = Some b'" "t = a' @ CHR ''/'' # b'"
        by blast
      then show ?thesis using t(2) False Cons by auto
    qed
  qed
qed

lemma path_unescape_join:
  "path_unescape (a @ concat (map ((#) CHR ''/'') ss)) = Some p \<Longrightarrow>
   p = segment_unescape a @ concat (map ((#) CHR ''/'') (map segment_unescape ss))"
proof (induction ss arbitrary: a p)
  case (Cons s ss)
  then obtain a' b' where "path_unescape a = Some a'" "path_unescape (s @ concat (map ((#) CHR ''/'') ss)) = Some b'" "p = a' @ CHR ''/'' # b'"
    using path_unescape_slash [of a "s @ concat (map ((#) CHR ''/'') ss)" p] by auto
  with Cons.IH [of s b'] show ?case by (simp add: segment_unescape_def)
qed (simp add: segment_unescape_def)

lemma decoded_path:
  assumes "parse_target u = Some (path, escaped)"
  shows "path = concat (map ((#) CHR ''/'') (path_segments escaped))"
proof -
  note parse_target_paths [OF assms]
  moreover from this(2) obtain s where s: "escaped = CHR ''/'' # s" by (cases escaped) (auto simp: startsWith_def)
  moreover have "escaped = [] @ concat (map ((#) CHR ''/'') (raw_segments escaped))"
  proof -
    obtain t ts where "split_on CHR ''/'' s = t # ts" using split_on_join [of "CHR ''/''" s] by (cases "split_on CHR ''/'' s") auto
    then show ?thesis using split_on_join [of "CHR ''/''" s] by (simp add: s raw_segments_def)
  qed
  ultimately show ?thesis
    using path_unescape_join [of "[]" "raw_segments escaped" path] by (simp add: path_segments_def segment_unescape_def)
qed

section \<open>Targets without escapes\<close>

definition plain_path :: "string \<Rightarrow> bool" where
  "plain_path s \<longleftrightarrow> list_all (\<lambda>c. unreserved c \<or> c = CHR ''/'') s"

lemma unreserved_char: "unreserved c \<Longrightarrow> wire_char c \<and> \<not> should_escape c \<and> c \<noteq> CHR ''?'' \<and> c \<noteq> CHR ''%'' \<and> c \<noteq> CHR ''/''"
proof -
  assume c: "unreserved c"
  then consider "alnum c" | "c \<in> set ''-_.~''" unfolding unreserved_def by blast
  then have "wire_char c"
  proof cases
    case 1
    then have "32 < (of_char c :: nat)" "(of_char c :: nat) \<noteq> 127" unfolding alnum_def Let_def by linarith+
    then show ?thesis by (simp add: wire_char_def)
  next
    case 2
    have "list_all wire_char ''-_.~''" by code_simp
    with 2 show ?thesis by (simp only: list_all_iff)
  qed
  moreover have "\<not> unreserved CHR ''?''" "\<not> unreserved CHR ''%''" "\<not> unreserved CHR ''/''" by code_simp+
  ultimately show ?thesis using c by (auto simp: should_escape_def)
qed

lemma path_unescape_id: "CHR ''%'' \<notin> set s \<Longrightarrow> path_unescape s = Some s"
  by (induction s) auto

lemma plain_path_raw:
  assumes "plain_path s" and "q = [] \<or> hd q = CHR ''?''"
  shows "raw_path (s @ q) = s"
proof -
  have "CHR ''?'' \<notin> set s" using assms(1) unreserved_char by (auto simp: plain_path_def list_all_iff)
  then have "\<forall>c \<in> set s. c \<noteq> CHR ''?''" by metis
  with assms(2) show ?thesis by (cases q) (simp_all add: raw_path_def takeWhile_append2)
qed

lemma parse_plain:
  assumes "plain_path s" "startsWith s ''/''" and "q = [] \<or> hd q = CHR ''?''" and "list_all wire_char q"
  shows "parse_target (s @ q) = Some (s, s)"
proof -
  have s: "wire_char c \<and> \<not> should_escape c \<and> c \<noteq> CHR ''%''" if "c \<in> set s" for c
  proof -
    have "wire_char CHR ''/''" "\<not> should_escape CHR ''/''" by code_simp+
    then show ?thesis using that assms(1) unreserved_char by (auto simp: plain_path_def list_all_iff)
  qed
  then have "CHR ''%'' \<notin> set s" "list_all wire_char s" "valid_encoded s" by (auto simp: list_all_iff valid_encoded_def)
  with assms(2,4) show ?thesis
    by (simp add: parse_target_def plain_path_raw [OF assms(1,3)] path_unescape_id)
qed

lemma plain_paths:
  assumes "plain_path s" "startsWith s ''/''" and "q = [] \<or> hd q = CHR ''?''" and "list_all wire_char q"
  shows "url_path (s @ q) = s" "escaped_path (s @ q) = s"
  by (simp_all add: url_path_def escaped_path_def parse_plain [OF assms])

lemma plain_segments:
  assumes "list_all (list_all unreserved) ss"
  shows "raw_segments (concat (map ((#) CHR ''/'') ss)) = ss" "path_segments (concat (map ((#) CHR ''/'') ss)) = ss"
proof -
  have plain: "CHR ''/'' \<notin> set s" "CHR ''%'' \<notin> set s" if "s \<in> set ss" for s
    using assms that unreserved_char by (fastforce simp: list_all_iff)+
  have "split_on CHR ''/'' (a @ concat (map ((#) CHR ''/'') ts)) = a # ts"
    if "CHR ''/'' \<notin> set a" "\<forall>t \<in> set ts. CHR ''/'' \<notin> set t" for a ts
    using that by (induction ts arbitrary: a) (simp_all add: split_on_plain split_on_append)
  from this [of "[]" ss] plain(1) show raw: "raw_segments (concat (map ((#) CHR ''/'') ss)) = ss"
    by (simp add: raw_segments_def)
  show "path_segments (concat (map ((#) CHR ''/'') ss)) = ss"
    unfolding path_segments_def raw
    using plain(2) by (intro map_idI) (simp add: segment_unescape_def path_unescape_id)
qed

lemma plain_path_join: "list_all (list_all unreserved) ss \<Longrightarrow> plain_path (concat (map ((#) CHR ''/'') ss))"
  by (auto simp: plain_path_def list_all_iff)

end
