(* ===== verification/Auth.thy ===== *)
theory Auth
  imports Client GoUrl GoJson Sha256
begin

text \<open>
  \<open>operator/server/handler/auth.go\<close> and the answers of \<open>handler.go\<close>: tokens signed with
  HMAC-SHA256, the login, the check of a token and the middleware in front of the API.  Requests
  and responses are those of the client of the web interface.  The user name and the password
  come from the environment of the server; an unset variable is empty.
\<close>

section \<open>Answers\<close>

definition StatusText :: "nat \<Rightarrow> string" where
  "StatusText s =
     (if s = 200 then ''OK'' else if s = 201 then ''Created'' else if s = 204 then ''No Content''
      else if s = 301 then ''Moved Permanently'' else if s = 400 then ''Bad Request'' else if s = 401 then ''Unauthorized''
      else if s = 404 then ''Not Found'' else if s = 500 then ''Internal Server Error'' else [])"

definition writeJSON :: "nat \<Rightarrow> json \<Rightarrow> http_response" where
  "writeJSON status v = \<lparr>rs_status = status, rs_statusText = StatusText status, rs_json = Some v\<rparr>"

definition writeError :: "nat \<Rightarrow> string \<Rightarrow> http_response" where
  "writeError status msg = writeJSON status (JObj [(''error'', JStr msg)])"

section \<open>Base64 without padding, in the alphabet for addresses\<close>

definition b64_alphabet :: string where
  "b64_alphabet = ''ABCDEFGHIJKLMNOPQRSTUVWXYZabcdefghijklmnopqrstuvwxyz0123456789-_''"

fun b64_digits :: "nat list \<Rightarrow> nat list" where
  "b64_digits (a # b # c # bs) = [a div 4, (a mod 4) * 16 + b div 16, (b mod 16) * 4 + c div 64, c mod 64] @ b64_digits bs"
| "b64_digits [a, b] = [a div 4, (a mod 4) * 16 + b div 16, (b mod 16) * 4]"
| "b64_digits [a] = [a div 4, (a mod 4) * 16]"
| "b64_digits [] = []"

definition base64URLEncode :: "string \<Rightarrow> string" where
  "base64URLEncode data = map (\<lambda>d. b64_alphabet ! d) (b64_digits (bytes data))"

text \<open>The decoder skips line ends, ignores unused low bits and refuses other characters.\<close>

definition b64_value :: "char \<Rightarrow> nat option" where
  "b64_value c =
     (case find (\<lambda>i. b64_alphabet ! i = c) [0..<64] of None \<Rightarrow> None | Some i \<Rightarrow> Some i)"

fun b64_bytes :: "nat list \<Rightarrow> nat list option" where
  "b64_bytes (p # q # r # s # ds) =
     map_option (\<lambda>bs. [p * 4 + q div 16, (q mod 16) * 16 + r div 4, (r mod 4) * 64 + s] @ bs) (b64_bytes ds)"
| "b64_bytes [p, q, r] = Some [p * 4 + q div 16, (q mod 16) * 16 + r div 4]"
| "b64_bytes [p, q] = Some [p * 4 + q div 16]"
| "b64_bytes [p] = None"
| "b64_bytes [] = Some []"

definition base64URLDecode :: "string \<Rightarrow> string option" where
  "base64URLDecode s =
     (let cs = filter (\<lambda>c. c \<noteq> CHR 0x0A \<and> c \<noteq> CHR 0x0D) s
      in if list_all (\<lambda>c. b64_value c \<noteq> None) cs
         then map_option of_bytes (b64_bytes (map (the \<circ> b64_value) cs)) else None)"

section \<open>Tokens\<close>

record jwtClaims =
  jc_Sub :: string
  jc_Exp :: int
  jc_Iat :: int

definition jwtHeaderEncoded :: string where
  "jwtHeaderEncoded = base64URLEncode (Marshal (JObj [(''alg'', JStr ''HS256''), (''typ'', JStr ''JWT'')]))"

definition json_of_claims :: "jwtClaims \<Rightarrow> json" where
  "json_of_claims c = JObj [(''sub'', JStr (jc_Sub c)), (''exp'', JNum (jc_Exp c)), (''iat'', JNum (jc_Iat c))]"

definition decode_claims :: "json \<Rightarrow> jwtClaims option" where
  "decode_claims = de_struct (\<lambda>fs. do {
     sub \<leftarrow> de_string (field ''sub'' fs);
     ex \<leftarrow> de_int64 (field ''exp'' fs);
     iat \<leftarrow> de_int64 (field ''iat'' fs);
     Some \<lparr>jc_Sub = sub, jc_Exp = ex, jc_Iat = iat\<rparr>})"

definition signature :: "string \<Rightarrow> string \<Rightarrow> string" where
  "signature secret signingInput = hmac secret signingInput"

definition signJWT :: "jwtClaims \<Rightarrow> string \<Rightarrow> string" where
  "signJWT claims secret =
     (let signingInput = jwtHeaderEncoded @ ''.'' @ base64URLEncode (Marshal (json_of_claims claims))
      in signingInput @ ''.'' @ base64URLEncode (signature secret signingInput))"

datatype jwt_error = Malformed | DecodeSignature | InvalidSignature | DecodePayload | UnmarshalClaims | Expired

definition verifyJWT :: "int \<Rightarrow> string \<Rightarrow> string \<Rightarrow> jwt_error + jwtClaims" where
  "verifyJWT now tok secret =
     (case SplitN 3 CHR ''.'' tok of
        [header, body, sig] \<Rightarrow>
          (let signingInput = header @ ''.'' @ body; expectedSig = signature secret signingInput
           in case base64URLDecode sig of
                None \<Rightarrow> Inl DecodeSignature
              | Some actualSig \<Rightarrow>
                  if expectedSig \<noteq> actualSig then Inl InvalidSignature
                  else case base64URLDecode body of
                         None \<Rightarrow> Inl DecodePayload
                       | Some payload \<Rightarrow>
                           (case Option.bind (go_parse payload) decode_claims of
                              None \<Rightarrow> Inl UnmarshalClaims
                            | Some claims \<Rightarrow> if jc_Exp claims < now then Inl Expired else Inr claims))
      | _ \<Rightarrow> Inl Malformed)"

section \<open>Handlers\<close>

record auth_env =
  au_user :: string
  au_pass :: string

definition header_get :: "string \<Rightarrow> (string \<times> string) list \<Rightarrow> string" where
  "header_get k hs = (case find (\<lambda>h. ToLower (fst h) = ToLower k) hs of None \<Rightarrow> [] | Some h \<Rightarrow> snd h)"

definition decode_login :: "json \<Rightarrow> (string \<times> string) option" where
  "decode_login = de_struct (\<lambda>fs. do {
     u \<leftarrow> de_string (field ''username'' fs);
     p \<leftarrow> de_string (field ''password'' fs);
     Some (u, p)})"

definition Login_handler :: "auth_env \<Rightarrow> int \<Rightarrow> http_request \<Rightarrow> http_response" where
  "Login_handler env now r =
     (case Option.bind (rq_body r) decode_login of
        None \<Rightarrow> writeError 400 ''invalid request body''
      | Some (username, password) \<Rightarrow>
          if username \<noteq> au_user env \<or> password \<noteq> au_pass env then writeError 401 ''invalid credentials''
          else writeJSON 200 (JObj [(''token'',
                 JStr (signJWT \<lparr>jc_Sub = username, jc_Exp = now + 24 * 3600, jc_Iat = now\<rparr> (au_pass env)))]))"

definition bearer_valid :: "auth_env \<Rightarrow> int \<Rightarrow> http_request \<Rightarrow> bool" where
  "bearer_valid env now r =
     (let header = header_get ''Authorization'' (rq_headers r)
      in startsWith header ''Bearer '' \<and> \<not> isl (verifyJWT now (TrimPrefix header ''Bearer '') (au_pass env)))"

definition status_ok :: http_response where
  "status_ok = writeJSON 200 (JObj [(''status'', JStr ''ok'')])"

definition AuthCheck :: "auth_env \<Rightarrow> int \<Rightarrow> http_request \<Rightarrow> http_response" where
  "AuthCheck env now r =
     (if au_user env = [] \<and> au_pass env = [] then status_ok
      else if \<not> bearer_valid env now r then writeError 401 ''unauthorized''
      else status_ok)"

text \<open>
  The middleware tests the decoded path of the address.  A handler answers a request and may change the state \<open>'c\<close> of the cluster; a handler that
  panics gives no answer, and the connection is closed.
\<close>

type_synonym 'c handler = "http_request \<Rightarrow> 'c \<Rightarrow> 'c \<times> http_response option"

definition JWTAuthMiddleware :: "auth_env \<Rightarrow> int \<Rightarrow> 'c handler \<Rightarrow> 'c handler" where
  "JWTAuthMiddleware env now next_handler r c =
     (let path = url_path (rq_url r)
      in if au_user env = [] \<and> au_pass env = [] then next_handler r c
         else if path = ''/healthz'' then next_handler r c
         else if path = ''/api/v1/login'' then next_handler r c
         else if \<not> startsWith path ''/api/'' then next_handler r c
         else if \<not> bearer_valid env now r then (c, Some (writeError 401 ''unauthorized''))
         else next_handler r c)"

section \<open>Base64 reads back what it writes\<close>

lemma b64_alphabet_table:
  "list_all (\<lambda>d. b64_value (b64_alphabet ! d) = Some d \<and> b64_alphabet ! d \<notin> {CHR ''.'', CHR 0x0A, CHR 0x0D}) [0..<64]"
  by code_simp

lemma b64_digit:
  assumes "d < 64"
  shows "b64_value (b64_alphabet ! d) = Some d" "b64_alphabet ! d \<noteq> CHR ''.''" "b64_alphabet ! d \<noteq> CHR 0x0A" "b64_alphabet ! d \<noteq> CHR 0x0D"
  using b64_alphabet_table assms by (auto simp: list_all_iff)

lemma b64_digits_small: "list_all (\<lambda>b. b < 256) bs \<Longrightarrow> list_all (\<lambda>d. d < 64) (b64_digits bs)"
proof (induction bs rule: b64_digits.induct)
  case (1 a b c bs)
  then have "a div 4 < 64" "(a mod 4) * 16 + b div 16 < 64" "(b mod 16) * 4 + c div 64 < 64" by auto
  with 1 show ?case by simp
next
  case (2 a b)
  then have "a div 4 < 64" "(a mod 4) * 16 + b div 16 < 64" "(b mod 16) * 4 < 64" by auto
  then show ?case by simp
next
  case (3 a)
  then have "a div 4 < 64" "(a mod 4) * 16 < 64" by auto
  then show ?case by simp
qed simp

lemma b64_join:
  assumes "y < (m :: nat)"
  shows "(x * m + y) div m = x" "(x * m + y) mod m = y"
  using assms by simp_all

lemma b64_bytes_digits: "list_all (\<lambda>b. b < 256) bs \<Longrightarrow> b64_bytes (b64_digits bs) = Some bs"
proof (induction bs rule: b64_digits.induct)
  case (1 a b c bs)
  then have "b div 16 < 16" "c div 64 < 4" by auto
  with 1 show ?case by (simp add: b64_join mult.commute)
next
  case (2 a b)
  then have "b div 16 < 16" by auto
  then show ?case by (simp add: b64_join mult.commute)
qed simp_all

lemma of_bytes_bytes [simp]: "of_bytes (bytes s) = s"
  by (simp add: of_bytes_def bytes_def byte_def o_def)

lemma bytes_small: "list_all (\<lambda>b. b < 256) (bytes s)"
  by (simp add: bytes_def byte_def list_all_iff)

lemma base64_chars:
  "list_all (\<lambda>c. b64_value c \<noteq> None \<and> c \<noteq> CHR ''.'' \<and> c \<noteq> CHR 0x0A \<and> c \<noteq> CHR 0x0D) (base64URLEncode s)"
  using b64_digits_small [OF bytes_small [of s]] b64_digit
  by (auto simp: base64URLEncode_def list_all_iff)

lemma base64_roundtrip: "base64URLDecode (base64URLEncode s) = Some s"
proof -
  have ds: "list_all (\<lambda>d. d < 64) (b64_digits (bytes s))" by (rule b64_digits_small [OF bytes_small])
  have "map (the \<circ> b64_value) (base64URLEncode s) = b64_digits (bytes s)"
    using ds by (auto simp: base64URLEncode_def list_all_iff b64_digit intro!: map_idI)
  moreover have "filter (\<lambda>c. c \<noteq> CHR 0x0A \<and> c \<noteq> CHR 0x0D) (base64URLEncode s) = base64URLEncode s"
    using base64_chars [of s] by (auto simp: list_all_iff intro: filter_True)
  moreover have "list_all (\<lambda>c. b64_value c \<noteq> None) (base64URLEncode s)"
    using base64_chars [of s] by (simp add: list_all_iff)
  ultimately show ?thesis by (simp add: base64URLDecode_def b64_bytes_digits [OF bytes_small])
qed

section \<open>Tokens read back what they sign\<close>

definition sendable :: "jwtClaims \<Rightarrow> bool" where
  "sendable c \<longleftrightarrow> \<bar>jc_Exp c\<bar> \<le> 2 ^ 53 \<and> \<bar>jc_Iat c\<bar> \<le> 2 ^ 53"

lemma claims_roundtrip:
  assumes "sendable c"
  shows "Option.bind (go_parse (Marshal (json_of_claims c))) decode_claims = Some c"
proof -
  have "wf_json (json_of_claims c)" using assms by (simp add: sendable_def json_of_claims_def)
  then have "go_parse (Marshal (json_of_claims c)) = Some (json_of_claims c)"
    by (rule unmarshal_marshal)
  moreover have "decode_claims (json_of_claims c) = Some c"
  proof -
    have "(2 :: int) ^ 53 < 2 ^ 63" by simp
    then show ?thesis using assms
      by (simp add: decode_claims_def json_of_claims_def de_struct_def de_string_def de_int64_def field_def
          ToLower_def lower_ascii_def sendable_def abs_le_iff)
  qed
  ultimately show ?thesis by simp
qed

lemma SplitN_3:
  assumes "CHR ''.'' \<notin> set a" "CHR ''.'' \<notin> set b"
  shows "SplitN 3 CHR ''.'' (a @ CHR ''.'' # b @ CHR ''.'' # c) = [a, b, c]"
proof -
  have t: "takeWhile (\<lambda>d. d \<noteq> CHR ''.'') (x @ CHR ''.'' # y) = x" "dropWhile (\<lambda>d. d \<noteq> CHR ''.'') (x @ CHR ''.'' # y) = CHR ''.'' # y"
    if "CHR ''.'' \<notin> set x" for x y
    using that by (induction x) auto
  show ?thesis using assms by (simp add: eval_nat_numeral t)
qed

lemma base64_no_dot: "CHR ''.'' \<notin> set (base64URLEncode s)"
  using base64_chars [of s] by (auto simp: list_all_iff)

lemma verify_signed:
  assumes "sendable c"
  shows "verifyJWT now (signJWT c secret) secret = (if jc_Exp c < now then Inl Expired else Inr c)"
proof -
  let ?b = "base64URLEncode (Marshal (json_of_claims c))"
  have "SplitN 3 CHR ''.'' (signJWT c secret) =
      [jwtHeaderEncoded, ?b, base64URLEncode (signature secret (jwtHeaderEncoded @ ''.'' @ ?b))]"
    using SplitN_3 [of jwtHeaderEncoded ?b] base64_no_dot by (simp add: signJWT_def jwtHeaderEncoded_def)
  then show ?thesis by (simp add: verifyJWT_def base64_roundtrip claims_roundtrip [OF assms] del: bind_eq_Some_conv)
qed

text \<open>What a valid header consists of.\<close>

lemma SplitN_3_inv: "SplitN 3 CHR ''.'' t = [a, b, c] \<Longrightarrow> t = a @ ''.'' @ b @ ''.'' @ c"
proof -
  have j: "CHR ''.'' \<in> set s \<Longrightarrow> takeWhile (\<lambda>d. d \<noteq> CHR ''.'') s @ CHR ''.'' # tl (dropWhile (\<lambda>d. d \<noteq> CHR ''.'') s) = s" for s
    by (induction s) auto
  assume "SplitN 3 CHR ''.'' t = [a, b, c]"
  then show ?thesis using j [of t] j [of "tl (dropWhile (\<lambda>d. d \<noteq> CHR ''.'') t)"]
    by (auto simp: eval_nat_numeral split: if_splits)
qed

lemma verify_needs_signature:
  assumes "verifyJWT now t secret = Inr claims"
  shows "\<exists>header body sig. t = header @ ''.'' @ body @ ''.'' @ sig \<and> base64URLDecode sig = Some (hmac secret (header @ ''.'' @ body))
    \<and> now \<le> jc_Exp claims"
proof -
  obtain h b s where t: "SplitN 3 CHR ''.'' t = [h, b, s]"
    using assms by (auto simp: verifyJWT_def split: list.splits)
  then show ?thesis using assms SplitN_3_inv [OF t]
    by (auto simp: verifyJWT_def signature_def Let_def split: option.splits if_splits)
qed

text \<open>
  C21: with credentials configured, a request whose decoded path is under \<open>/api/\<close> and is not the
  login is answered with 401 and changes nothing, unless its header carries a token whose signature
  is the HMAC of its contents under the password and whose time has not run out.
\<close>

theorem api_needs_signature:
  assumes "au_user env \<noteq> [] \<or> au_pass env \<noteq> []"
    and "startsWith (url_path (rq_url r)) ''/api/''" and "url_path (rq_url r) \<noteq> ''/api/v1/login''"
    and "JWTAuthMiddleware env now h r c \<noteq> (c, Some (writeError 401 ''unauthorized''))"
  shows "\<exists>header body sig claims.
    header_get ''Authorization'' (rq_headers r) = ''Bearer '' @ header @ ''.'' @ body @ ''.'' @ sig
    \<and> base64URLDecode sig = Some (hmac (au_pass env) (header @ ''.'' @ body))
    \<and> verifyJWT now (header @ ''.'' @ body @ ''.'' @ sig) (au_pass env) = Inr claims \<and> now \<le> jc_Exp claims"
proof -
  let ?h = "header_get ''Authorization'' (rq_headers r)"
  have "url_path (rq_url r) \<noteq> ''/healthz''" using assms(2) by (auto simp: startsWith_def)
  then have v: "startsWith ?h ''Bearer ''" "\<not> isl (verifyJWT now (TrimPrefix ?h ''Bearer '') (au_pass env))"
    using assms by (auto simp: JWTAuthMiddleware_def bearer_valid_def Let_def split: if_splits)
  then obtain claims where c: "verifyJWT now (TrimPrefix ?h ''Bearer '') (au_pass env) = Inr claims"
    by (cases "verifyJWT now (TrimPrefix ?h ''Bearer '') (au_pass env)") auto
  have "?h = ''Bearer '' @ TrimPrefix ?h ''Bearer ''"
    using v(1) append_take_drop_id [of "length ''Bearer ''" ?h] by (simp add: TrimPrefix_def startsWith_def)
  with verify_needs_signature [OF c] c show ?thesis by metis
qed

definition demo_auth :: auth_env where
  "demo_auth = \<lparr>au_user = ''admin'', au_pass = ''pw''\<rparr>"

definition token_request :: "string \<Rightarrow> string \<Rightarrow> http_request" where
  "token_request url t = \<lparr>rq_url = url, rq_method = ''GET'', rq_headers = [(''Authorization'', ''Bearer '' @ t)], rq_body = None\<rparr>"

lemma token_request_valid:
  "bearer_valid env now (token_request url t) \<longleftrightarrow> \<not> isl (verifyJWT now t (au_pass env))"
  by (simp add: bearer_valid_def token_request_def header_get_def TrimPrefix_def startsWith_def)

theorem api_needs_signature_witness:
  "\<exists>header body sig claims.
     signJWT \<lparr>jc_Sub = ''admin'', jc_Exp = 10, jc_Iat = 0\<rparr> ''pw'' = header @ ''.'' @ body @ ''.'' @ sig
     \<and> base64URLDecode sig = Some (hmac ''pw'' (header @ ''.'' @ body))
     \<and> verifyJWT 5 (header @ ''.'' @ body @ ''.'' @ sig) ''pw'' = Inr claims \<and> 5 \<le> jc_Exp claims"
proof -
  let ?c = "\<lparr>jc_Sub = ''admin'', jc_Exp = 10, jc_Iat = 0\<rparr>"
  let ?r = "token_request ''/api/v1/log%69n/'' (signJWT ?c ''pw'')"
  have path: "url_path ''/api/v1/log%69n/'' = ''/api/v1/login/''" by code_simp
  have "sendable ?c" by (simp add: sendable_def)
  then have "bearer_valid demo_auth 5 ?r" by (simp add: token_request_valid verify_signed demo_auth_def)
  then have "JWTAuthMiddleware demo_auth 5 (\<lambda>r c. (c + 1, Some status_ok)) ?r (0 :: nat) \<noteq> (0, Some (writeError 401 ''unauthorized''))"
    by (simp add: JWTAuthMiddleware_def demo_auth_def Let_def)
  moreover have "au_user demo_auth \<noteq> [] \<or> au_pass demo_auth \<noteq> []" "startsWith (url_path (rq_url ?r)) ''/api/''"
    "url_path (rq_url ?r) \<noteq> ''/api/v1/login''" "header_get ''Authorization'' (rq_headers ?r) = ''Bearer '' @ signJWT ?c ''pw''"
    "au_pass demo_auth = ''pw''"
    by (simp_all add: demo_auth_def token_request_def path startsWith_def header_get_def)
  ultimately show ?thesis
    using api_needs_signature [of demo_auth ?r 5 "\<lambda>r c. (c + 1, Some status_ok)" "0 :: nat"] by simp
qed

text \<open>
  C15: signing in with the configured credentials returns a token that opens the API for exactly the
  next 24 hours.
\<close>

theorem login_token_lasts_a_day:
  assumes "rq_body r = o_body (snd (login (au_user env) (au_pass env)))" and "\<bar>t\<bar> \<le> 2 ^ 52"
  shows "\<exists>tok. Login_handler env t r = writeJSON 200 (JObj [(''token'', JStr tok)])
    \<and> (\<forall>now url. bearer_valid env now (token_request url tok) \<longleftrightarrow> now \<le> t + 86400)"
proof -
  let ?c = "\<lparr>jc_Sub = au_user env, jc_Exp = t + 24 * 3600, jc_Iat = t\<rparr>"
  have "\<bar>t + 86400\<bar> \<le> 2 ^ 53" "\<bar>t\<bar> \<le> 2 ^ 53" using assms(2) by (simp_all add: abs_le_iff)
  then have "sendable ?c" by (simp add: sendable_def)
  then have "bearer_valid env now (token_request url (signJWT ?c (au_pass env))) \<longleftrightarrow> now \<le> t + 86400" for now url
    by (simp add: token_request_valid verify_signed)
  moreover have "Login_handler env t r = writeJSON 200 (JObj [(''token'', JStr (signJWT ?c (au_pass env)))])"
    using assms(1)
    by (simp add: Login_handler_def login_def decode_login_def de_struct_def field_def de_string_def ToLower_def lower_ascii_def)
  ultimately show ?thesis by blast
qed

theorem login_token_lasts_a_day_witness:
  "\<exists>tok. Login_handler demo_auth 0 \<lparr>rq_url = ''/api/v1/login'', rq_method = ''POST'', rq_headers = [],
       rq_body = o_body (snd (login ''admin'' ''pw''))\<rparr> = writeJSON 200 (JObj [(''token'', JStr tok)])
     \<and> bearer_valid demo_auth 86400 (token_request ''/'' tok) \<and> \<not> bearer_valid demo_auth 86401 (token_request ''/'' tok)"
  using login_token_lasts_a_day [of "\<lparr>rq_url = ''/api/v1/login'', rq_method = ''POST'', rq_headers = [],
       rq_body = o_body (snd (login ''admin'' ''pw''))\<rparr>" demo_auth 0]
  by (auto simp: demo_auth_def)

end
