(* ===== verification/Notify.thy ===== *)
theory Notify
  imports Scheduler GoJson Auth
begin

text \<open>
  \<open>operator/internal/notify\<close>: the notifiers for Slack, GitHub and Jira.  A notifier turns the
  event of a transition into one HTTP request and judges the answer.  The network is a parameter:
  which addresses no request can be made for, and the answer to a request.  Strings are bytes, the
  emoji and arrows of the messages their UTF-8 forms; a Go map is written with its keys in order.
\<close>

section \<open>Requests\<close>

record outgoing =
  og_url :: string
  og_headers :: "(string \<times> string) list"
  og_body :: string

record web =
  w_bad_url :: "string \<Rightarrow> string option"
  w_do :: "outgoing \<Rightarrow> string + nat"

text \<open>The common end of all \<open>Send\<close> methods: build the request, send it, compare the status.\<close>

definition deliver :: "web \<Rightarrow> string \<Rightarrow> nat \<Rightarrow> outgoing \<Rightarrow> string option" where
  "deliver w service expected req =
     (case w_bad_url w (og_url req) of
        Some err \<Rightarrow> Some (''creating '' @ service @ '' request: '' @ err)
      | None \<Rightarrow>
          (case w_do w req of
             Inl err \<Rightarrow> Some (''sending '' @ service @ '' notification: '' @ err)
           | Inr status \<Rightarrow>
               if status \<noteq> expected then Some (service @ '' API returned status '' @ dec (int status)) else None))"

definition state_text :: "AlertState \<Rightarrow> string" where
  "state_text s =
     (case s of StateUnknown \<Rightarrow> ''UNKNOWN'' | StateFiring \<Rightarrow> ''FIRING'' | StateResolved \<Rightarrow> ''RESOLVED'' | StateEscalated \<Rightarrow> ''ESCALATED'')"

definition arrow :: string where
  "arrow = [CHR 0xE2, CHR 0x86, CHR 0x92]"

section \<open>Slack\<close>

record SlackNotifier =
  sln_webhookURL :: string
  sln_channel :: string

definition NewSlackNotifier :: "string \<Rightarrow> string \<Rightarrow> SlackNotifier" where
  "NewSlackNotifier webhookURL channel = \<lparr>sln_webhookURL = webhookURL, sln_channel = channel\<rparr>"

definition emojiForTransition :: "AlertState \<Rightarrow> string" where
  "emojiForTransition s =
     (case s of
        StateFiring \<Rightarrow> [CHR 0xF0, CHR 0x9F, CHR 0x94, CHR 0xB4]
      | StateResolved \<Rightarrow> [CHR 0xE2, CHR 0x9C, CHR 0x85]
      | StateEscalated \<Rightarrow> [CHR 0xF0, CHR 0x9F, CHR 0x9A, CHR 0xA8]
      | _ \<Rightarrow> [CHR 0xE2, CHR 0x84, CHR 0xB9, CHR 0xEF, CHR 0xB8, CHR 0x8F])"

definition colorForTransition :: "AlertState \<Rightarrow> string" where
  "colorForTransition s =
     (case s of StateFiring \<Rightarrow> ''#ff0000'' | StateResolved \<Rightarrow> ''#36a64f'' | StateEscalated \<Rightarrow> ''#ff6600'' | _ \<Rightarrow> ''#cccccc'')"

text \<open>\<open>%.500s\<close>: at most that many characters of a UTF-8 text; a byte that continues a character counts with it.\<close>

definition continues :: "char \<Rightarrow> bool" where
  "continues c \<longleftrightarrow> (let n = of_char c :: nat in 128 \<le> n \<and> n < 192)"

fun take_runes :: "nat \<Rightarrow> string \<Rightarrow> string" where
  "take_runes n [] = []"
| "take_runes n (c # s) =
     (if continues c then c # take_runes n s
      else case n of 0 \<Rightarrow> [] | Suc m \<Rightarrow> c # take_runes m s)"

definition mrkdwn :: "string \<Rightarrow> json" where
  "mrkdwn t = JObj [(''text'', JStr t), (''type'', JStr ''mrkdwn'')]"

definition slack_payload :: "SlackNotifier \<Rightarrow> Event \<Rightarrow> json" where
  "slack_payload s ev =
     (let to = tr_To (ev_Transition ev)
      in JObj [(''attachments'', JArr [JObj
           [(''blocks'', JArr
              [JObj [(''text'', JObj [(''text'', JStr (emojiForTransition to @ '' DTM Check '' @ state_text to)), (''type'', JStr ''plain_text'')]),
                     (''type'', JStr ''header'')],
               JObj [(''fields'', JArr [mrkdwn (''*Policy:*\<newline>'' @ ev_PolicyRef ev), mrkdwn (''*Check:*\<newline>'' @ ev_CheckID ev),
                                       mrkdwn (''*Severity:*\<newline>'' @ ev_Severity ev), mrkdwn (''*Verdict:*\<newline>'' @ ev_Verdict ev)]),
                     (''type'', JStr ''section'')],
               JObj [(''text'', mrkdwn (''*Description:*\<newline>'' @ ev_Description ev)), (''type'', JStr ''section'')],
               JObj [(''text'', mrkdwn (''*Reasoning:*\<newline>'' @ take_runes 500 (ev_Reasoning ev))), (''type'', JStr ''section'')]]),
            (''color'', JStr (colorForTransition to))]]),
           (''channel'', JStr (sln_channel s))])"

definition slack_request :: "SlackNotifier \<Rightarrow> Event \<Rightarrow> outgoing" where
  "slack_request s ev =
     \<lparr>og_url = sln_webhookURL s, og_headers = [(''Content-Type'', ''application/json'')], og_body = Marshal (slack_payload s ev)\<rparr>"

definition slack_notifier :: "web \<Rightarrow> SlackNotifier \<Rightarrow> Notifier" where
  "slack_notifier w s = \<lparr>nf_Name = ''slack'', nf_Send = (\<lambda>ev. deliver w ''slack'' 200 (slack_request s ev))\<rparr>"

section \<open>GitHub\<close>

record GitHubNotifier =
  ghn_token :: string
  ghn_owner :: string
  ghn_repo :: string
  ghn_labels :: "string list"

definition NewGitHubNotifier :: "string \<Rightarrow> string \<Rightarrow> string \<Rightarrow> string list \<Rightarrow> GitHubNotifier" where
  "NewGitHubNotifier tok owner repo labels = \<lparr>ghn_token = tok, ghn_owner = owner, ghn_repo = repo, ghn_labels = labels\<rparr>"

text \<open>The title of an issue and the summary of a ticket are the same text.\<close>

definition issue_title :: "Event \<Rightarrow> string" where
  "issue_title ev =
     (let to = tr_To (ev_Transition ev)
      in if to = StateResolved then ''[DTM] RESOLVED - '' @ ev_PolicyRef ev @ '' Check '' @ ev_CheckID ev
         else ''[DTM] '' @ ev_PolicyRef ev @ '' - Check '' @ ev_CheckID ev @ '': '' @ state_text to)"

definition github_body :: "Event \<Rightarrow> string" where
  "github_body ev =
     ''## DTM Check Alert\<newline>\<newline>**Policy:** '' @ ev_PolicyRef ev @ ''\<newline>**Check ID:** '' @ ev_CheckID ev
     @ ''\<newline>**Severity:** '' @ ev_Severity ev @ ''\<newline>**Verdict:** '' @ ev_Verdict ev
     @ ''\<newline>**State:** '' @ state_text (tr_From (ev_Transition ev)) @ '' '' @ arrow @ '' '' @ state_text (tr_To (ev_Transition ev))
     @ ''\<newline>\<newline>### Description\<newline>'' @ ev_Description ev @ ''\<newline>\<newline>### Reasoning\<newline>'' @ ev_Reasoning ev @ ''\<newline>''"

text \<open>Labels that are not given are a nil slice, written as null.\<close>

definition github_payload :: "GitHubNotifier \<Rightarrow> Event \<Rightarrow> json" where
  "github_payload g ev =
     JObj [(''body'', JStr (github_body ev)),
           (''labels'', if ghn_labels g = [] then JNull else JArr (map JStr (ghn_labels g))),
           (''title'', JStr (issue_title ev))]"

definition github_request :: "GitHubNotifier \<Rightarrow> Event \<Rightarrow> outgoing" where
  "github_request g ev =
     \<lparr>og_url = ''https://api.github.com/repos/'' @ ghn_owner g @ ''/'' @ ghn_repo g @ ''/issues'',
      og_headers = [(''Content-Type'', ''application/json''), (''Authorization'', ''token '' @ ghn_token g),
                    (''Accept'', ''application/vnd.github.v3+json'')],
      og_body = Marshal (github_payload g ev)\<rparr>"

definition github_notifier :: "web \<Rightarrow> GitHubNotifier \<Rightarrow> Notifier" where
  "github_notifier w g = \<lparr>nf_Name = ''github'', nf_Send = (\<lambda>ev. deliver w ''github'' 201 (github_request g ev))\<rparr>"

section \<open>Jira\<close>

record JiraNotifier =
  jn_url :: string
  jn_email :: string
  jn_token :: string
  jn_project :: string
  jn_issueType :: string

definition NewJiraNotifier :: "string \<Rightarrow> string \<Rightarrow> string \<Rightarrow> string \<Rightarrow> string \<Rightarrow> JiraNotifier" where
  "NewJiraNotifier url email tok project issueType =
     \<lparr>jn_url = url, jn_email = email, jn_token = tok, jn_project = project,
      jn_issueType = (if issueType = [] then ''Bug'' else issueType)\<rparr>"

definition jira_description :: "Event \<Rightarrow> string" where
  "jira_description ev =
     ''Policy: '' @ ev_PolicyRef ev @ ''\<newline>Check ID: '' @ ev_CheckID ev @ ''\<newline>Severity: '' @ ev_Severity ev
     @ ''\<newline>Verdict: '' @ ev_Verdict ev @ ''\<newline>State: '' @ state_text (tr_From (ev_Transition ev)) @ '' '' @ arrow @ '' ''
     @ state_text (tr_To (ev_Transition ev)) @ ''\<newline>\<newline>Description:\<newline>'' @ ev_Description ev
     @ ''\<newline>\<newline>Reasoning:\<newline>'' @ ev_Reasoning ev"

definition jira_payload :: "JiraNotifier \<Rightarrow> Event \<Rightarrow> json" where
  "jira_payload j ev =
     JObj [(''fields'', JObj
       [(''description'', JStr (jira_description ev)), (''issuetype'', JObj [(''name'', JStr (jn_issueType j))]),
        (''project'', JObj [(''key'', JStr (jn_project j))]), (''summary'', JStr (issue_title ev))])]"

text \<open>\<open>SetBasicAuth\<close>: the credentials in the alphabet of plain base64, padded to groups of four.\<close>

definition basic_auth :: "string \<Rightarrow> string \<Rightarrow> string" where
  "basic_auth user password =
     (let b = map (\<lambda>c. if c = CHR ''-'' then CHR ''+'' else if c = CHR ''_'' then CHR ''/'' else c) (base64URLEncode (user @ '':'' @ password))
      in ''Basic '' @ b @ replicate ((4 - length b mod 4) mod 4) CHR ''='')"

definition jira_request :: "JiraNotifier \<Rightarrow> Event \<Rightarrow> outgoing" where
  "jira_request j ev =
     \<lparr>og_url = jn_url j @ ''/rest/api/2/issue'',
      og_headers = [(''Content-Type'', ''application/json''), (''Authorization'', basic_auth (jn_email j) (jn_token j))],
      og_body = Marshal (jira_payload j ev)\<rparr>"

definition jira_notifier :: "web \<Rightarrow> JiraNotifier \<Rightarrow> Notifier" where
  "jira_notifier w j = \<lparr>nf_Name = ''jira'', nf_Send = (\<lambda>ev. deliver w ''jira'' 201 (jira_request j ev))\<rparr>"

section \<open>What arrives\<close>

lemma deliver_ok: "deliver w service expected req = None \<longleftrightarrow> w_bad_url w (og_url req) = None \<and> w_do w req = Inr expected"
  by (auto simp: deliver_def split: option.splits sum.splits if_splits)

lemma list_all_strings: "list_all wf_json (map JStr xs)"
  by (simp add: list_all_iff)

text \<open>
  what the services decode is what was meant, whatever characters the texts contain: the
  issue carries the title of the transition and the labels, the ticket its summary and project,
  and the description names policy, check, severity, verdict, both states and the reasoning.
\<close>

theorem notifications_decode:
  "go_parse (og_body (github_request g ev)) =
     Some (JObj [(''body'', JStr (github_body ev)), (''labels'', if ghn_labels g = [] then JNull else JArr (map JStr (ghn_labels g))),
                 (''title'', JStr (issue_title ev))])
   \<and> go_parse (og_body (jira_request j ev)) = Some (jira_payload j ev)
   \<and> go_parse (og_body (slack_request s ev)) = Some (slack_payload s ev)"
  by (simp add: github_request_def jira_request_def slack_request_def github_payload_def [symmetric])
    (simp add: unmarshal_marshal github_payload_def jira_payload_def slack_payload_def mrkdwn_def list_all_strings Let_def)

fun rune_count :: "string \<Rightarrow> nat" where
  "rune_count [] = 0"
| "rune_count (c # s) = (if continues c then rune_count s else Suc (rune_count s))"

lemma take_runes_count: "rune_count (take_runes n s) = min n (rune_count s)"
  by (induction n s rule: take_runes.induct) (auto split: nat.splits)

lemma take_runes_all: "rune_count s \<le> n \<Longrightarrow> take_runes n s = s"
  by (induction n s rule: take_runes.induct) (auto split: nat.splits if_splits)

text \<open>The characters that follow a cut begin a new one: no character is split.\<close>

lemma take_runes_whole: "\<exists>r. s = take_runes n s @ r \<and> (case r of [] \<Rightarrow> True | c # u \<Rightarrow> \<not> continues c)"
  by (induction n s rule: take_runes.induct) (auto split: nat.splits)

text \<open>
  the reasoning in a Slack message is the beginning of the reasoning, at most 500 characters
  long and cut between characters; exactly one that is short enough is sent whole.
\<close>

theorem slack_reasoning_cut:
  "rune_count (take_runes 500 t) = min 500 (rune_count t)
   \<and> (take_runes 500 t = t \<longleftrightarrow> rune_count t \<le> 500)
   \<and> (\<exists>r. t = take_runes 500 t @ r \<and> (case r of [] \<Rightarrow> True | c # u \<Rightarrow> \<not> continues c))"
proof (intro conjI)
  show "take_runes 500 t = t \<longleftrightarrow> rune_count t \<le> 500"
    using take_runes_count [of 500 t] take_runes_all [of t 500] by (metis min.cobounded1)
qed (rule take_runes_count, rule take_runes_whole)

end
