(* ===== verification/Tools.thy ===== *)
theory Tools
  imports Engine GoJson
begin

text \<open>
  \<open>operator/internal/engine/tool\<close>: the seven tools with which a language model inspects the
  cluster.  The clientset of Kubernetes is a parameter, a record of the calls the tools make, at a
  moment each; of the objects they return, the fields are listed that the tools read.  Quantities
  and values that are a number or a percentage are given as their texts, the smallest number of
  replicas of an autoscaler, which the API server fills in, as a number.  So are the error texts
  of the decoder parameters.
\<close>

section \<open>What the clientset returns\<close>

record container_status =
  cs_Name :: string
  cs_RestartCount :: "32 word"
  cs_Waiting :: "(string \<times> string) option"
  cs_Terminated :: "(string \<times> 32 word) option"

record object_condition =
  oc_Type :: string
  oc_Status :: string
  oc_Message :: string

record container =
  ct_Image :: string
  ct_PullPolicy :: string

record pod =
  pod_Name :: string
  pod_Phase :: string
  pod_NodeName :: string
  pod_Containers :: "container list"
  pod_InitContainers :: "container list"
  pod_Statuses :: "container_status list"
  pod_Conditions :: "object_condition list"

record kube_node =
  nd_Name :: string
  nd_Cpu :: string
  nd_Memory :: string
  nd_Conditions :: "object_condition list"
  nd_Taints :: "(string \<times> string \<times> string) list"

record kube_event =
  ke_Type :: string
  ke_Kind :: string
  ke_Name :: string
  ke_Message :: string
  ke_Count :: "32 word"
  ke_Reason :: string

record pdb =
  pdb_Name :: string
  pdb_MinAvailable :: "string option"
  pdb_MaxUnavailable :: "string option"
  pdb_DisruptionsAllowed :: "32 word"
  pdb_CurrentHealthy :: "32 word"
  pdb_DesiredHealthy :: "32 word"
  pdb_ExpectedPods :: "32 word"

text \<open>The resource metrics of an autoscaler: name and average utilisation.\<close>

record hpa =
  hpa_Name :: string
  hpa_Kind :: string
  hpa_Target :: string
  hpa_MinReplicas :: "32 word"
  hpa_MaxReplicas :: "32 word"
  hpa_CurrentReplicas :: "32 word"
  hpa_DesiredReplicas :: "32 word"
  hpa_Metrics :: "(string \<times> 32 word option) option list"
  hpa_Conditions :: "object_condition list"

record log_options =
  lo_TailLines :: int
  lo_Previous :: bool
  lo_Container :: string

record clientset =
  c_pods :: "nat \<Rightarrow> string \<Rightarrow> string \<Rightarrow> string \<Rightarrow> string + pod list"
  c_nodes :: "nat \<Rightarrow> string \<Rightarrow> string + kube_node list"
  c_events :: "nat \<Rightarrow> string \<Rightarrow> string \<Rightarrow> int \<Rightarrow> string + kube_event list"
  c_pdbs :: "nat \<Rightarrow> string \<Rightarrow> string + pdb list"
  c_hpas :: "nat \<Rightarrow> string \<Rightarrow> string + hpa list"
  c_stream :: "nat \<Rightarrow> string \<Rightarrow> string \<Rightarrow> log_options \<Rightarrow> string + (string + string)"
  c_decode_error :: "string \<Rightarrow> string"
  c_image_order :: "(string \<times> string list \<times> string) list \<Rightarrow> (string \<times> string list \<times> string) list"

section \<open>Shared shapes\<close>

abbreviation newline :: string where
  "newline \<equiv> ''\<newline>''"

abbreviation dec32 :: "32 word \<Rightarrow> string" where
  "dec32 w \<equiv> dec (sint w)"

text \<open>\<open>json.Unmarshal\<close> of the parameters and what each tool does with its error.\<close>

definition with_params :: "clientset \<Rightarrow> (json \<Rightarrow> 'a option) \<Rightarrow> string \<Rightarrow> ('a \<Rightarrow> string + string) \<Rightarrow> string + string" where
  "with_params cs d params k =
     (case Option.bind (go_parse params) d of
        None \<Rightarrow> Inl (''parsing params: '' @ c_decode_error cs params)
      | Some p \<Rightarrow> k p)"

text \<open>
  A listing: the error of the call with its prefix, a fixed text for an empty list, otherwise a
  headline and the lines of the items.
\<close>

definition listing :: "string \<Rightarrow> string \<Rightarrow> string \<Rightarrow> ('a \<Rightarrow> string) \<Rightarrow> string + 'a list \<Rightarrow> string + string" where
  "listing what none plural line answer =
     (case answer of
        Inl err \<Rightarrow> Inl (''listing '' @ what @ '': '' @ err)
      | Inr items \<Rightarrow>
          if length items = 0 then Inr none
          else Inr (''Found '' @ dec (int (length items)) @ '' '' @ plural @ '':'' @ newline @ concat (map line items)))"

definition string_param :: "string \<Rightarrow> bool \<Rightarrow> string \<Rightarrow> Parameter" where
  "string_param name required description =
     \<lparr>par_Name = name, par_Type = ''string'', par_Description = description, par_Required = required\<rparr>"

definition namespace_param :: Parameter where
  "namespace_param = string_param ''namespace'' True ''Kubernetes namespace''"

definition false_condition :: "object_condition \<Rightarrow> string" where
  "false_condition cond =
     (if oc_Status cond = ''False'' then ''  Condition '' @ oc_Type cond @ ''=False: '' @ oc_Message cond @ newline else [])"

section \<open>Pods\<close>

fun sum_restarts :: "container_status list \<Rightarrow> 32 word \<Rightarrow> 32 word" where
  "sum_restarts [] restarts = restarts"
| "sum_restarts (c # css) restarts = sum_restarts css (restarts + cs_RestartCount c)"

definition container_lines :: "container_status \<Rightarrow> string" where
  "container_lines c =
     (case cs_Waiting c of None \<Rightarrow> []
      | Some (reason, message) \<Rightarrow> ''  Container '' @ cs_Name c @ '': Waiting ('' @ reason @ '': '' @ message @ '')'' @ newline)
     @ (case cs_Terminated c of None \<Rightarrow> []
        | Some (reason, exit) \<Rightarrow> ''  Container '' @ cs_Name c @ '': Terminated ('' @ reason @ '', exit='' @ dec32 exit @ '')'' @ newline)"

definition pod_lines :: "pod \<Rightarrow> string" where
  "pod_lines p =
     ''- '' @ pod_Name p @ '' | Phase: '' @ pod_Phase p @ '' | Restarts: '' @ dec32 (sum_restarts (pod_Statuses p) 0)
     @ '' | Node: '' @ pod_NodeName p @ newline
     @ concat (map container_lines (pod_Statuses p)) @ concat (map false_condition (pod_Conditions p))"

definition decode_pods_params :: "json \<Rightarrow> (string \<times> string \<times> string) option" where
  "decode_pods_params = de_struct (\<lambda>fs. do {
     ns \<leftarrow> de_string (field ''namespace'' fs);
     l \<leftarrow> de_string (field ''labelSelector'' fs);
     f \<leftarrow> de_string (field ''fieldSelector'' fs);
     Some (ns, l, f)})"

definition list_pods :: "clientset \<Rightarrow> tool_func" where
  "list_pods cs now params =
     with_params cs decode_pods_params params (\<lambda>(ns, l, f).
       listing ''pods'' ''No pods found.'' ''pods'' pod_lines (c_pods cs now ns l f))"

definition RegisterPods :: "clientset \<Rightarrow> Registry \<Rightarrow> Registry" where
  "RegisterPods cs =
     Register \<lparr>def_Name = ''list_pods'',
       def_Description = ''List pods in a namespace with optional label and field selectors. Returns pod name, status, restarts, and age.'',
       def_Parameters = [namespace_param, string_param ''labelSelector'' False ''Label selector (e.g. app=nginx)'',
         string_param ''fieldSelector'' False ''Field selector (e.g. status.phase=Running)'']\<rparr> (list_pods cs)"

section \<open>Nodes\<close>

definition node_ready :: "object_condition list \<Rightarrow> string" where
  "node_ready conds =
     fold (\<lambda>cond ready.
             if oc_Type cond = ''Ready''
             then (if oc_Status cond = ''True'' then ''Ready'' else ''NotReady ('' @ oc_Message cond @ '')'')
             else ready) conds ''Unknown''"

definition true_condition :: "object_condition \<Rightarrow> string" where
  "true_condition cond =
     (if oc_Type cond \<noteq> ''Ready'' \<and> oc_Status cond = ''True''
      then ''  Condition '' @ oc_Type cond @ ''=True: '' @ oc_Message cond @ newline else [])"

definition node_lines :: "kube_node \<Rightarrow> string" where
  "node_lines n =
     ''- '' @ nd_Name n @ '' | '' @ node_ready (nd_Conditions n) @ '' | CPU: '' @ nd_Cpu n @ '' | Memory: '' @ nd_Memory n @ newline
     @ concat (map true_condition (nd_Conditions n))
     @ concat (map (\<lambda>(key, value, eff). ''  Taint: '' @ key @ ''='' @ value @ '':'' @ eff @ newline) (nd_Taints n))"

definition list_nodes :: "clientset \<Rightarrow> tool_func" where
  "list_nodes cs now params =
     with_params cs (de_struct (\<lambda>fs. de_string (field ''labelSelector'' fs))) params (\<lambda>l.
       listing ''nodes'' ''No nodes found.'' ''nodes'' node_lines (c_nodes cs now l))"

definition RegisterNodes :: "clientset \<Rightarrow> Registry \<Rightarrow> Registry" where
  "RegisterNodes cs =
     Register \<lparr>def_Name = ''list_nodes'',
       def_Description = ''List cluster nodes with their status, conditions, capacity, and allocatable resources.'',
       def_Parameters = [string_param ''labelSelector'' False ''Label selector to filter nodes'']\<rparr> (list_nodes cs)"

section \<open>Events\<close>

definition event_line :: "kube_event \<Rightarrow> string" where
  "event_line ev =
     ''- ['' @ ke_Type ev @ ''] '' @ ke_Kind ev @ ''/'' @ ke_Name ev @ '': '' @ ke_Message ev @ '' (count='' @ dec32 (ke_Count ev)
     @ '', reason='' @ ke_Reason ev @ '')'' @ newline"

definition decode_events_params :: "json \<Rightarrow> (string \<times> string \<times> int) option" where
  "decode_events_params = de_struct (\<lambda>fs. do {
     ns \<leftarrow> de_string (field ''namespace'' fs);
     f \<leftarrow> de_string (field ''fieldSelector'' fs);
     l \<leftarrow> de_int64 (field ''limit'' fs);
     Some (ns, f, l)})"

definition list_events :: "clientset \<Rightarrow> tool_func" where
  "list_events cs now params =
     with_params cs decode_events_params params (\<lambda>(ns, f, l).
       let limit = (if 0 < l then l else 50)
       in listing ''events'' ''No events found.'' ''events'' event_line (c_events cs now ns f limit))"

definition RegisterEvents :: "clientset \<Rightarrow> Registry \<Rightarrow> Registry" where
  "RegisterEvents cs =
     Register \<lparr>def_Name = ''list_events'',
       def_Description = ''List Kubernetes events in a namespace. Can filter by involved object using fieldSelector (e.g. involvedObject.name=my-pod).'',
       def_Parameters = [namespace_param, string_param ''fieldSelector'' False ''Field selector to filter events'',
         \<lparr>par_Name = ''limit'', par_Type = ''integer'', par_Description = ''Max number of events to return (default 50)'',
          par_Required = False\<rparr>]\<rparr> (list_events cs)"

section \<open>Disruption budgets and autoscalers\<close>

definition or_na :: "string option \<Rightarrow> string" where
  "or_na v = (case v of None \<Rightarrow> ''N/A'' | Some s \<Rightarrow> s)"

definition pdb_line :: "pdb \<Rightarrow> string" where
  "pdb_line b =
     ''- '' @ pdb_Name b @ '' | MinAvailable: '' @ or_na (pdb_MinAvailable b) @ '' | MaxUnavailable: '' @ or_na (pdb_MaxUnavailable b)
     @ '' | AllowedDisruptions: '' @ dec32 (pdb_DisruptionsAllowed b) @ '' | Current: '' @ dec32 (pdb_CurrentHealthy b)
     @ '' | Desired: '' @ dec32 (pdb_DesiredHealthy b) @ '' | Expected: '' @ dec32 (pdb_ExpectedPods b) @ newline"

definition decode_namespace :: "json \<Rightarrow> string option" where
  "decode_namespace = de_struct (\<lambda>fs. de_string (field ''namespace'' fs))"

definition list_pdbs :: "clientset \<Rightarrow> tool_func" where
  "list_pdbs cs now params =
     with_params cs decode_namespace params (\<lambda>ns.
       listing ''PDBs'' ''No PodDisruptionBudgets found.'' ''PDBs'' pdb_line (c_pdbs cs now ns))"

definition RegisterPDB :: "clientset \<Rightarrow> Registry \<Rightarrow> Registry" where
  "RegisterPDB cs =
     Register \<lparr>def_Name = ''list_pdbs'',
       def_Description = ''List PodDisruptionBudgets in a namespace with their status (allowed disruptions, current/desired/expected healthy).'',
       def_Parameters = [namespace_param]\<rparr> (list_pdbs cs)"

definition metric_line :: "(string \<times> 32 word option) option \<Rightarrow> string" where
  "metric_line m =
     (case m of None \<Rightarrow> []
      | Some (name, u) \<Rightarrow> ''  Metric '' @ name @ '': '' @ or_na (map_option (\<lambda>w. dec32 w @ ''%'') u) @ newline)"

definition hpa_lines :: "hpa \<Rightarrow> string" where
  "hpa_lines h =
     ''- '' @ hpa_Name h @ '' | Target: '' @ hpa_Kind h @ ''/'' @ hpa_Target h @ '' | Min: '' @ dec32 (hpa_MinReplicas h)
     @ '' | Max: '' @ dec32 (hpa_MaxReplicas h) @ '' | Current: '' @ dec32 (hpa_CurrentReplicas h)
     @ '' | Desired: '' @ dec32 (hpa_DesiredReplicas h) @ newline
     @ concat (map metric_line (hpa_Metrics h)) @ concat (map false_condition (hpa_Conditions h))"

definition list_hpas :: "clientset \<Rightarrow> tool_func" where
  "list_hpas cs now params =
     with_params cs decode_namespace params (\<lambda>ns.
       listing ''HPAs'' ''No HorizontalPodAutoscalers found.'' ''HPAs'' hpa_lines (c_hpas cs now ns))"

definition RegisterHPA :: "clientset \<Rightarrow> Registry \<Rightarrow> Registry" where
  "RegisterHPA cs =
     Register \<lparr>def_Name = ''list_hpas'',
       def_Description = ''List HorizontalPodAutoscalers in a namespace with current/desired replicas and scaling metrics.'',
       def_Parameters = [namespace_param]\<rparr> (list_hpas cs)"

section \<open>Images\<close>

text \<open>The map of images, with the pods that use each and the policy of its first use.\<close>

type_synonym images = "(string \<times> string list \<times> string) list"

definition add_image :: "string \<Rightarrow> container \<Rightarrow> images \<Rightarrow> images" where
  "add_image user c images =
     (case map_of images (ct_Image c) of
        Some (pods, policy) \<Rightarrow> AList.update (ct_Image c) (pods @ [user], policy) images
      | None \<Rightarrow> AList.update (ct_Image c) ([user], ct_PullPolicy c) images)"

definition pod_images :: "pod \<Rightarrow> images \<Rightarrow> images" where
  "pod_images p images =
     fold (add_image (pod_Name p @ ''(init)'')) (pod_InitContainers p) (fold (add_image (pod_Name p)) (pod_Containers p) images)"

definition image_line :: "string \<times> string list \<times> string \<Rightarrow> string" where
  "image_line e =
     (case e of (img, pods, policy) \<Rightarrow> ''- '' @ img @ '' | PullPolicy: '' @ policy @ '' | UsedBy: '' @ join '', '' pods @ newline)"

definition decode_images_params :: "json \<Rightarrow> (string \<times> string) option" where
  "decode_images_params = de_struct (\<lambda>fs. do {
     ns \<leftarrow> de_string (field ''namespace'' fs);
     l \<leftarrow> de_string (field ''labelSelector'' fs);
     Some (ns, l)})"

definition list_images :: "clientset \<Rightarrow> tool_func" where
  "list_images cs now params =
     with_params cs decode_images_params params (\<lambda>(ns, l).
       case c_pods cs now ns l [] of
         Inl err \<Rightarrow> Inl (''listing pods: '' @ err)
       | Inr pods \<Rightarrow>
           if length pods = 0 then Inr ''No pods found.''
           else
             let images = fold pod_images pods []
             in Inr (''Found '' @ dec (int (length images)) @ '' unique images across '' @ dec (int (length pods)) @ '' pods:'' @ newline
                     @ concat (map image_line (c_image_order cs images))))"

definition RegisterImages :: "clientset \<Rightarrow> Registry \<Rightarrow> Registry" where
  "RegisterImages cs =
     Register \<lparr>def_Name = ''list_images'',
       def_Description = ''List container images used by pods in a namespace. Shows image name, tag, pull policy, and which pod uses it.'',
       def_Parameters = [namespace_param, string_param ''labelSelector'' False ''Label selector to filter pods'']\<rparr> (list_images cs)"

section \<open>Logs\<close>

definition de_bool :: "json \<Rightarrow> bool option" where
  "de_bool v = (case v of JBool b \<Rightarrow> Some b | JNull \<Rightarrow> Some False | _ \<Rightarrow> None)"

definition decode_logs_params :: "json \<Rightarrow> (string \<times> string \<times> string \<times> int \<times> bool) option" where
  "decode_logs_params = de_struct (\<lambda>fs. do {
     ns \<leftarrow> de_string (field ''namespace'' fs);
     p \<leftarrow> de_string (field ''pod'' fs);
     c \<leftarrow> de_string (field ''container'' fs);
     t \<leftarrow> de_int64 (field ''tailLines'' fs);
     b \<leftarrow> de_bool (field ''previous'' fs);
     Some (ns, p, c, t, b)})"

definition get_logs :: "clientset \<Rightarrow> tool_func" where
  "get_logs cs now params =
     with_params cs decode_logs_params params (\<lambda>(ns, p, c, t, b).
       let opts = \<lparr>lo_TailLines = (if 0 < t then t else 100), lo_Previous = b, lo_Container = c\<rparr>
       in case c_stream cs now ns p opts of
            Inl err \<Rightarrow> Inl (''getting logs: '' @ err)
          | Inr (Inl err) \<Rightarrow> Inl (''reading logs: '' @ err)
          | Inr (Inr logs) \<Rightarrow> if length logs = 0 then Inr ''No logs available.'' else Inr logs)"

definition RegisterLogs :: "clientset \<Rightarrow> Registry \<Rightarrow> Registry" where
  "RegisterLogs cs =
     Register \<lparr>def_Name = ''get_logs'', def_Description = ''Get logs from a specific pod container. Returns the last N lines of logs.'',
       def_Parameters = [namespace_param, string_param ''pod'' True ''Pod name'',
         string_param ''container'' False ''Container name (required if pod has multiple containers)'',
         \<lparr>par_Name = ''tailLines'', par_Type = ''integer'', par_Description = ''Number of lines from the end to return (default 100)'',
          par_Required = False\<rparr>,
         \<lparr>par_Name = ''previous'', par_Type = ''boolean'', par_Description = ''Return logs from previous terminated container'',
          par_Required = False\<rparr>]\<rparr> (get_logs cs)"

text \<open>The registry of a policy, as \<open>reconcileScheduler\<close> builds it.\<close>

definition builtin_registry :: "clientset \<Rightarrow> Registry" where
  "builtin_registry cs =
     RegisterLogs cs (RegisterImages cs (RegisterHPA cs (RegisterPDB cs (RegisterEvents cs (RegisterNodes cs (RegisterPods cs []))))))"

section \<open>What the snapshot sees\<close>

lemma builtin_names: "map fst (builtin_registry cs) =
  [''list_pods'', ''list_nodes'', ''list_events'', ''list_pdbs'', ''list_hpas'', ''list_images'', ''get_logs'']"
  by (simp add: builtin_registry_def Register_def RegisterPods_def RegisterNodes_def RegisterEvents_def RegisterPDB_def
      RegisterHPA_def RegisterImages_def RegisterLogs_def)

lemma builtin_calls:
  "Call (builtin_registry cs) now ''list_pods'' params = list_pods cs now params"
  "Call (builtin_registry cs) now ''list_nodes'' params = list_nodes cs now params"
  "Call (builtin_registry cs) now ''get_events'' params = Inl ''tool not found: get_events''"
  by (simp_all add: Call_def builtin_registry_def Register_def RegisterPods_def RegisterNodes_def RegisterEvents_def RegisterPDB_def
      RegisterHPA_def RegisterImages_def RegisterLogs_def)

lemma parse_no_params: "go_parse ''{}'' = Some (JObj [])"
  by code_simp

lemma no_params_calls:
  "list_pods cs now ''{}'' = listing ''pods'' ''No pods found.'' ''pods'' pod_lines (c_pods cs now [] [] [])"
  "list_nodes cs now ''{}'' = listing ''nodes'' ''No nodes found.'' ''nodes'' node_lines (c_nodes cs now [])"
  by (simp_all add: list_pods_def list_nodes_def with_params_def parse_no_params decode_pods_params_def de_struct_def de_string_def)

lemma snapshot_pods_nodes:
  assumes "in_registry env = builtin_registry cs" "in_registry env' = builtin_registry cs'"
    and "c_pods cs' (in_moment env') [] [] [] = c_pods cs (in_moment env) [] [] []"
    and "c_nodes cs' (in_moment env' + 1) [] = c_nodes cs (in_moment env + 1) []"
  shows "scan_snapshot env' = scan_snapshot env"
  using assms
  by (simp add: scan_snapshot_def collectSnapshot_def snapshotTools_def NewCachingRegistry_def cached_Call_def builtin_calls
      no_params_calls Let_def split: sum.splits)

text \<open>
  C30: what decides whether a scan asks the language model at all is the text of the pods and the
  nodes alone.  When they are as in the last scan, all verdicts are repeated without a request,
  whatever the events, logs, budgets, autoscalers and images of the cluster have become: the
  snapshot asks for the events under a name that no tool is registered with.
\<close>

theorem reuse_sees_pods_and_nodes_only:
  assumes "RunChecks env policy checks eng = (eng1, sc1, Inr spec)" and "checks \<noteq> []"
    and "in_registry env = builtin_registry cs" and "in_registry env' = builtin_registry cs'"
    and "c_pods cs' (in_moment env') [] [] [] = c_pods cs (in_moment env) [] [] []"
    and "c_nodes cs' (in_moment env' + 1) [] = c_nodes cs (in_moment env + 1) []"
  shows "\<exists>sc2 spec2. RunChecks env' policy checks eng1 = (eng1, sc2, Inr spec2) \<and> sc_asked sc2 = 0
    \<and> map cres_Verdict (rs_Checks spec2) = map (\<lambda>c. the (verdict_map (rs_Checks spec) (ci_ID c))) checks
    \<and> Call (builtin_registry cs') now ''get_events'' ''{}'' = Inl ''tool not found: get_events''"
  using unchanged_scan_reuses [OF assms(1) snapshot_pods_nodes [OF assms(3-6)] assms(2) order_refl refl]
    RunChecks_result [of env' policy checks eng1] builtin_calls(3)
  by (cases "RunChecks env' policy checks eng1") (auto simp: result_spec_def)

text \<open>A cluster with nothing in it but events.\<close>

definition quiet_cluster :: "kube_event list \<Rightarrow> clientset" where
  "quiet_cluster evs = \<lparr>c_pods = (\<lambda>_ _ _ _. Inr []), c_nodes = (\<lambda>_ _. Inr []), c_events = (\<lambda>_ _ _ _. Inr evs),
     c_pdbs = (\<lambda>_ _. Inr []), c_hpas = (\<lambda>_ _. Inr []), c_stream = (\<lambda>_ _ _ _. Inr (Inr [])), c_decode_error = (\<lambda>_. []),
     c_image_order = id\<rparr>"

definition demo_kube_event :: kube_event where
  "demo_kube_event = \<lparr>ke_Type = ''Warning'', ke_Kind = ''Pod'', ke_Name = ''web'', ke_Message = ''OOMKilled'', ke_Count = 7,
     ke_Reason = ''BackOff''\<rparr>"

definition event_scan :: "kube_event list \<Rightarrow> scan_input" where
  "event_scan evs = (demo_env passing)\<lparr>in_registry := builtin_registry (quiet_cluster evs)\<rparr>"

theorem reuse_sees_pods_and_nodes_only_witness:
  "\<exists>sc2 spec2. RunChecks (event_scan [demo_kube_event]) demo_policyV1 [demo_check ''a'']
       (fst (RunChecks (event_scan []) demo_policyV1 [demo_check ''a''] New))
     = (fst (RunChecks (event_scan []) demo_policyV1 [demo_check ''a''] New), sc2, Inr spec2) \<and> sc_asked sc2 = 0"
proof -
  obtain eng1 sc1 spec where run: "RunChecks (event_scan []) demo_policyV1 [demo_check ''a''] New = (eng1, sc1, Inr spec)"
    using RunChecks_result [of "event_scan []" demo_policyV1 "[demo_check ''a'']" New]
    by (cases "RunChecks (event_scan []) demo_policyV1 [demo_check ''a''] New") auto
  have "\<exists>sc2 spec2. RunChecks (event_scan [demo_kube_event]) demo_policyV1 [demo_check ''a''] eng1 = (eng1, sc2, Inr spec2)
      \<and> sc_asked sc2 = 0
      \<and> map cres_Verdict (rs_Checks spec2) = map (\<lambda>c. the (verdict_map (rs_Checks spec) (ci_ID c))) [demo_check ''a'']
      \<and> Call (builtin_registry (quiet_cluster [demo_kube_event])) 0 ''get_events'' ''{}'' = Inl ''tool not found: get_events''"
    by (rule reuse_sees_pods_and_nodes_only [OF run, where cs = "quiet_cluster []"]) (simp_all add: event_scan_def quiet_cluster_def)
  then show ?thesis by (auto simp: run)
qed

section \<open>The listings\<close>

text \<open>Which container uses which image, in the order of the listing.\<close>

definition image_uses :: "pod list \<Rightarrow> (string \<times> string) list" where
  "image_uses pods =
     concat (map (\<lambda>p. map (\<lambda>c. (ct_Image c, pod_Name p)) (pod_Containers p)
                   @ map (\<lambda>c. (ct_Image c, pod_Name p @ ''(init)'')) (pod_InitContainers p)) pods)"

definition users_of :: "string \<Rightarrow> (string \<times> string) list \<Rightarrow> string list" where
  "users_of img uses = map snd (filter (\<lambda>u. fst u = img) uses)"

definition images_ok :: "images \<Rightarrow> (string \<times> string) list \<Rightarrow> bool" where
  "images_ok imgs uses \<longleftrightarrow>
     distinct (map fst imgs) \<and> fst ` set imgs = fst ` set uses \<and> (\<forall>(img, users, policy) \<in> set imgs. users = users_of img uses)"

lemma users_of_snoc: "users_of img (uses @ [(i, u)]) = users_of img uses @ (if i = img then [u] else [])"
  by (simp add: users_of_def)

lemma add_image_ok:
  assumes "images_ok imgs uses"
  shows "images_ok (add_image user c imgs) (uses @ [(ct_Image c, user)])"
proof -
  let ?i = "ct_Image c"
  have d: "distinct (map fst imgs)" and k: "fst ` set imgs = fst ` set uses"
    and u: "\<And>img users policy. (img, users, policy) \<in> set imgs \<Longrightarrow> users = users_of img uses"
    using assms by (auto simp: images_ok_def)
  have m: "map_of (add_image user c imgs) ?i = Some (users_of ?i uses @ [user], snd (the (map_of (add_image user c imgs) ?i)))"
  proof (cases "map_of imgs ?i")
    case None
    then have "?i \<notin> fst ` set uses" using k by (simp add: map_of_eq_None_iff)
    then have "users_of ?i uses = []" by (force simp: users_of_def filter_empty_conv)
    then show ?thesis by (simp add: add_image_def None update_conv')
  next
    case (Some e)
    then obtain users policy where e: "e = (users, policy)" by (cases e)
    then have "users = users_of ?i uses" using Some u map_of_SomeD by fastforce
    then show ?thesis by (simp add: add_image_def Some e update_conv')
  qed
  have o: "map_of (add_image user c imgs) i = map_of imgs i" if "i \<noteq> ?i" for i
    using that by (auto simp: add_image_def update_conv' split: option.splits)
  have dist: "distinct (map fst (add_image user c imgs))"
    using d by (auto simp: add_image_def distinct_update split: option.splits)
  have "users = users_of img (uses @ [(?i, user)])" if "(img, users, policy) \<in> set (add_image user c imgs)" for img users policy
  proof (cases "img = ?i")
    case True
    then have "map_of (add_image user c imgs) ?i = Some (users, policy)" using that dist by simp
    then show ?thesis using m True by (simp add: users_of_snoc)
  next
    case False
    then have "map_of imgs img = Some (users, policy)" using that dist o [of img] by simp
    then show ?thesis using u map_of_SomeD False by (fastforce simp: users_of_snoc)
  qed
  moreover have "fst ` set (add_image user c imgs) = insert ?i (fst ` set imgs)"
    by (simp add: add_image_def AList.dom_update split: option.split)
  ultimately show ?thesis using dist k by (auto simp: images_ok_def)
qed

lemma fold_images_ok:
  "images_ok imgs uses \<Longrightarrow> images_ok (fold (add_image user) cs imgs) (uses @ map (\<lambda>c. (ct_Image c, user)) cs)"
proof (induction cs arbitrary: imgs uses)
  case (Cons c cs)
  from Cons.IH [OF add_image_ok [OF Cons.prems]] show ?case by simp
qed simp

lemma pods_images_ok: "images_ok imgs uses \<Longrightarrow> images_ok (fold pod_images pods imgs) (uses @ image_uses pods)"
proof (induction pods arbitrary: imgs uses)
  case (Cons p pods)
  from Cons.IH [OF fold_images_ok [OF fold_images_ok [OF Cons.prems]]] show ?case by (simp add: pod_images_def image_uses_def)
qed (simp add: image_uses_def)

text \<open>
  the inventory of images lists every image of every container, init containers included,
  once, with all its users in order.
\<close>

theorem images_inventory: "images_ok (fold pod_images pods []) (image_uses pods)"
  using pods_images_ok [of "[]" "[]" pods] by (simp add: images_ok_def)

end
