(* ===== verification/Claude.thy ===== *)
theory Claude
  imports Engine GoJson "HOL-Library.List_Lexorder" "HOL-Library.Char_ord"
begin

text \<open>
  \<open>operator/internal/engine/llm/claude.go\<close>: the adapter for the one language model the operator
  can use.  A request is a conversation; as long as the model asks for tools they are called and
  their results appended, for at most ten rounds; the final text is searched for verdicts.

  The HTTP service is a parameter: it answers a request with an error, or with a status and a
  body, given as its text and what the JSON parser makes of it.  \<open>raw\<close> is the source text of a
  JSON value in the body.  Strings are bytes; upper case is that of ASCII letters.
\<close>

section \<open>Types of the API\<close>

record claudeTool =
  ct_Name :: string
  ct_Description :: string
  ct_InputSchema :: json

record claudeTextBlock =
  tb_Type :: string
  tb_Text :: string

record claudeToolUseBlock =
  tu_Type :: string
  tu_ID :: string
  tu_Name :: string
  tu_Input :: string

record claudeToolResultBlock =
  tres_Type :: string
  tres_ToolUseID :: string
  tres_Content :: string

datatype content =
    TextBlock claudeTextBlock
  | ToolUse claudeToolUseBlock
  | ToolResult claudeToolResultBlock

record claudeMessage =
  msg_Role :: string
  msg_Content :: "content list"

record claudeSystemBlock =
  sb_Type :: string
  sb_Text :: string
  sb_CacheControl :: "string option"

record claudeRequest =
  rq_Model :: string
  rq_MaxTokens :: int
  rq_System :: "claudeSystemBlock list"
  rq_Messages :: "claudeMessage list"
  rq_Tools :: "claudeTool list"

record claudeResponse =
  rsp_Content :: "json list"
  rsp_StopReason :: string

datatype api_reply = SendError string | ReadError string | Reply nat string "string + json"

record ClaudeAdapter =
  ca_model :: string
  ca_api :: "nat \<Rightarrow> claudeRequest \<Rightarrow> api_reply"
  ca_raw :: "json \<Rightarrow> string"
  ca_type_error :: string

definition claudeDefaultModel :: string where
  "claudeDefaultModel = ''claude-haiku-4-5-20251001''"

definition NewClaudeAdapter ::
  "(nat \<Rightarrow> claudeRequest \<Rightarrow> api_reply) \<Rightarrow> (json \<Rightarrow> string) \<Rightarrow> string \<Rightarrow> string \<Rightarrow> ClaudeAdapter" where
  "NewClaudeAdapter api raw type_error model =
     \<lparr>ca_model = (if model = [] then claudeDefaultModel else model), ca_api = api, ca_raw = raw,
      ca_type_error = type_error\<rparr>"

section \<open>Building requests\<close>

text \<open>Go's encoder writes the entries of a map sorted by key.\<close>

definition buildJSONSchema :: "Parameter list \<Rightarrow> json" where
  "buildJSONSchema params =
     (let properties = fold (\<lambda>p fs. put (par_Name p) (JObj [(''description'', JStr (par_Description p)), (''type'', JStr (par_Type p))]) fs) params [];
          required = map par_Name (filter par_Required params)
      in JObj ([(''properties'', JObj (sort_key fst properties))]
               @ (if 0 < length required then [(''required'', JArr (map JStr required))] else [])
               @ [(''type'', JStr ''object'')]))"

definition convertTools :: "Definition list \<Rightarrow> claudeTool list" where
  "convertTools defs =
     map (\<lambda>d. \<lparr>ct_Name = def_Name d, ct_Description = def_Description d, ct_InputSchema = buildJSONSchema (def_Parameters d)\<rparr>) defs"

definition buildSystemPrompt :: "string list \<Rightarrow> string" where
  "buildSystemPrompt namespaces =
     (let nsText = (if 0 < length namespaces then join '', '' namespaces else ''all namespaces'')
      in ''You are a Kubernetes cluster verification agent. Your job is to verify checks against a live Kubernetes cluster using the provided tools.\<newline>\<newline>Rules:\<newline>'' @
         ''1. Use the available tools to gather evidence before making a verdict.\<newline>'' @
         ''2. Always base your verdict on actual data from the cluster, not assumptions.\<newline>'' @
         ''3. Your final response MUST contain exactly one verdict line in this format: VERDICT: PASS, VERDICT: WARN, or VERDICT: FAIL\<newline>'' @
         ''4. Provide clear reasoning explaining why you reached your verdict.\<newline>'' @
         ''5. You are operating in a read-only capacity. You cannot modify the cluster.\<newline>'' @
         ''6. Target namespace(s): '' @ nsText @ ''\<newline>\<newline>'' @
         ''Be thorough but efficient - use the minimum number of tool calls needed to verify the check.'')"

definition buildSystemBlocks :: "string list \<Rightarrow> claudeSystemBlock list" where
  "buildSystemBlocks namespaces =
     [\<lparr>sb_Type = ''text'', sb_Text = buildSystemPrompt namespaces, sb_CacheControl = Some ''ephemeral''\<rparr>]"

definition user_text :: "VerifyRequest \<Rightarrow> string" where
  "user_text req =
     ''Please verify the following check and determine if it PASSES, has WARNINGS, or FAILS.\<newline>\<newline>Check ID: '' @ vr_CheckID req @
     ''\<newline>Check Description: '' @ vr_Description req @
     ''\<newline>\<newline>Use the available tools to gather evidence from the Kubernetes cluster, then provide your verdict as exactly one of: PASS, WARN, or FAIL, along with your reasoning.'' @
     (if vr_Snapshot req \<noteq> []
      then ''\<newline>\<newline>## Pre-collected Cluster Snapshot\<newline>The following data was already gathered. Use it as a starting point -- call additional tools only if needed.\<newline>\<newline>'' @ vr_Snapshot req
      else [])"

definition batch_text :: "BatchVerifyRequest \<Rightarrow> string" where
  "batch_text req =
     ''You will verify multiple checks against a Kubernetes cluster. For EACH check, provide a verdict.\<newline>\<newline>'' @
     (if bv_Snapshot req \<noteq> [] then ''## Pre-collected Cluster Snapshot\<newline>'' @ bv_Snapshot req @ ''\<newline>\<newline>'' else []) @
     concat (map (\<lambda>(i, c). ''### Check '' @ dec_nat (i + 1) @ ''\<newline>- ID: '' @ vr_CheckID c @ ''\<newline>- Description: '' @ vr_Description c @ ''\<newline>\<newline>'')
       (enumerate 0 (bv_Checks req))) @
     ''For each check, output a line in exactly this format:\<newline>CHECK <id>: VERDICT: PASS|WARN|FAIL\<newline>Followed by your reasoning.\<newline>''"

definition user_message :: "string \<Rightarrow> claudeMessage" where
  "user_message t = \<lparr>msg_Role = ''user'', msg_Content = [TextBlock \<lparr>tb_Type = ''text'', tb_Text = t\<rparr>]\<rparr>"

section \<open>Calling the service\<close>

definition decode_response :: "json \<Rightarrow> claudeResponse option" where
  "decode_response v =
     (let decode_content = (\<lambda>v' acc. case acc of None \<Rightarrow> None
            | Some old \<Rightarrow> (case v' of JArr vs \<Rightarrow> Some vs | JNull \<Rightarrow> Some [] | _ \<Rightarrow> None));
          content = (case v of
              JObj fs \<Rightarrow> fold (\<lambda>(k, v') acc. if ToLower k = ''content'' then decode_content v' acc else acc) fs (Some [])
            | JNull \<Rightarrow> Some []
            | _ \<Rightarrow> None)
      in case (content, string_field ''stop_reason'' v) of
           (Some vs, Some r) \<Rightarrow> Some \<lparr>rsp_Content = vs, rsp_StopReason = r\<rparr>
         | _ \<Rightarrow> None)"

definition callAPI :: "ClaudeAdapter \<Rightarrow> nat \<Rightarrow> claudeRequest \<Rightarrow> string + claudeResponse" where
  "callAPI a now req =
     (case ca_api a now req of
        SendError e \<Rightarrow> Inl (''sending request: '' @ e)
      | ReadError e \<Rightarrow> Inl (''reading response: '' @ e)
      | Reply status body parsed \<Rightarrow>
          if status \<noteq> 200 then Inl (''API error (status '' @ dec_nat status @ ''): '' @ body)
          else case parsed of
                 Inl e \<Rightarrow> Inl (''unmarshaling response: '' @ e)
               | Inr v \<Rightarrow> (case decode_response v of
                     None \<Rightarrow> Inl (''unmarshaling response: '' @ ca_type_error a)
                   | Some resp \<Rightarrow> Inr resp))"

text \<open>One block of a response, as the code sorts it out.\<close>

definition text_block :: "json \<Rightarrow> claudeTextBlock option" where
  "text_block v =
     (case (string_field ''type'' v, string_field ''text'' v) of
        (Some ty, Some t) \<Rightarrow> Some \<lparr>tb_Type = ty, tb_Text = t\<rparr>
      | _ \<Rightarrow> None)"

definition tool_use_block :: "(json \<Rightarrow> string) \<Rightarrow> json \<Rightarrow> claudeToolUseBlock option" where
  "tool_use_block raw v =
     (case (string_field ''type'' v, string_field ''id'' v, string_field ''name'' v) of
        (Some ty, Some i, Some n) \<Rightarrow> Some \<lparr>tu_Type = ty, tu_ID = i, tu_Name = n, tu_Input = raw_field raw ''input'' v\<rparr>
      | _ \<Rightarrow> None)"

text \<open>
  \<open>processToolUse\<close>, with the rest of the session that takes the assistant's blocks, the results
  of the tools and the records of the calls.
\<close>

primrec processToolUse ::
  "(json \<Rightarrow> string) \<Rightarrow> json list \<Rightarrow> content list \<Rightarrow> content list \<Rightarrow> ToolCallRecord list \<Rightarrow>
   (content list \<Rightarrow> content list \<Rightarrow> ToolCallRecord list \<Rightarrow> 'a session) \<Rightarrow> 'a session" where
  "processToolUse raw [] assistant results calls k = k assistant results calls"
| "processToolUse raw (v # vs) assistant results calls k =
     (case string_field ''type'' v of
        None \<Rightarrow> processToolUse raw vs assistant results calls k
      | Some ty \<Rightarrow>
          if ty = ''text'' then
            (case text_block v of
               None \<Rightarrow> processToolUse raw vs assistant results calls k
             | Some tb \<Rightarrow> processToolUse raw vs (assistant @ [TextBlock tb]) results calls k)
          else if ty = ''tool_use'' then
            (case tool_use_block raw v of
               None \<Rightarrow> processToolUse raw vs assistant results calls k
             | Some tu \<Rightarrow>
                 CallTool (tu_Name tu) (tu_Input tu) (\<lambda>answer.
                   let resultContent = (case answer of Inl err \<Rightarrow> ''Error: '' @ err | Inr output \<Rightarrow> output)
                   in processToolUse raw vs (assistant @ [ToolUse tu])
                        (results @ [ToolResult \<lparr>tres_Type = ''tool_result'', tres_ToolUseID = tu_ID tu, tres_Content = resultContent\<rparr>])
                        (calls @ [\<lparr>tc_ToolName = tu_Name tu, tc_Input = tu_Input tu, tc_Output = resultContent\<rparr>]) k))
          else processToolUse raw vs assistant results calls k)"

section \<open>Reading verdicts\<close>

definition full_text :: "json list \<Rightarrow> string" where
  "full_text vs =
     concat (map (\<lambda>v. case string_field ''type'' v of
         None \<Rightarrow> []
       | Some ty \<Rightarrow> if ty = ''text'' then (case text_block v of None \<Rightarrow> [] | Some tb \<Rightarrow> tb_Text tb) else []) vs)"

definition verdict_in :: "string \<Rightarrow> string" where
  "verdict_in text =
     (let upperText = toUpperCase text
      in if str_includes upperText ''VERDICT: PASS'' then VerdictPass
         else if str_includes upperText ''VERDICT: WARN'' then VerdictWarn
         else if str_includes upperText ''VERDICT: FAIL'' then VerdictFail
         else VerdictFail)"

definition parseVerdict :: "claudeResponse \<Rightarrow> ToolCallRecord list \<Rightarrow> string + VerifyResponse" where
  "parseVerdict resp toolCalls =
     (let text = full_text (rsp_Content resp)
      in Inr \<lparr>vp_Verdict = verdict_in text, vp_Reasoning = text, vp_ToolCalls = toolCalls\<rparr>)"

definition leading_verdict :: "string \<Rightarrow> string" where
  "leading_verdict after =
     (if startsWith (TrimSpace after) ''PASS'' then VerdictPass
      else if startsWith (TrimSpace after) ''WARN'' then VerdictWarn
      else VerdictFail)"

definition batch_marker :: "string \<Rightarrow> string" where
  "batch_marker i = toUpperCase (''CHECK '' @ i @ '': VERDICT:'')"

definition batch_verdict :: "string \<Rightarrow> string \<Rightarrow> string" where
  "batch_verdict upperText i =
     (let marker = batch_marker i
      in case go_Index upperText marker of
           Some idx \<Rightarrow> leading_verdict (drop (idx + length marker) upperText)
         | None \<Rightarrow>
             (case go_Index upperText (toUpperCase i) of
                None \<Rightarrow> VerdictFail
              | Some idx \<Rightarrow>
                  (let remaining = drop idx upperText
                   in case go_Index remaining ''VERDICT:'' of
                        None \<Rightarrow> VerdictFail
                      | Some vi \<Rightarrow> leading_verdict (drop (vi + 8) remaining))))"

definition parseBatchVerdicts ::
  "claudeResponse \<Rightarrow> VerifyRequest list \<Rightarrow> ToolCallRecord list \<Rightarrow> string + VerifyResponse list" where
  "parseBatchVerdicts resp checks toolCalls =
     (let text = full_text (rsp_Content resp); upperText = toUpperCase text
      in Inr (map (\<lambda>check. \<lparr>vp_Verdict = batch_verdict upperText (vr_CheckID check), vp_Reasoning = text, vp_ToolCalls = toolCalls\<rparr>) checks))"

section \<open>The conversation\<close>

text \<open>
  The loop of \<open>Verify\<close> and \<open>BatchVerify\<close>: \<open>n\<close> rounds are left; \<open>finish\<close> reads the final
  response, \<open>pre\<close> and \<open>exhausted\<close> are the texts of the two errors.
\<close>

primrec conversation ::
  "nat \<Rightarrow> ClaudeAdapter \<Rightarrow> nat \<Rightarrow> claudeRequest \<Rightarrow> string \<Rightarrow> string \<Rightarrow>
   (claudeResponse \<Rightarrow> ToolCallRecord list \<Rightarrow> string + 'r) \<Rightarrow> ToolCallRecord list \<Rightarrow> (string + 'r) session" where
  "conversation 0 a now req pre exhausted finish allToolCalls = Return (Inl exhausted)"
| "conversation (Suc n) a now req pre exhausted finish allToolCalls =
     (case callAPI a now req of
        Inl e \<Rightarrow> Return (Inl (pre @ e))
      | Inr resp \<Rightarrow>
          if rsp_StopReason resp = ''end_turn'' \<or> rsp_StopReason resp = ''stop'' then Return (finish resp allToolCalls)
          else if rsp_StopReason resp = ''tool_use'' then
            processToolUse (ca_raw a) (rsp_Content resp) [] [] [] (\<lambda>assistant results calls.
              conversation n a now
                (req\<lparr>rq_Messages := rq_Messages req @
                   [\<lparr>msg_Role = ''assistant'', msg_Content = assistant\<rparr>, \<lparr>msg_Role = ''user'', msg_Content = results\<rparr>]\<rparr>)
                pre exhausted finish (allToolCalls @ calls))
          else Return (finish resp allToolCalls))"

definition first_request :: "ClaudeAdapter \<Rightarrow> string list \<Rightarrow> Definition list \<Rightarrow> string \<Rightarrow> claudeRequest" where
  "first_request a namespaces tools t =
     \<lparr>rq_Model = ca_model a, rq_MaxTokens = 4096, rq_System = buildSystemBlocks namespaces,
      rq_Messages = [user_message t], rq_Tools = convertTools tools\<rparr>"

definition claude_Verify :: "ClaudeAdapter \<Rightarrow> nat \<Rightarrow> VerifyRequest \<Rightarrow> (string + VerifyResponse) session" where
  "claude_Verify a now req =
     conversation 10 a now (first_request a (vr_Namespaces req) (vr_Tools req) (user_text req))
       ''claude API call: '' ''exceeded maximum tool call iterations'' parseVerdict []"

definition claude_BatchVerify :: "ClaudeAdapter \<Rightarrow> nat \<Rightarrow> BatchVerifyRequest \<Rightarrow> (string + VerifyResponse list) session" where
  "claude_BatchVerify a now req =
     conversation 10 a now (first_request a (bv_Namespaces req) (bv_Tools req) (batch_text req))
       ''claude batch API call: '' ''exceeded maximum tool call iterations in batch''
       (\<lambda>resp calls. parseBatchVerdicts resp (bv_Checks req) calls) []"

definition claude :: "ClaudeAdapter \<Rightarrow> Adapter" where
  "claude a = \<lparr>Verify = claude_Verify a, BatchVerify = claude_BatchVerify a\<rparr>"

section \<open>What a conversation returns\<close>

text \<open>The tool calls of a session, with their answers.\<close>

primrec session_log :: "Registry \<Rightarrow> 'a session \<Rightarrow> scan \<Rightarrow> (string \<times> string \<times> (string + string)) list" where
  "session_log reg (Return x) sc = []"
| "session_log reg (CallTool name input k) sc =
     (name, input, snd (cached_Call reg name input sc)) #
     session_log reg (k (snd (cached_Call reg name input sc))) (fst (cached_Call reg name input sc))"

definition call_record :: "string \<times> string \<times> (string + string) \<Rightarrow> ToolCallRecord" where
  "call_record c =
     \<lparr>tc_ToolName = fst c, tc_Input = fst (snd c),
      tc_Output = (case snd (snd c) of Inl err \<Rightarrow> ''Error: '' @ err | Inr output \<Rightarrow> output)\<rparr>"

lemma process_log:
  "\<exists>as' rs' new sc'.
     run_session reg (processToolUse raw vs as rs cs k) sc = run_session reg (k as' rs' (cs @ map call_record new)) sc' \<and>
     session_log reg (processToolUse raw vs as rs cs k) sc =
       new @ session_log reg (k as' rs' (cs @ map call_record new)) sc'"
proof (induction vs arbitrary: as rs cs sc)
  case Nil
  have "processToolUse raw [] as rs cs k = k as rs (cs @ map call_record [])" by simp
  then show ?case by (metis append_Nil)
next
  case (Cons v vs)
  show ?case
  proof (cases "\<exists>tu. string_field ''type'' v = Some ''tool_use'' \<and> tool_use_block raw v = Some tu")
    case False
    then show ?thesis using Cons.IH by (auto split: option.split)
  next
    case True
    then obtain tu where tu: "string_field ''type'' v = Some ''tool_use''" "tool_use_block raw v = Some tu" by blast
    let ?c = "cached_Call reg (tu_Name tu) (tu_Input tu) sc"
    let ?e = "(tu_Name tu, tu_Input tu, snd ?c)"
    let ?rs = "\<lambda>ans. rs @ [ToolResult \<lparr>tres_Type = ''tool_result'', tres_ToolUseID = tu_ID tu,
      tres_Content = tc_Output (call_record (tu_Name tu, tu_Input tu, ans))\<rparr>]"
    have st: "processToolUse raw (v # vs) as rs cs k = CallTool (tu_Name tu) (tu_Input tu) (\<lambda>ans.
        processToolUse raw vs (as @ [ToolUse tu]) (?rs ans) (cs @ [call_record (tu_Name tu, tu_Input tu, ans)]) k)"
      by (simp add: tu call_record_def Let_def)
    obtain as' rs' new sc' where
      ih: "run_session reg (processToolUse raw (v # vs) as rs cs k) sc = run_session reg (k as' rs' ((cs @ [call_record ?e]) @ map call_record new)) sc'"
      "session_log reg (processToolUse raw (v # vs) as rs cs k) sc =
         ?e # new @ session_log reg (k as' rs' ((cs @ [call_record ?e]) @ map call_record new)) sc'"
      using Cons.IH [of "as @ [ToolUse tu]" "?rs (snd ?c)" "cs @ [call_record ?e]" "fst ?c"]
      unfolding st run_session.simps session_log.simps list.inject by blast
    have "(cs @ [call_record ?e]) @ map call_record new = cs @ map call_record (?e # new)" by simp
    with ih show ?thesis by (metis append_Cons)
  qed
qed

lemma conversation_result:
  "(\<exists>err. snd (run_session reg (conversation n a now req pre exhausted finish calls) sc) = Inl err) \<or>
   (\<exists>resp. snd (run_session reg (conversation n a now req pre exhausted finish calls) sc) =
     finish resp (calls @ map call_record (session_log reg (conversation n a now req pre exhausted finish calls) sc)))"
proof (induction n arbitrary: req calls sc)
  case (Suc n)
  show ?case
  proof (cases "\<exists>resp. callAPI a now req = Inr resp \<and> rsp_StopReason resp = ''tool_use''")
    case True
    then obtain resp where resp: "callAPI a now req = Inr resp" "rsp_StopReason resp = ''tool_use''" by blast
    let ?k = "\<lambda>assistant results new. conversation n a now
      (req\<lparr>rq_Messages := rq_Messages req @
         [\<lparr>msg_Role = ''assistant'', msg_Content = assistant\<rparr>, \<lparr>msg_Role = ''user'', msg_Content = results\<rparr>]\<rparr>)
      pre exhausted finish (calls @ new)"
    have conv: "conversation (Suc n) a now req pre exhausted finish calls = processToolUse (ca_raw a) (rsp_Content resp) [] [] [] ?k"
      by (simp add: resp)
    obtain as' rs' new sc' where "run_session reg (processToolUse (ca_raw a) (rsp_Content resp) [] [] [] ?k) sc = run_session reg (?k as' rs' (map call_record new)) sc'"
      "session_log reg (processToolUse (ca_raw a) (rsp_Content resp) [] [] [] ?k) sc = new @ session_log reg (?k as' rs' (map call_record new)) sc'"
      using process_log [of reg "ca_raw a" "rsp_Content resp" "[]" "[]" "[]" ?k sc] by auto
    then show ?thesis unfolding conv using Suc.IH [of "req\<lparr>rq_Messages := rq_Messages req @
         [\<lparr>msg_Role = ''assistant'', msg_Content = as'\<rparr>, \<lparr>msg_Role = ''user'', msg_Content = rs'\<rparr>]\<rparr>" "calls @ map call_record new" sc']
      by simp
  next
    case False
    then show ?thesis by (auto split: sum.split)
  qed
qed simp

lemma Verify_result:
  assumes "snd (run_session reg (claude_Verify a now req) sc) = Inr resp"
  shows "\<exists>t. resp = \<lparr>vp_Verdict = verdict_in t, vp_Reasoning = t, vp_ToolCalls = map call_record (session_log reg (claude_Verify a now req) sc)\<rparr>"
  using conversation_result [of reg 10 a now "first_request a (vr_Namespaces req) (vr_Tools req) (user_text req)"
      "''claude API call: ''" "''exceeded maximum tool call iterations''" parseVerdict "[]" sc] assms
  by (auto simp: claude_Verify_def parseVerdict_def Let_def)

lemma BatchVerify_result:
  assumes "snd (run_session reg (claude_BatchVerify a now req) sc) = Inr resps"
  shows "\<exists>t. resps = map (\<lambda>check. \<lparr>vp_Verdict = batch_verdict (toUpperCase t) (vr_CheckID check), vp_Reasoning = t,
    vp_ToolCalls = map call_record (session_log reg (claude_BatchVerify a now req) sc)\<rparr>) (bv_Checks req)"
  using conversation_result [of reg 10 a now "first_request a (bv_Namespaces req) (bv_Tools req) (batch_text req)"
      "''claude batch API call: ''" "''exceeded maximum tool call iterations in batch''"
      "\<lambda>resp calls. parseBatchVerdicts resp (bv_Checks req) calls" "[]" sc] assms
  by (auto simp: claude_BatchVerify_def parseBatchVerdicts_def Let_def)

text \<open>
  C31: the evidence of a verdict is complete and true: when \<open>Verify\<close> returns, the recorded tool
  calls are exactly the calls of the session, in order, with the answers they got; when
  \<open>BatchVerify\<close> returns, there is a verdict for each check of the batch, and each of them carries all
  calls of the session in this way.
\<close>

theorem evidence_is_session_log:
  "(\<forall>resp. snd (run_session reg (claude_Verify a now req) sc) = Inr resp \<longrightarrow>
      vp_ToolCalls resp = map call_record (session_log reg (claude_Verify a now req) sc))
   \<and> (\<forall>resps. snd (run_session reg (claude_BatchVerify a now breq) sc) = Inr resps \<longrightarrow>
      length resps = length (bv_Checks breq)
      \<and> list_all (\<lambda>resp. vp_ToolCalls resp = map call_record (session_log reg (claude_BatchVerify a now breq) sc)) resps)"
  using Verify_result [of reg a now req sc] BatchVerify_result [of reg a now breq sc]
  by (fastforce simp: list_all_iff)

text \<open>A service that answers at once.\<close>

definition answering :: "string \<Rightarrow> ClaudeAdapter" where
  "answering t =
     NewClaudeAdapter (\<lambda>now req. Reply 200 [] (Inr (JObj
       [(''content'', JArr [JObj [(''type'', JStr ''text''), (''text'', JStr t)]]), (''stop_reason'', JStr ''end_turn'')])))
       (\<lambda>v. []) [] []"

definition empty_request :: VerifyRequest where
  "empty_request = \<lparr>vr_CheckID = ''a'', vr_Description = [], vr_Tools = [], vr_Namespaces = [], vr_Snapshot = []\<rparr>"

lemma conversation_10:
  "conversation 10 a now req pre exhausted finish calls = conversation (Suc 9) a now req pre exhausted finish calls"
  by (simp del: conversation.simps)

lemma answering_api: "callAPI (answering t) now req =
    Inr \<lparr>rsp_Content = [JObj [(''type'', JStr ''text''), (''text'', JStr t)]], rsp_StopReason = ''end_turn''\<rparr>"
  by (simp add: callAPI_def answering_def NewClaudeAdapter_def decode_response_def string_field_def decode_string_def
      ToLower_def lower_ascii_def)

lemma answering_verify:
  "run_session reg (claude_Verify (answering t) now req) sc =
     (sc, Inr \<lparr>vp_Verdict = verdict_in t, vp_Reasoning = t, vp_ToolCalls = []\<rparr>)"
  unfolding claude_Verify_def conversation_10 conversation.simps(2) answering_api
  by (simp add: parseVerdict_def full_text_def text_block_def
      string_field_def decode_string_def ToLower_def lower_ascii_def)

text \<open>A service that asks for a tool in the first \<open>k\<close> rounds of a conversation and then answers.\<close>

definition asking :: "nat \<Rightarrow> string \<Rightarrow> ClaudeAdapter" where
  "asking k t =
     NewClaudeAdapter (\<lambda>now req. Reply 200 [] (Inr (
       if length (rq_Messages req) < 2 * k + 1
       then JObj [(''content'', JArr [JObj [(''type'', JStr ''tool_use''), (''id'', JStr ''1''), (''name'', JStr ''get_pods''), (''input'', JObj [])]]),
              (''stop_reason'', JStr ''tool_use'')]
       else JObj [(''content'', JArr [JObj [(''type'', JStr ''text''), (''text'', JStr t)]]), (''stop_reason'', JStr ''end_turn'')])))
       (\<lambda>v. ''{}'') [] []"

definition pods_registry :: Registry where
  "pods_registry = Register \<lparr>def_Name = ''get_pods'', def_Description = [], def_Parameters = []\<rparr> (\<lambda>now params. Inr ''[]'') []"

definition pair_request :: BatchVerifyRequest where
  "pair_request = \<lparr>bv_Checks = [empty_request, empty_request\<lparr>vr_CheckID := ''b''\<rparr>], bv_Tools = [], bv_Namespaces = [], bv_Snapshot = []\<rparr>"

lemma asking_api:
  "callAPI (asking k t) now req = Inr (
     if length (rq_Messages req) < 2 * k + 1
     then \<lparr>rsp_Content = [JObj [(''type'', JStr ''tool_use''), (''id'', JStr ''1''), (''name'', JStr ''get_pods''), (''input'', JObj [])]],
            rsp_StopReason = ''tool_use''\<rparr>
     else \<lparr>rsp_Content = [JObj [(''type'', JStr ''text''), (''text'', JStr t)]], rsp_StopReason = ''end_turn''\<rparr>)"
  by (simp add: callAPI_def asking_def NewClaudeAdapter_def decode_response_def string_field_def decode_string_def ToLower_def lower_ascii_def)

text \<open>One call of a tool, then the answer.\<close>

lemma asking_once:
  assumes "length (rq_Messages req) = 1" and "map_of (sc_cache sc) (cacheKey ''get_pods'' ''{}'') = None"
  shows "session_log pods_registry (conversation 10 (asking 1 t) now req pre exhausted finish []) sc = [(''get_pods'', ''{}'', Inr ''[]'')]"
    and "snd (run_session pods_registry (conversation 10 (asking 1 t) now req pre exhausted finish []) sc)
      = finish \<lparr>rsp_Content = [JObj [(''type'', JStr ''text''), (''text'', JStr t)]], rsp_StopReason = ''end_turn''\<rparr>
          [\<lparr>tc_ToolName = ''get_pods'', tc_Input = ''{}'', tc_Output = ''[]''\<rparr>]"
proof -
  have nine: "conversation 9 a now req pre exhausted finish calls = conversation (Suc 8) a now req pre exhausted finish calls" for a now req pre exhausted calls
    and finish :: "claudeResponse \<Rightarrow> ToolCallRecord list \<Rightarrow> string + 'a"
    by (simp del: conversation.simps)
  have raw: "ca_raw (asking 1 t) v = ''{}''" for v by (simp add: asking_def NewClaudeAdapter_def)
  have blk: "string_field ''type'' (JObj [(''type'', JStr ''tool_use''), (''id'', JStr ''1''), (''name'', JStr ''get_pods''), (''input'', JObj [])]) = Some ''tool_use''"
    "tool_use_block (ca_raw (asking 1 t)) (JObj [(''type'', JStr ''tool_use''), (''id'', JStr ''1''), (''name'', JStr ''get_pods''), (''input'', JObj [])])
       = Some \<lparr>tu_Type = ''tool_use'', tu_ID = ''1'', tu_Name = ''get_pods'', tu_Input = ''{}''\<rparr>"
    by (simp_all add: tool_use_block_def string_field_def decode_string_def raw_field_def raw ToLower_def lower_ascii_def del: One_nat_def)
  have call: "snd (cached_Call pods_registry ''get_pods'' ''{}'' sc) = Inr ''[]''"
    using assms(2) by (simp add: cached_Call_def Let_def Call_def pods_registry_def Register_def)
  show "session_log pods_registry (conversation 10 (asking 1 t) now req pre exhausted finish []) sc = [(''get_pods'', ''{}'', Inr ''[]'')]"
    unfolding conversation_10 conversation.simps(2) nine asking_api
    using assms(1) by (simp add: blk call Let_def del: One_nat_def)
  show "snd (run_session pods_registry (conversation 10 (asking 1 t) now req pre exhausted finish []) sc)
      = finish \<lparr>rsp_Content = [JObj [(''type'', JStr ''text''), (''text'', JStr t)]], rsp_StopReason = ''end_turn''\<rparr>
          [\<lparr>tc_ToolName = ''get_pods'', tc_Input = ''{}'', tc_Output = ''[]''\<rparr>]"
    unfolding conversation_10 conversation.simps(2) nine asking_api
    using assms(1) by (simp add: blk call Let_def del: One_nat_def)
qed

theorem evidence_is_session_log_witness:
  "\<exists>resp resps. snd (run_session pods_registry (claude_Verify (asking 1 ''ok'') 0 empty_request) (NewCachingRegistry 0)) = Inr resp
     \<and> vp_ToolCalls resp = [\<lparr>tc_ToolName = ''get_pods'', tc_Input = ''{}'', tc_Output = ''[]''\<rparr>]
     \<and> snd (run_session pods_registry (claude_BatchVerify (asking 1 ''ok'') 0 pair_request) (NewCachingRegistry 0)) = Inr resps
     \<and> map vp_ToolCalls resps = replicate 2 [\<lparr>tc_ToolName = ''get_pods'', tc_Input = ''{}'', tc_Output = ''[]''\<rparr>]"
proof -
  let ?sc = "NewCachingRegistry 0"
  have m: "length (rq_Messages (first_request a ns ts t)) = 1" for a ns ts t by (simp add: first_request_def)
  have e: "map_of (sc_cache ?sc) (cacheKey ''get_pods'' ''{}'') = None" by (simp add: NewCachingRegistry_def)
  note once = asking_once [OF m e]
  obtain resp where v: "snd (run_session pods_registry (claude_Verify (asking 1 ''ok'') 0 empty_request) ?sc) = Inr resp"
    unfolding claude_Verify_def once(2) by (simp add: parseVerdict_def Let_def)
  obtain resps where b: "snd (run_session pods_registry (claude_BatchVerify (asking 1 ''ok'') 0 pair_request) ?sc) = Inr resps"
    unfolding claude_BatchVerify_def once(2) by (simp add: parseBatchVerdicts_def Let_def)
  have log: "session_log pods_registry (claude_Verify (asking 1 ''ok'') 0 empty_request) ?sc = [(''get_pods'', ''{}'', Inr ''[]'')]"
    "session_log pods_registry (claude_BatchVerify (asking 1 ''ok'') 0 pair_request) ?sc = [(''get_pods'', ''{}'', Inr ''[]'')]"
    unfolding claude_Verify_def claude_BatchVerify_def by (rule once(1))+
  have "length (bv_Checks pair_request) = 2" by (simp add: pair_request_def)
  then have "vp_ToolCalls resp = [\<lparr>tc_ToolName = ''get_pods'', tc_Input = ''{}'', tc_Output = ''[]''\<rparr>]"
    "length resps = 2" "list_all (\<lambda>r. vp_ToolCalls r = [\<lparr>tc_ToolName = ''get_pods'', tc_Input = ''{}'', tc_Output = ''[]''\<rparr>]) resps"
    using evidence_is_session_log [of pods_registry "asking 1 ''ok''" 0 empty_request ?sc pair_request] v b
    by (auto simp: log call_record_def simp del: One_nat_def)
  moreover from this obtain x y where "resps = [x, y]" by (auto simp: numeral_2_eq_2 length_Suc_conv)
  ultimately show ?thesis using v b by (auto simp: numeral_2_eq_2)
qed

section \<open>Verdicts\<close>

lemma verdict_in_proper [simp]: "proper (verdict_in t)"
  by (simp add: verdict_in_def proper_def Let_def)

lemma leading_verdict_proper [simp]: "proper (leading_verdict t)"
  by (simp add: leading_verdict_def proper_def)

lemma batch_verdict_proper [simp]: "proper (batch_verdict t i)"
  by (simp add: batch_verdict_def Let_def split: option.split)

interpretation claude: proper_adapter "claude a" for a
proof
  fix reg now req sc resp
  assume "snd (run_session reg (Verify (claude a) now req) sc) = Inr resp"
  then show "proper (vp_Verdict resp)" using Verify_result [of reg a now req sc resp] by (auto simp: claude_def)
next
  fix reg now breq sc resps
  assume "snd (run_session reg (BatchVerify (claude a) now breq) sc) = Inr resps"
  then show "list_all (\<lambda>resp. proper (vp_Verdict resp)) resps"
    using BatchVerify_result [of reg a now breq sc resps] by (auto simp: claude_def list_all_iff)
qed

text \<open>
  with this adapter every verdict of a scan is one of the three the resource definition
  allows, also when verdicts are reused, and the engine remembers only such verdicts.
\<close>

theorem claude_verdicts_proper:
  assumes "in_adapter env = claude a" and "engine_proper eng"
    and "RunChecks env policy checks eng = (eng1, sc1, Inr spec)"
  shows "list_all (\<lambda>r. cres_Verdict r \<in> {''PASS'', ''WARN'', ''FAIL''}) (rs_Checks spec) \<and> engine_proper eng1"
  using claude.scan_results [OF assms]
  by (auto simp: proper_def VerdictPass_def VerdictWarn_def VerdictFail_def list_all_iff)

theorem claude_verdicts_proper_witness:
  "\<exists>spec. snd (snd (RunChecks (demo_env (claude (answering ''ok''))) demo_policyV1 [demo_check ''a''] New)) = Inr spec
     \<and> list_all (\<lambda>r. cres_Verdict r \<in> {''PASS'', ''WARN'', ''FAIL''}) (rs_Checks spec)"
proof -
  let ?env = "demo_env (claude (answering ''ok''))"
  obtain eng1 sc1 spec where run: "RunChecks ?env demo_policyV1 [demo_check ''a''] New = (eng1, sc1, Inr spec)"
    using RunChecks_result [of ?env demo_policyV1 "[demo_check ''a'']" New] by (metis prod.collapse)
  have "in_adapter ?env = claude (answering ''ok'')" by (simp add: demo_env_def)
  from claude_verdicts_proper [OF this _ run] run show ?thesis by simp
qed

section \<open>Searching the reply\<close>

lemma marker_ends: "batch_marker i = toUpperCase (''CHECK '' @ i @ '': '') @ ''VERDICT:''"
  by (simp add: batch_marker_def) (simp add: toUpperCase_def upper_unit_def)

text \<open>
  a reply that contains no \<open>VERDICT:\<close>, in whatever case, is a failure: of the single check
  and of every check of a batch.
\<close>

theorem silence_is_failure:
  assumes "\<not> str_includes (toUpperCase t) ''VERDICT:''"
  shows "verdict_in t = VerdictFail \<and> batch_verdict (toUpperCase t) i = VerdictFail"
proof -
  have "\<not> str_includes (toUpperCase t) (''VERDICT:'' @ v)" for v
    using assms by (meson str_includes_sublist sublist_append_rightI sublist_order.order_trans)
  from this [of "'' PASS''"] this [of "'' WARN''"] have "verdict_in t = VerdictFail" by (simp add: verdict_in_def)
  moreover have "go_Index (toUpperCase t) (batch_marker i) = None"
    using assms includes_append by (auto simp: go_Index_None marker_ends)
  moreover have "go_Index (drop n (toUpperCase t)) ''VERDICT:'' = None" for n
    using assms unfolding go_Index_None str_includes_sublist by (meson sublist_drop sublist_order.order_trans)
  ultimately show ?thesis by (simp add: batch_verdict_def split: option.split)
qed

theorem silence_is_failure_witness:
  "verdict_in ''all good'' = VerdictFail \<and> batch_verdict (toUpperCase ''all good'') ''a'' = VerdictFail"
  by (rule silence_is_failure) code_simp

lemma leading_verdict_read:
  assumes "proper v"
  shows "leading_verdict (CHR '' '' # v @ post) = v"
proof -
  have "prefix v (TrimSpace (['' '' ! 0] @ v @ post))"
    using assms by (intro TrimSpace_prefix) (auto simp: proper_def VerdictPass_def VerdictWarn_def VerdictFail_def go_white_def)
  then obtain r where "TrimSpace (CHR '' '' # v @ post) = v @ r" by (auto simp: prefix_def)
  then show ?thesis using assms
    by (auto simp: leading_verdict_def proper_def VerdictPass_def VerdictWarn_def VerdictFail_def startsWith_prefix)
qed

text \<open>
  a reply in the demanded format is read as written: the verdict after the first line marker of
  a check is the verdict of that check, wherever in the reply the line stands.
\<close>

theorem batch_line_read:
  assumes "proper v" and "toUpperCase t = pre @ batch_marker i @ '' '' @ v @ post"
    and "\<not> str_includes (pre @ butlast (batch_marker i)) (batch_marker i)"
  shows "batch_verdict (toUpperCase t) i = v"
proof -
  have "batch_marker i \<noteq> []" by (simp add: marker_ends)
  from go_Index_first [OF assms(3) this, of "'' '' @ v @ post"]
  have "go_Index (toUpperCase t) (batch_marker i) = Some (length pre)" by (simp add: assms(2))
  then show ?thesis by (simp add: batch_verdict_def assms(2) leading_verdict_read [OF assms(1)])
qed

theorem batch_line_read_witness:
  "batch_verdict (toUpperCase ''Check a: Verdict: warn
because'') ''a'' = ''WARN''"
proof -
  have "toUpperCase ''Check a: Verdict: warn
because'' = [] @ batch_marker ''a'' @ '' '' @ ''WARN'' @ toUpperCase ''
because''" by code_simp
  moreover have "\<not> str_includes ([] @ butlast (batch_marker ''a'')) (batch_marker ''a'')" by code_simp
  ultimately show ?thesis using batch_line_read [of "''WARN''" "''Check a: Verdict: warn
because''" "[]" "''a''" "toUpperCase ''
because''"] by (simp add: proper_def VerdictWarn_def)
qed

text \<open>
  outside the format the reading errs on the wrong side.  A check without a line takes the
  verdict of another check whose id begins with its own, and a single reply that mentions
  \<open>VERDICT: PASS\<close> passes although its verdict is a failure.
\<close>

theorem verdicts_misread:
  "batch_verdict (toUpperCase ''CHECK pods-10: VERDICT: PASS'') ''pods-1'' = VerdictPass
   \<and> verdict_in ''VERDICT: FAIL. Restart the pod to get VERDICT: PASS.'' = VerdictPass"
  by code_simp

section \<open>The limit of rounds\<close>

text \<open>
  A service that asks for tools in the first \<open>k\<close> rounds of every conversation and then ends its turn:
  a conversation begins with one message, and every round adds two.
\<close>

definition tool_rounds :: "ClaudeAdapter \<Rightarrow> nat \<Rightarrow> bool" where
  "tool_rounds a k \<longleftrightarrow>
     (\<forall>now req. \<exists>resp. callAPI a now req = Inr resp
        \<and> rsp_StopReason resp = (if length (rq_Messages req) < 2 * k + 1 then ''tool_use'' else ''end_turn''))"

lemma process_then:
  assumes "\<And>as' rs' cs' sc'. P (snd (run_session reg (k as' rs' cs') sc'))"
  shows "P (snd (run_session reg (processToolUse raw vs as rs cs k) sc))"
  using process_log [of reg raw vs as rs cs k sc] assms by metis

lemma conversation_rounds:
  assumes "tool_rounds a k" "length (rq_Messages req) = 2 * j + 1"
  shows "if j + n \<le> k then snd (run_session reg (conversation n a now req pre exhausted finish calls) sc) = Inl exhausted
    else (\<exists>resp all_calls. snd (run_session reg (conversation n a now req pre exhausted finish calls) sc) = finish resp all_calls) \<or> k < j"
  using assms(2)
proof (induction n arbitrary: j req calls sc)
  case (Suc n)
  obtain resp where resp: "callAPI a now req = Inr resp"
    "rsp_StopReason resp = (if length (rq_Messages req) < 2 * k + 1 then ''tool_use'' else ''end_turn'')"
    using assms(1) by (auto simp: tool_rounds_def)
  show ?case
  proof (cases "j < k")
    case True
    then have tool: "rsp_StopReason resp = ''tool_use''" using resp(2) Suc.prems by simp
    let ?P = "\<lambda>r. if Suc j + n \<le> k then r = Inl exhausted else (\<exists>resp all_calls. r = finish resp all_calls) \<or> k < Suc j"
    let ?k = "\<lambda>assistant results new. conversation n a now
      (req\<lparr>rq_Messages := rq_Messages req @
         [\<lparr>msg_Role = ''assistant'', msg_Content = assistant\<rparr>, \<lparr>msg_Role = ''user'', msg_Content = results\<rparr>]\<rparr>)
      pre exhausted finish (calls @ new)"
    have conv: "conversation (Suc n) a now req pre exhausted finish calls = processToolUse (ca_raw a) (rsp_Content resp) [] [] [] ?k"
      by (simp add: resp(1) tool)
    have "?P (snd (run_session reg (?k as rs cs) sc))" for as rs cs sc
      by (rule Suc.IH) (simp add: Suc.prems)
    then have "?P (snd (run_session reg (conversation (Suc n) a now req pre exhausted finish calls) sc))"
      unfolding conv by (rule process_then)
    with True show ?thesis by auto
  next
    case False
    then show ?thesis using resp Suc.prems by auto
  qed
qed auto

lemma rounds_of_ten:
  assumes "tool_rounds a k"
  shows "10 \<le> k \<Longrightarrow> snd (run_session reg (claude_Verify a now req) sc) = Inl ''exceeded maximum tool call iterations''"
    and "10 \<le> k \<Longrightarrow> snd (run_session reg (claude_BatchVerify a now breq) sc) = Inl ''exceeded maximum tool call iterations in batch''"
    and "k < 10 \<Longrightarrow> \<exists>resp. snd (run_session reg (claude_Verify a now req) sc) = Inr resp"
    and "k < 10 \<Longrightarrow> \<exists>resps. snd (run_session reg (claude_BatchVerify a now breq) sc) = Inr resps"
proof -
  have m: "length (rq_Messages (first_request a ns ts t)) = 2 * 0 + 1" for ns ts t by (simp add: first_request_def)
  note r = conversation_rounds [OF assms m, of 10]
  show "10 \<le> k \<Longrightarrow> snd (run_session reg (claude_Verify a now req) sc) = Inl ''exceeded maximum tool call iterations''"
    unfolding claude_Verify_def using r by simp
  show "10 \<le> k \<Longrightarrow> snd (run_session reg (claude_BatchVerify a now breq) sc) = Inl ''exceeded maximum tool call iterations in batch''"
    unfolding claude_BatchVerify_def using r by simp
  assume k: "k < 10"
  show "\<exists>resp. snd (run_session reg (claude_Verify a now req) sc) = Inr resp"
    unfolding claude_Verify_def
    using r [of reg now "vr_Namespaces req" "vr_Tools req" "user_text req" "''claude API call: ''" "''exceeded maximum tool call iterations''" parseVerdict "[]" sc] k
    by (auto simp: parseVerdict_def Let_def)
  show "\<exists>resps. snd (run_session reg (claude_BatchVerify a now breq) sc) = Inr resps"
    unfolding claude_BatchVerify_def
    using r [of reg now "bv_Namespaces breq" "bv_Tools breq" "batch_text breq" "''claude batch API call: ''" "''exceeded maximum tool call iterations in batch''"
        "\<lambda>resp calls. parseBatchVerdicts resp (bv_Checks breq) calls" "[]" sc] k
    by (auto simp: parseBatchVerdicts_def Let_def)
qed

text \<open>
  C34: ten rounds are the limit of a conversation.  A model that asks for tools in ten rounds or more
  is given up, and the check of a single request, or all checks of a larger batch, count as failed
  with that reason; a model that asks for tools in at most nine rounds and then answers is heard, by
  \<open>Verify\<close> and by \<open>BatchVerify\<close>.
\<close>

theorem endless_tools_given_up:
  assumes "tool_rounds a k" and "cx_adapter cx = claude a" and "length cks \<noteq> 1"
  shows "(10 \<le> k \<longrightarrow>
      snd (verify_batch cx [c] sc) = [base_result c ''FAIL'' ''LLM API error: exceeded maximum tool call iterations'']
      \<and> snd (verify_batch cx cks sc)
        = map (\<lambda>c. base_result c ''FAIL'' ''LLM batch API error: exceeded maximum tool call iterations in batch'') cks)
    \<and> (k < 10 \<longrightarrow>
      (\<exists>resp. snd (run_session reg (claude_Verify a now req) sc) = Inr resp)
      \<and> (\<exists>resps. snd (run_session reg (claude_BatchVerify a now breq) sc) = Inr resps))"
proof -
  have many: "verify_batch cx cks sc = verify_many cx cks sc"
    using assms(3) by (auto simp: verify_batch_def split: list.split)
  show ?thesis
    using rounds_of_ten [OF assms(1)]
    by (simp add: many) (simp add: verify_batch_def verify_single_def verify_many_def ask_def assms(2) claude_def VerdictFail_def case_prod_beta Let_def)
qed

lemma asking_rounds: "tool_rounds (asking k t) k"
  by (simp add: tool_rounds_def asking_api)

theorem endless_tools_given_up_witness:
  "snd (verify_batch (scan_cx (demo_env (claude (asking 10 ''ok''))) demo_policyV1) [demo_check ''a'', demo_check ''b''] (NewCachingRegistry 0))
     = map (\<lambda>c. base_result c ''FAIL'' ''LLM batch API error: exceeded maximum tool call iterations in batch'') [demo_check ''a'', demo_check ''b'']
   \<and> (\<exists>resp. snd (run_session pods_registry (claude_Verify (asking 9 ''ok'') 0 empty_request) (NewCachingRegistry 0)) = Inr resp)"
proof -
  have cx: "cx_adapter (scan_cx (demo_env (claude a)) demo_policyV1) = claude a" for a by (simp add: scan_cx_def demo_env_def)
  have "snd (verify_batch (scan_cx (demo_env (claude (asking 10 ''ok''))) demo_policyV1) [demo_check ''a'', demo_check ''b''] (NewCachingRegistry 0))
     = map (\<lambda>c. base_result c ''FAIL'' ''LLM batch API error: exceeded maximum tool call iterations in batch'') [demo_check ''a'', demo_check ''b'']"
    using endless_tools_given_up [OF asking_rounds cx, of "[demo_check ''a'', demo_check ''b'']" 10 "''ok''"] by simp
  moreover have "\<exists>resp. snd (run_session pods_registry (claude_Verify (asking 9 ''ok'') 0 empty_request) (NewCachingRegistry 0)) = Inr resp"
    using endless_tools_given_up [OF asking_rounds cx, of "[]" 9 "''ok''"] by simp
  ultimately show ?thesis ..
qed

end
