(* ===== verification/Controller.thy ===== *)
theory Controller
  imports Notify Tools Claude
begin

text \<open>
  \<open>operator/internal/controller/checklistpolicy_controller.go\<close> with the life cycle of schedulers
  (\<open>New\<close>, \<open>Start\<close>, \<open>Stop\<close>, \<open>TriggerFullScan\<close> of \<open>scheduler.go\<close>).  Schedulers are objects that the
  controller and the cron jobs share, so the operator has a heap of them; a pointer is an index
  into it.  Each scan that runs has a context, also known by its index, which \<open>Stop\<close> may cancel.

  Parameters are the Kubernetes client on a cluster state of any type, the parser of cron
  expressions (the error for an expression, if there is one), \<open>meta.SetStatusCondition\<close>, the
  clientset of the tools, the network of the notifiers and the service of the language model.
\<close>

section \<open>Schedulers\<close>

datatype job = FullScanJob | RescanJob

record sched =
  so_policy :: ChecklistPolicyV1
  so_adapter :: Adapter
  so_registry :: Registry
  so_engine :: Engine
  so_dispatcher :: Dispatcher
  so_cron :: "(string \<times> job) list"
  so_started :: bool
  so_cancelFullScan :: "nat option"
  so_cancelRescan :: "nat option"

definition New_scheduler :: "ChecklistPolicyV1 \<Rightarrow> Adapter \<Rightarrow> Registry \<Rightarrow> Dispatcher \<Rightarrow> sched" where
  "New_scheduler policy adapter registry dispatcher =
     \<lparr>so_policy = policy, so_adapter = adapter, so_registry = registry, so_engine = New, so_dispatcher = dispatcher,
      so_cron = [], so_started = False, so_cancelFullScan = None, so_cancelRescan = None\<rparr>"

definition AddFunc :: "(string \<Rightarrow> string option) \<Rightarrow> string \<Rightarrow> job \<Rightarrow> sched \<Rightarrow> string + sched" where
  "AddFunc cron_error spec j s =
     (case cron_error spec of Some err \<Rightarrow> Inl err | None \<Rightarrow> Inr (s\<lparr>so_cron := so_cron s @ [(spec, j)]\<rparr>))"

definition Start :: "(string \<Rightarrow> string option) \<Rightarrow> sched \<Rightarrow> string + sched" where
  "Start cron_error s =
     (let schedule = ps_Schedule (cp_Spec (so_policy s))
      in case AddFunc cron_error (sch_FullScan schedule) FullScanJob s of
           Inl err \<Rightarrow> Inl (''adding full scan cron: '' @ err)
         | Inr s1 \<Rightarrow>
             if sch_FailedRescan schedule \<noteq> [] then
               (case AddFunc cron_error (sch_FailedRescan schedule) RescanJob s1 of
                  Inl err \<Rightarrow> Inl (''adding rescan cron: '' @ err)
                | Inr s2 \<Rightarrow> Inr (s2\<lparr>so_started := True\<rparr>))
             else Inr (s1\<lparr>so_started := True\<rparr>))"

text \<open>\<open>Stop\<close> with the contexts it cancels.\<close>

definition opt_list :: "'a option \<Rightarrow> 'a list" where
  "opt_list v = (case v of None \<Rightarrow> [] | Some x \<Rightarrow> [x])"

definition Stop :: "sched \<Rightarrow> nat list \<times> sched" where
  "Stop s = (opt_list (so_cancelFullScan s) @ opt_list (so_cancelRescan s), s\<lparr>so_started := False\<rparr>)"

section \<open>The operator\<close>

record scan_run =
  run_sched :: nat
  run_job :: job
  run_cancelled :: bool

record operator =
  op_heap :: "sched list"
  op_schedulers :: "(string \<times> nat) list"
  op_runs :: "scan_run list"

definition init_operator :: operator where
  "init_operator = \<lparr>op_heap = [], op_schedulers = [], op_runs = []\<rparr>"

definition cancel_run :: "nat \<Rightarrow> scan_run list \<Rightarrow> scan_run list" where
  "cancel_run i runs = (if i < length runs then runs[i := (runs ! i)\<lparr>run_cancelled := True\<rparr>] else runs)"

definition stopScheduler :: "string \<Rightarrow> operator \<Rightarrow> operator" where
  "stopScheduler key op =
     (case map_of (op_schedulers op) key of
        None \<Rightarrow> op
      | Some i \<Rightarrow>
          (let (ctxs, s) = Stop (op_heap op ! i)
           in op\<lparr>op_heap := (op_heap op)[i := s], op_runs := fold cancel_run ctxs (op_runs op),
                op_schedulers := AList.delete key (op_schedulers op)\<rparr>))"

definition getScheduler :: "string \<Rightarrow> operator \<Rightarrow> nat option" where
  "getScheduler key op = map_of (op_schedulers op) key"

definition TriggerFullScan :: "nat \<Rightarrow> operator \<Rightarrow> operator" where
  "TriggerFullScan i op = op\<lparr>op_runs := op_runs op @ [\<lparr>run_sched = i, run_job = FullScanJob, run_cancelled = False\<rparr>]\<rparr>"

text \<open>A job of a started scheduler fires: its scan gets a new context.\<close>

definition fire :: "nat \<Rightarrow> job \<Rightarrow> operator \<Rightarrow> operator" where
  "fire i j op =
     (let s = op_heap op ! i; ctx = length (op_runs op);
          s1 = (case j of FullScanJob \<Rightarrow> s\<lparr>so_cancelFullScan := Some ctx\<rparr> | RescanJob \<Rightarrow> s\<lparr>so_cancelRescan := Some ctx\<rparr>)
      in op\<lparr>op_heap := (op_heap op)[i := s1],
            op_runs := op_runs op @ [\<lparr>run_sched = i, run_job = j, run_cancelled = False\<rparr>]\<rparr>)"

section \<open>Building a scheduler\<close>

record 'c ctrl_env =
  ce_getPolicy :: "'c \<Rightarrow> object_key \<Rightarrow> k8s_error + ChecklistPolicyV1"
  ce_update :: "ChecklistPolicyV1 \<Rightarrow> 'c \<Rightarrow> 'c \<times> (k8s_error + ChecklistPolicyV1)"
  ce_updateStatus :: "ChecklistPolicyV1 \<Rightarrow> 'c \<Rightarrow> 'c \<times> k8s_error option"
  ce_getSecret :: "'c \<Rightarrow> object_key \<Rightarrow> k8s_error + (string \<times> string) list"
  ce_cron :: "string \<Rightarrow> string option"
  ce_setCondition :: set_condition
  ce_clock :: int
  ce_kube :: clientset
  ce_web :: web
  ce_llm :: "string \<Rightarrow> nat \<Rightarrow> claudeRequest \<Rightarrow> api_reply"
  ce_raw :: "json \<Rightarrow> string"
  ce_type_error :: string

text \<open>\<open>fmt.Errorf("\<dots>: %w", \<dots>)\<close>: the kind of the error is kept.\<close>

primrec wrap :: "string \<Rightarrow> k8s_error \<Rightarrow> k8s_error" where
  "wrap text (NotFound e) = NotFound (text @ e)"
| "wrap text (Failure e) = Failure (text @ e)"

definition resolveSecret :: "'c ctrl_env \<Rightarrow> 'c \<Rightarrow> string \<Rightarrow> SecretReference \<Rightarrow> k8s_error + string" where
  "resolveSecret env c namespace ref =
     (case ce_getSecret env c (namespace, sec_Name ref) of
        Inl err \<Rightarrow> Inl (wrap (''getting secret '' @ sec_Name ref @ '': '') err)
      | Inr data \<Rightarrow>
          (let key = (if sec_Key ref = [] then ''api-key'' else sec_Key ref)
           in case map_of data key of
                None \<Rightarrow> Inl (Failure (''key '' @ go_quote key @ '' not found in secret '' @ sec_Name ref))
              | Some v \<Rightarrow> Inr v))"

definition resolveJiraSecret :: "'c ctrl_env \<Rightarrow> 'c \<Rightarrow> string \<Rightarrow> SecretReference \<Rightarrow> k8s_error + string \<times> string" where
  "resolveJiraSecret env c namespace ref =
     (case ce_getSecret env c (namespace, sec_Name ref) of
        Inl err \<Rightarrow> Inl (wrap (''getting jira secret '' @ sec_Name ref @ '': '') err)
      | Inr data \<Rightarrow>
          (let email = (case map_of data ''email'' of None \<Rightarrow> [] | Some v \<Rightarrow> v);
               tok = (case map_of data ''token'' of None \<Rightarrow> [] | Some v \<Rightarrow> v)
           in if tok = [] then Inl (Failure (''key '' @ go_quote ''token'' @ '' not found in jira secret '' @ sec_Name ref))
              else Inr (email, tok)))"

definition buildAdapter :: "'c ctrl_env \<Rightarrow> LLMConfigV1 \<Rightarrow> string \<Rightarrow> k8s_error + Adapter" where
  "buildAdapter env cfg apiKey =
     (if llm_Provider cfg = ''claude''
      then Inr (claude (NewClaudeAdapter (ce_llm env apiKey) (ce_raw env) (ce_type_error env) (llm_Model cfg)))
      else Inl (Failure (''unsupported LLM provider: '' @ llm_Provider cfg)))"

definition add_notifier ::
  "'x option \<Rightarrow> ('x \<Rightarrow> k8s_error + Notifier) \<Rightarrow> string \<Rightarrow> k8s_error + Dispatcher \<Rightarrow> k8s_error + Dispatcher" where
  "add_notifier cfg build service acc =
     (case acc of
        Inl err \<Rightarrow> Inl err
      | Inr ns \<Rightarrow>
          (case cfg of
             None \<Rightarrow> Inr ns
           | Some x \<Rightarrow>
               (case build x of
                  Inl err \<Rightarrow> Inl (wrap (''resolving '' @ service @ '' secret: '') err)
                | Inr n \<Rightarrow> Inr (ns @ [n]))))"

definition buildDispatcher :: "'c ctrl_env \<Rightarrow> 'c \<Rightarrow> ChecklistPolicyV1 \<Rightarrow> k8s_error + Dispatcher" where
  "buildDispatcher env c policy =
     (case ps_Notification (cp_Spec policy) of
        None \<Rightarrow> Inr []
      | Some nc \<Rightarrow>
          add_notifier (nc_Jira nc)
            (\<lambda>j. map_sum id (\<lambda>(email, tok). jira_notifier (ce_web env) (NewJiraNotifier (ji_URL j) email tok (ji_Project j) (ji_IssueType j)))
                   (resolveJiraSecret env c (cp_Namespace policy) (ji_SecretRef j))) ''jira''
          (add_notifier (nc_GitHub nc)
            (\<lambda>g. map_sum id (\<lambda>tok. github_notifier (ce_web env) (NewGitHubNotifier tok (gh_Owner g) (gh_Repo g) (gh_Labels g)))
                   (resolveSecret env c (cp_Namespace policy) (gh_SecretRef g))) ''github''
          (add_notifier (nc_Slack nc)
            (\<lambda>s. map_sum id (\<lambda>url. slack_notifier (ce_web env) (NewSlackNotifier url (sl_Channel s)))
                   (resolveSecret env c (cp_Namespace policy) (sl_SecretRef s))) ''slack'' (Inr []))))"

definition build_scheduler :: "'c ctrl_env \<Rightarrow> 'c \<Rightarrow> ChecklistPolicyV1 \<Rightarrow> k8s_error + sched" where
  "build_scheduler env c policy =
     (let llm_cfg = ps_LLM (cp_Spec policy); ref = llm_SecretRef llm_cfg
      in case resolveSecret env c (cp_Namespace policy) ref of
           Inl err \<Rightarrow> Inl (wrap (''LLM secret '' @ [CHR 0x27] @ sec_Name ref @ [CHR 0x27] @ '' not found in namespace ''
                                @ [CHR 0x27] @ cp_Namespace policy @ [CHR 0x27] @ '': '') err)
         | Inr apiKey \<Rightarrow>
             (case buildAdapter env llm_cfg apiKey of
                Inl err \<Rightarrow> Inl (wrap ''building LLM adapter: '' err)
              | Inr adapter \<Rightarrow>
                  (case buildDispatcher env c policy of
                     Inl err \<Rightarrow> Inl (wrap ''building dispatcher: '' err)
                   | Inr dispatcher \<Rightarrow>
                       (case Start (ce_cron env) (New_scheduler policy adapter (builtin_registry (ce_kube env)) dispatcher) of
                          Inl err \<Rightarrow> Inl (Failure (''starting scheduler: '' @ err))
                        | Inr s \<Rightarrow> Inr s))))"

definition reconcileScheduler :: "'c ctrl_env \<Rightarrow> 'c \<Rightarrow> ChecklistPolicyV1 \<Rightarrow> operator \<Rightarrow> operator \<times> k8s_error option" where
  "reconcileScheduler env c policy op =
     (let key = policyKey policy; op1 = stopScheduler key op
      in case build_scheduler env c policy of
           Inl err \<Rightarrow> (op1, Some err)
         | Inr s \<Rightarrow>
             (op1\<lparr>op_heap := op_heap op1 @ [s], op_schedulers := AList.update key (length (op_heap op1)) (op_schedulers op1)\<rparr>, None))"

section \<open>Reconcile\<close>

record reconcile_result =
  rr_Requeue :: bool
  rr_RequeueAfter :: nat
  rr_error :: "k8s_error option"

abbreviation reconciled :: reconcile_result where
  "reconciled \<equiv> \<lparr>rr_Requeue = False, rr_RequeueAfter = 0, rr_error = None\<rparr>"

definition finalizerName :: string where
  "finalizerName = ''dtm.io/finalizer''"

definition runNowAnnotation :: string where
  "runNowAnnotation = ''dtm.io/run-now''"

definition with_meta :: "(ObjectMetaV1 \<Rightarrow> ObjectMetaV1) \<Rightarrow> ChecklistPolicyV1 \<Rightarrow> ChecklistPolicyV1" where
  "with_meta f p = p\<lparr>cp_Meta := f (cp_Meta p)\<rparr>"

definition update_policy :: "'c ctrl_env \<Rightarrow> ChecklistPolicyV1 \<Rightarrow> bool \<Rightarrow> 'c \<times> operator \<Rightarrow> ('c \<times> operator) \<times> reconcile_result" where
  "update_policy env p requeue w =
     (case ce_update env p (fst w) of
        (c1, Inl err) \<Rightarrow> ((c1, snd w), reconciled\<lparr>rr_error := Some err\<rparr>)
      | (c1, Inr _) \<Rightarrow> ((c1, snd w), reconciled\<lparr>rr_Requeue := requeue\<rparr>))"

definition set_two :: "'c ctrl_env \<Rightarrow> string \<times> string \<Rightarrow> string \<times> string \<Rightarrow> string \<Rightarrow> string \<Rightarrow> ChecklistPolicyV1 \<Rightarrow> ChecklistPolicyV1" where
  "set_two env a b reason msg p =
     (let st = cp_Status p; t = ce_clock env
      in p\<lparr>cp_Status := st\<lparr>pst_Conditions :=
             ce_setCondition env (condition (fst b) (snd b) reason msg t)
               (ce_setCondition env (condition (fst a) (snd a) reason msg t) (pst_Conditions st))\<rparr>\<rparr>)"

definition error_reason :: "k8s_error \<Rightarrow> string" where
  "error_reason err =
     (if (case err of NotFound e \<Rightarrow> True | Failure e \<Rightarrow> False) \<or> str_includes (error_text err) ''not found''
      then ''SecretNotFound'' else ''SchedulerError'')"

definition running_conditions :: "'c ctrl_env \<Rightarrow> ChecklistPolicyV1 \<Rightarrow> ChecklistPolicyV1" where
  "running_conditions env p =
     (case pst_Summary (cp_Status p) of
        Some s \<Rightarrow>
          if 0 < sint (sum_Fail s)
          then set_two env (''Degraded'', ''True'') (''Available'', ''False'') ''ChecksFailed'' (scan_message s) p
          else set_two env (''Available'', ''True'') (''Degraded'', ''False'') ''SchedulerRunning'' ''Scheduler is running'' p
      | None \<Rightarrow> set_two env (''Available'', ''True'') (''Degraded'', ''False'') ''SchedulerRunning'' ''Scheduler is running'' p)"

definition reconcile_schedule :: "'c ctrl_env \<Rightarrow> ChecklistPolicyV1 \<Rightarrow> 'c \<times> operator \<Rightarrow> ('c \<times> operator) \<times> reconcile_result" where
  "reconcile_schedule env policy w =
     (case reconcileScheduler env (fst w) policy (snd w) of
        (op1, Some err) \<Rightarrow>
          (let policy1 = set_two env (''Degraded'', ''True'') (''Available'', ''False'') (error_reason err) (error_text err) policy
           in ((fst (ce_updateStatus env policy1 (fst w)), op1),
               \<lparr>rr_Requeue = False, rr_RequeueAfter = 30, rr_error = Some err\<rparr>))
      | (op1, None) \<Rightarrow>
          (case ce_updateStatus env (running_conditions env policy) (fst w) of
             (c1, Some err) \<Rightarrow> ((c1, op1), reconciled\<lparr>rr_RequeueAfter := 10\<rparr>)
           | (c1, None) \<Rightarrow> ((c1, op1), reconciled)))"

definition object_name :: "object_key \<Rightarrow> string" where
  "object_name key = fst key @ ''/'' @ snd key"

definition Reconcile :: "'c ctrl_env \<Rightarrow> object_key \<Rightarrow> 'c \<times> operator \<Rightarrow> ('c \<times> operator) \<times> reconcile_result" where
  "Reconcile env key w =
     (let c = fst w; op = snd w
      in case ce_getPolicy env c key of
           Inl (NotFound e) \<Rightarrow> ((c, stopScheduler (object_name key) op), reconciled)
         | Inl (Failure e) \<Rightarrow> (w, reconciled\<lparr>rr_error := Some (Failure e)\<rparr>)
         | Inr policy \<Rightarrow>
             (let m = cp_Meta policy
              in if om_DeletionTimestamp m \<noteq> None then
                   (if finalizerName \<in> set (om_Finalizers m)
                    then update_policy env (with_meta (\<lambda>m. m\<lparr>om_Finalizers := filter (\<lambda>f. f \<noteq> finalizerName) (om_Finalizers m)\<rparr>) policy)
                           False (c, stopScheduler (object_name key) op)
                    else (w, reconciled))
                 else if finalizerName \<notin> set (om_Finalizers m) then
                   update_policy env (with_meta (\<lambda>m. m\<lparr>om_Finalizers := om_Finalizers m @ [finalizerName]\<rparr>) policy) True w
                 else if map_of (om_Annotations m) runNowAnnotation \<notin> {None, Some []} then
                   update_policy env (with_meta (\<lambda>m. m\<lparr>om_Annotations := AList.delete runNowAnnotation (om_Annotations m)\<rparr>) policy) False
                     (c, (case getScheduler (object_name key) op of None \<Rightarrow> op | Some i \<Rightarrow> TriggerFullScan i op))
                 else reconcile_schedule env policy w))"

section \<open>One running scheduler for each policy\<close>

text \<open>
  What can happen: a reconciliation of any object with any answers, a job of a started scheduler,
  and any change of the cluster by others.
\<close>

inductive op_step :: "'c \<times> operator \<Rightarrow> 'c \<times> operator \<Rightarrow> bool" where
  reconcile: "op_step w (fst (Reconcile env key w))"
| fires: "i < length (op_heap op) \<Longrightarrow> so_started (op_heap op ! i) \<Longrightarrow> j \<in> snd ` set (so_cron (op_heap op ! i)) \<Longrightarrow>
    op_step (c, op) (c, fire i j op)"
| others: "op_step (c, op) (c', op)"

definition op_ok :: "operator \<Rightarrow> bool" where
  "op_ok op \<longleftrightarrow>
     distinct (map fst (op_schedulers op)) \<and> distinct (map snd (op_schedulers op))
     \<and> (\<forall>(k, i) \<in> set (op_schedulers op). i < length (op_heap op) \<and> so_started (op_heap op ! i) \<and> policyKey (so_policy (op_heap op ! i)) = k)
     \<and> (\<forall>i < length (op_heap op). so_started (op_heap op ! i) \<longrightarrow> i \<in> snd ` set (op_schedulers op))"

lemma op_okD:
  assumes "op_ok op"
  shows "distinct (map fst (op_schedulers op))" "distinct (map snd (op_schedulers op))"
    and "map_of (op_schedulers op) k = Some i \<Longrightarrow> i < length (op_heap op) \<and> so_started (op_heap op ! i) \<and> policyKey (so_policy (op_heap op ! i)) = k"
    and "i < length (op_heap op) \<Longrightarrow> so_started (op_heap op ! i) \<Longrightarrow> \<exists>k. map_of (op_schedulers op) k = Some i"
proof -
  show d: "distinct (map fst (op_schedulers op))" and "distinct (map snd (op_schedulers op))" using assms by (simp_all add: op_ok_def)
  show "map_of (op_schedulers op) k = Some i \<Longrightarrow> i < length (op_heap op) \<and> so_started (op_heap op ! i) \<and> policyKey (so_policy (op_heap op ! i)) = k"
    using assms by (auto simp: op_ok_def dest!: map_of_SomeD)
  assume "i < length (op_heap op)" "so_started (op_heap op ! i)"
  then obtain k where "(k, i) \<in> set (op_schedulers op)" using assms by (auto simp: op_ok_def)
  then show "\<exists>k. map_of (op_schedulers op) k = Some i" using d by auto
qed

lemma op_okI:
  assumes "distinct (map fst (op_schedulers op))"
    and "\<And>k k' i. map_of (op_schedulers op) k = Some i \<Longrightarrow> map_of (op_schedulers op) k' = Some i \<Longrightarrow> k = k'"
    and "\<And>k i. map_of (op_schedulers op) k = Some i \<Longrightarrow> i < length (op_heap op) \<and> so_started (op_heap op ! i) \<and> policyKey (so_policy (op_heap op ! i)) = k"
    and "\<And>i. i < length (op_heap op) \<Longrightarrow> so_started (op_heap op ! i) \<Longrightarrow> \<exists>k. map_of (op_schedulers op) k = Some i"
  shows "op_ok op"
proof -
  have m: "map_of (op_schedulers op) k = Some i \<longleftrightarrow> (k, i) \<in> set (op_schedulers op)" for k i
    using assms(1) by (rule map_of_eq_Some_iff)
  have "distinct (op_schedulers op)" using assms(1) by (simp add: distinct_map)
  then have "distinct (map snd (op_schedulers op))"
    using assms(2) unfolding m distinct_map by (auto simp: inj_on_def)
  then show ?thesis using assms(1,3,4) unfolding m op_ok_def by force
qed

lemma init_op_ok: "op_ok init_operator"
  by (simp add: op_ok_def init_operator_def)

lemma Stop_simps [simp]:
  "so_started (snd (Stop s)) = False" "so_policy (snd (Stop s)) = so_policy s"
  by (simp_all add: Stop_def)

lemma stopScheduler_heap: "length (op_heap (stopScheduler key op)) = length (op_heap op)"
  by (simp add: stopScheduler_def case_prod_beta Let_def split: option.split)

lemma stopScheduler_map: "map_of (op_schedulers (stopScheduler key op)) = (map_of (op_schedulers op))(key := None)"
  by (auto simp: stopScheduler_def case_prod_beta Let_def AList.delete_conv' split: option.split)

lemma stopScheduler_at:
  "i < length (op_heap op) \<Longrightarrow> op_heap (stopScheduler key op) ! i =
     (if map_of (op_schedulers op) key = Some i then snd (Stop (op_heap op ! i)) else op_heap op ! i)"
  by (auto simp: stopScheduler_def case_prod_beta Let_def nth_list_update split: option.split)

lemma op_ok_stop:
  assumes "op_ok op"
  shows "op_ok (stopScheduler key op)"
proof (rule op_okI)
  note ok = op_okD [OF assms]
  show "distinct (map fst (op_schedulers (stopScheduler key op)))"
    using ok(1) by (simp add: stopScheduler_def case_prod_beta Let_def distinct_delete split: option.split)
  show "k = k'" if "map_of (op_schedulers (stopScheduler key op)) k = Some i" "map_of (op_schedulers (stopScheduler key op)) k' = Some i" for k k' i
    using that ok(3) by (auto simp: stopScheduler_map split: if_splits) 
  show "i < length (op_heap (stopScheduler key op)) \<and> so_started (op_heap (stopScheduler key op) ! i)
      \<and> policyKey (so_policy (op_heap (stopScheduler key op) ! i)) = k"
    if "map_of (op_schedulers (stopScheduler key op)) k = Some i" for k i
    using that ok(3) [of k i] ok(3) [of key i] by (auto simp: stopScheduler_map stopScheduler_heap stopScheduler_at split: if_splits)
  show "\<exists>k. map_of (op_schedulers (stopScheduler key op)) k = Some i"
    if "i < length (op_heap (stopScheduler key op))" "so_started (op_heap (stopScheduler key op) ! i)" for i
    using that ok(4) [of i] by (auto simp: stopScheduler_map stopScheduler_heap stopScheduler_at split: if_splits)
qed

lemma Start_simps:
  assumes "Start cron_error s = Inr s'"
  shows "so_started s'" "so_policy s' = so_policy s" "so_engine s' = so_engine s" "so_adapter s' = so_adapter s" "so_registry s' = so_registry s"
  using assms by (auto simp: Start_def AddFunc_def Let_def split: option.splits if_splits sum.splits)

lemma build_scheduler_started:
  assumes "build_scheduler env c policy = Inr s"
  shows "\<exists>adapter dispatcher. Start (ce_cron env) (New_scheduler policy adapter (builtin_registry (ce_kube env)) dispatcher) = Inr s"
  using assms by (auto simp: build_scheduler_def Let_def split: sum.splits)

lemma build_scheduler_simps:
  assumes "build_scheduler env c policy = Inr s"
  shows "so_started s" "so_policy s = policy" "so_engine s = New" "so_registry s = builtin_registry (ce_kube env)"
proof -
  obtain adapter dispatcher where "Start (ce_cron env) (New_scheduler policy adapter (builtin_registry (ce_kube env)) dispatcher) = Inr s"
    using build_scheduler_started [OF assms] by blast
  from Start_simps [OF this]
  show "so_started s" "so_policy s = policy" "so_engine s = New" "so_registry s = builtin_registry (ce_kube env)"
    by (simp_all add: New_scheduler_def)
qed

text \<open>What every new scheduler is like.\<close>

definition fresh :: "sched \<Rightarrow> bool" where
  "fresh s \<longleftrightarrow> so_started s \<and> fst (Stop s) = [] \<and> so_engine s = New \<and> (\<exists>a. so_adapter s = claude a)"

lemma build_scheduler_fresh:
  assumes "build_scheduler env c policy = Inr s"
  shows "fresh s"
proof -
  have "fst (Stop s) = []"
    using build_scheduler_started [OF assms]
    by (auto simp: Start_def AddFunc_def New_scheduler_def Stop_def opt_list_def Let_def split: option.splits if_splits sum.splits)
  moreover obtain apiKey adapter dispatcher where "buildAdapter env (ps_LLM (cp_Spec policy)) apiKey = Inr adapter"
    and start: "Start (ce_cron env) (New_scheduler policy adapter (builtin_registry (ce_kube env)) dispatcher) = Inr s"
    using assms by (auto simp: build_scheduler_def Let_def split: sum.splits)
  then have "\<exists>a. adapter = claude a" by (auto simp: buildAdapter_def split: if_splits)
  ultimately show ?thesis using Start_simps [OF start] by (auto simp: fresh_def New_scheduler_def)
qed

text \<open>A started scheduler enters the table.\<close>

definition add_scheduler :: "sched \<Rightarrow> operator \<Rightarrow> operator" where
  "add_scheduler s op =
     op\<lparr>op_heap := op_heap op @ [s], op_schedulers := AList.update (policyKey (so_policy s)) (length (op_heap op)) (op_schedulers op)\<rparr>"

lemma reconcileScheduler_cases:
  "fst (reconcileScheduler env c policy op) =
     (case build_scheduler env c policy of
        Inl err \<Rightarrow> stopScheduler (policyKey policy) op
      | Inr s \<Rightarrow> add_scheduler s (stopScheduler (policyKey policy) op))"
  using build_scheduler_simps(2) [of env c policy]
  by (simp add: reconcileScheduler_def add_scheduler_def Let_def split: sum.split)

lemma op_ok_add:
  assumes "op_ok op" "so_started s" "map_of (op_schedulers op) (policyKey (so_policy s)) = None"
  shows "op_ok (add_scheduler s op)"
proof (rule op_okI)
  let ?op' = "add_scheduler s op"
  note ok = op_okD [OF assms(1)]
  show "distinct (map fst (op_schedulers ?op'))" using ok(1) by (simp add: add_scheduler_def distinct_update)
  show "k = k'" if "map_of (op_schedulers ?op') k = Some i" "map_of (op_schedulers ?op') k' = Some i" for k k' i
    using that ok(3) [of k i] ok(3) [of k' i] by (auto simp: add_scheduler_def update_conv' split: if_splits)
  show "i < length (op_heap ?op') \<and> so_started (op_heap ?op' ! i) \<and> policyKey (so_policy (op_heap ?op' ! i)) = k"
    if "map_of (op_schedulers ?op') k = Some i" for k i
    using that ok(3) [of k i] assms(2) by (auto simp: add_scheduler_def update_conv' nth_append split: if_splits)
  show "\<exists>k. map_of (op_schedulers ?op') k = Some i" if i: "i < length (op_heap ?op')" "so_started (op_heap ?op' ! i)" for i
  proof (cases "i < length (op_heap op)")
    case True
    then obtain k where k: "map_of (op_schedulers op) k = Some i" using i ok(4) [of i] by (auto simp: add_scheduler_def nth_append)
    then have "k \<noteq> policyKey (so_policy s)" using assms(3) by auto
    then show ?thesis using k by (auto simp: add_scheduler_def update_conv')
  next
    case False
    then have "i = length (op_heap op)" using i by (simp add: add_scheduler_def)
    then show ?thesis by (auto simp: add_scheduler_def update_conv')
  qed
qed

lemma stopped_policy:
  assumes "op_ok op" "map_of (op_schedulers op) key = None"
  shows "\<forall>i < length (op_heap op). so_started (op_heap op ! i) \<longrightarrow> policyKey (so_policy (op_heap op ! i)) \<noteq> key"
  using op_okD(3,4) [OF assms(1)] assms(2) by (metis option.distinct(1))

lemma op_ok_runs: "op_ok (op\<lparr>op_runs := rs\<rparr>) \<longleftrightarrow> op_ok op"
  by (simp add: op_ok_def)

lemma update_policy_op [simp]: "snd (fst (update_policy env p b w)) = snd w"
  by (simp add: update_policy_def split: prod.split sum.split)

lemma reconcile_schedule_op: "snd (fst (reconcile_schedule env policy w)) = fst (reconcileScheduler env (fst w) policy (snd w))"
  by (simp add: reconcile_schedule_def Let_def split: prod.split option.split)

lemma op_ok_fire:
  assumes "op_ok op" "i < length (op_heap op)"
  shows "op_ok (fire i j op)"
proof (rule op_okI)
  note ok = op_okD [OF assms(1)]
  have h: "so_started (op_heap (fire i j op) ! m) = so_started (op_heap op ! m)" "so_policy (op_heap (fire i j op) ! m) = so_policy (op_heap op ! m)"
    "length (op_heap (fire i j op)) = length (op_heap op)" "op_schedulers (fire i j op) = op_schedulers op" if "m < length (op_heap op)" for m
    using that assms(2) by (auto simp: fire_def Let_def nth_list_update split: job.split)
  have g: "length (op_heap (fire i j op)) = length (op_heap op)" "op_schedulers (fire i j op) = op_schedulers op"
    by (simp_all add: fire_def Let_def)
  show "distinct (map fst (op_schedulers (fire i j op)))" using ok(1) g by simp
  show "k = k'" if "map_of (op_schedulers (fire i j op)) k = Some m" "map_of (op_schedulers (fire i j op)) k' = Some m" for k k' m
    using that ok(3) g by metis
  show "m < length (op_heap (fire i j op)) \<and> so_started (op_heap (fire i j op) ! m) \<and> policyKey (so_policy (op_heap (fire i j op) ! m)) = k"
    if "map_of (op_schedulers (fire i j op)) k = Some m" for k m
    using that ok(3) [of k m] g h by auto
  show "\<exists>k. map_of (op_schedulers (fire i j op)) k = Some m" if "m < length (op_heap (fire i j op))" "so_started (op_heap (fire i j op) ! m)" for m
    using that ok(4) [of m] g h by auto
qed

text \<open>
  An invariant of the operator: what the events do to its state is stop a scheduler, add one that
  has just been started under a free key, begin a scan at once, and fire a job.
\<close>

locale operator_invariant =
  fixes I :: "operator \<Rightarrow> bool"
  assumes init: "I init_operator"
    and stop: "I op \<Longrightarrow> I (stopScheduler key op)"
    and add: "I op \<Longrightarrow> fresh s \<Longrightarrow> map_of (op_schedulers op) (policyKey (so_policy s)) = None \<Longrightarrow> I (add_scheduler s op)"
    and trigger: "I op \<Longrightarrow> I (TriggerFullScan i op)"
    and fired: "I op \<Longrightarrow> i < length (op_heap op) \<Longrightarrow> I (fire i j op)"
begin

lemma schedule_I: "I op \<Longrightarrow> I (fst (reconcileScheduler env c policy op))"
  using build_scheduler_simps(2) [of env c policy] build_scheduler_fresh [of env c policy]
  by (simp add: reconcileScheduler_cases stop add stopScheduler_map split: sum.split)

lemma Reconcile_I: "I op \<Longrightarrow> I (snd (fst (Reconcile env key (c, op))))"
  by (simp add: Reconcile_def Let_def stop schedule_I reconcile_schedule_op trigger split: sum.split k8s_error.split option.split)

lemma step_I: "op_step w w' \<Longrightarrow> I (snd w) \<Longrightarrow> I (snd w')"
proof (induction rule: op_step.induct)
  case (reconcile w env key)
  then show ?case using Reconcile_I [of "snd w" env key "fst w"] by simp
qed (auto intro: fired)

lemma reachable_I: "op_step\<^sup>*\<^sup>* (c, init_operator) w \<Longrightarrow> I (snd w)"
  by (induction rule: rtranclp_induct) (auto intro: init step_I)

end

interpretation table: operator_invariant op_ok
  by unfold_locales (simp_all add: init_op_ok op_ok_stop op_ok_add op_ok_fire TriggerFullScan_def op_ok_runs fresh_def)

text \<open>
  C6: whatever is reconciled, whatever the cluster answers and whenever jobs fire: the started
  schedulers are exactly those in the table, each under the key of its policy, and so no two of
  them work for the same policy.
\<close>

theorem one_scheduler_per_policy:
  assumes "op_step\<^sup>*\<^sup>* (c, init_operator) (c', op)"
  shows "(\<forall>k i. map_of (op_schedulers op) k = Some i \<longrightarrow> i < length (op_heap op) \<and> so_started (op_heap op ! i)
      \<and> policyKey (so_policy (op_heap op ! i)) = k)
    \<and> (\<forall>i < length (op_heap op). so_started (op_heap op ! i) \<longrightarrow> map_of (op_schedulers op) (policyKey (so_policy (op_heap op ! i))) = Some i)
    \<and> inj_on (\<lambda>i. policyKey (so_policy (op_heap op ! i))) {i. i < length (op_heap op) \<and> so_started (op_heap op ! i)}"
proof -
  have "op_ok op" using table.reachable_I [OF assms] by simp
  note ok = op_okD [OF this]
  have t: "map_of (op_schedulers op) (policyKey (so_policy (op_heap op ! i))) = Some i"
    if "i < length (op_heap op)" "so_started (op_heap op ! i)" for i
    using ok(3,4) that by metis
  then have "inj_on (\<lambda>i. policyKey (so_policy (op_heap op ! i))) {i. i < length (op_heap op) \<and> so_started (op_heap op ! i)}"
    by (intro inj_onI) (metis (mono_tags, lifting) mem_Collect_eq option.inject)
  with t show ?thesis using ok(3) by blast
qed

section \<open>The branches of a reconciliation\<close>

text \<open>A policy that is to be scheduled: not being deleted, with the finalizer, without a run-now mark.\<close>

definition settled :: "ChecklistPolicyV1 \<Rightarrow> bool" where
  "settled p \<longleftrightarrow>
     om_DeletionTimestamp (cp_Meta p) = None \<and> finalizerName \<in> set (om_Finalizers (cp_Meta p))
     \<and> map_of (om_Annotations (cp_Meta p)) runNowAnnotation \<in> {None, Some []}"

lemma Reconcile_settled: "ce_getPolicy env c key = Inr p \<Longrightarrow> settled p \<Longrightarrow> Reconcile env key (c, op) = reconcile_schedule env p (c, op)"
  by (auto simp: Reconcile_def settled_def Let_def)

lemma reconcileScheduler_built:
  assumes "build_scheduler env c policy = Inr s"
  shows "snd (reconcileScheduler env c policy op) = None"
    and "map_of (op_schedulers (fst (reconcileScheduler env c policy op))) (policyKey policy) = Some (length (op_heap op))"
    and "op_heap (fst (reconcileScheduler env c policy op)) ! length (op_heap op) = s"
    and "length (op_heap (fst (reconcileScheduler env c policy op))) = Suc (length (op_heap op))"
  by (simp_all add: reconcileScheduler_def Let_def assms stopScheduler_heap update_conv' nth_append)

text \<open>
  C29: a reconciliation forgets what the engine remembered.  After it the policy has a scheduler
  with a new engine, and its next scan asks the language model about all checks, five at a time,
  however little the cluster has changed.  Every full scan ends with an update of the status, for
  which the controller reconciles the policy.
\<close>

theorem reconcile_forgets_verdicts:
  assumes "ce_getPolicy env c key = Inr policy" and "settled policy" and "build_scheduler env c policy = Inr s"
  shows "\<exists>i. map_of (op_schedulers (snd (fst (Reconcile env key (c, op))))) (policyKey policy) = Some i
    \<and> (\<forall>input. sc_asked (fst (snd (RunChecks input policy (ps_Checks (cp_Spec policy))
          (so_engine (op_heap (snd (fst (Reconcile env key (c, op)))) ! i))))) = (length (ps_Checks (cp_Spec policy)) + 4) div 5)"
proof -
  have "reusable New k h checks = None" for k h checks by (simp add: reusable_def New_def)
  then show ?thesis
    using reconcileScheduler_built [OF assms(3), of op] build_scheduler_simps(3) [OF assms(3)]
    by (simp add: Reconcile_settled [OF assms(1,2)] reconcile_schedule_op requests_made)
qed

text \<open>A cluster that holds one policy and the secret of its language model.\<close>

fun put_condition :: set_condition where
  "put_condition c [] = [c]"
| "put_condition c (d # cs) =
     (if cond_Type d = cond_Type c
      then (if cond_Status d = cond_Status c then c\<lparr>cond_LastTransitionTime := cond_LastTransitionTime d\<rparr> else c) # cs
      else d # put_condition c cs)"

definition demo_ctrl :: "ChecklistPolicyV1 ctrl_env" where
  "demo_ctrl = \<lparr>ce_getPolicy = (\<lambda>c k. if k = (cp_Namespace c, cp_Name c) then Inr c else Inl (NotFound [])),
     ce_update = (\<lambda>p c. (p, Inr p)), ce_updateStatus = (\<lambda>p c. (c\<lparr>cp_Status := cp_Status p\<rparr>, None)), ce_getSecret = (\<lambda>c k. Inr [(''api-key'', ''secret'')]),
     ce_cron = (\<lambda>_. None), ce_setCondition = put_condition, ce_clock = 7, ce_kube = quiet_cluster [],
     ce_web = \<lparr>w_bad_url = (\<lambda>_. None), w_do = (\<lambda>_. Inr 200)\<rparr>, ce_llm = (\<lambda>k now req. Reply 200 [] (Inr JNull)), ce_raw = (\<lambda>_. []),
     ce_type_error = []\<rparr>"

definition settled_policy :: ChecklistPolicyV1 where
  "settled_policy = with_meta (\<lambda>m. m\<lparr>om_Finalizers := [finalizerName]\<rparr>) demo_policyV1"

lemma settled_policy_simps [simp]:
  "settled settled_policy" "ce_getPolicy demo_ctrl settled_policy (''ns'', ''p'') = Inr settled_policy"
  "policyKey settled_policy = ''ns/p''" "cp_Spec settled_policy = cp_Spec demo_policyV1"
  by (simp_all add: settled_def settled_policy_def with_meta_def demo_policyV1_def demo_ctrl_def policyKey_def)

lemma demo_builds: "\<exists>s. build_scheduler demo_ctrl c settled_policy = Inr s"
  by (simp add: build_scheduler_def resolveSecret_def buildAdapter_def buildDispatcher_def Start_def AddFunc_def demo_ctrl_def
      settled_policy_def with_meta_def demo_policyV1_def New_scheduler_def)

theorem reconcile_forgets_verdicts_witness:
  "\<exists>i. map_of (op_schedulers (snd (fst (Reconcile demo_ctrl (''ns'', ''p'') (settled_policy, init_operator))))) ''ns/p'' = Some i
     \<and> sc_asked (fst (snd (RunChecks (demo_env passing) settled_policy (ps_Checks (cp_Spec settled_policy))
         (so_engine (op_heap (snd (fst (Reconcile demo_ctrl (''ns'', ''p'') (settled_policy, init_operator)))) ! i))))) = 1"
proof -
  obtain s where "build_scheduler demo_ctrl settled_policy settled_policy = Inr s" using demo_builds by blast
  then obtain i where "map_of (op_schedulers (snd (fst (Reconcile demo_ctrl (''ns'', ''p'') (settled_policy, init_operator))))) (policyKey settled_policy) = Some i"
    and "\<And>input. sc_asked (fst (snd (RunChecks input settled_policy (ps_Checks (cp_Spec settled_policy))
         (so_engine (op_heap (snd (fst (Reconcile demo_ctrl (''ns'', ''p'') (settled_policy, init_operator)))) ! i)))))
       = (length (ps_Checks (cp_Spec settled_policy)) + 4) div 5"
    using reconcile_forgets_verdicts [of demo_ctrl settled_policy "(''ns'', ''p'')" settled_policy s init_operator] by auto
  moreover have "length (ps_Checks (cp_Spec settled_policy)) = 2" by (simp add: demo_policyV1_def)
  ultimately show ?thesis by auto
qed

theorem one_scheduler_per_policy_witness:
  "\<exists>i. map_of (op_schedulers (snd (fst (Reconcile demo_ctrl (''ns'', ''p'') (settled_policy, init_operator))))) ''ns/p'' = Some i
     \<and> so_started (op_heap (snd (fst (Reconcile demo_ctrl (''ns'', ''p'') (settled_policy, init_operator)))) ! i)"
proof -
  let ?w = "fst (Reconcile demo_ctrl (''ns'', ''p'') (settled_policy, init_operator))"
  obtain s where s: "build_scheduler demo_ctrl settled_policy settled_policy = Inr s" using demo_builds by blast
  have "op_step (settled_policy, init_operator) ?w" by (rule op_step.reconcile)
  then have "op_step\<^sup>*\<^sup>* (settled_policy, init_operator) (fst ?w, snd ?w)" by simp
  from one_scheduler_per_policy [OF this]
  have "map_of (op_schedulers (snd ?w)) k = Some i \<Longrightarrow> so_started (op_heap (snd ?w) ! i)" for k i by blast
  moreover have "map_of (op_schedulers (snd ?w)) ''ns/p'' = Some 0"
    using reconcileScheduler_built(2) [OF s, of init_operator]
    by (simp add: Reconcile_settled reconcile_schedule_op init_operator_def)
  ultimately show ?thesis by blast
qed

section \<open>Errors\<close>

lemma includes_middle: "str_includes (x @ s @ y) s"
  by (simp add: str_includes_sublist)

lemma wrap_text [simp]: "error_text (wrap t e) = t @ error_text e"
  by (cases e) simp_all

text \<open>A scheduler that cannot be built: the policy is degraded and nothing runs for it.\<close>

lemma Reconcile_failed:
  assumes "op_ok op" "ce_getPolicy env c key = Inr policy" "settled policy" "build_scheduler env c policy = Inl e"
  shows "Reconcile env key (c, op) =
      ((fst (ce_updateStatus env (set_two env (''Degraded'', ''True'') (''Available'', ''False'') (error_reason e) (error_text e) policy) c),
        stopScheduler (policyKey policy) op),
       \<lparr>rr_Requeue = False, rr_RequeueAfter = 30, rr_error = Some e\<rparr>)"
    and "\<forall>i < length (op_heap (stopScheduler (policyKey policy) op)).
      so_started (op_heap (stopScheduler (policyKey policy) op) ! i) \<longrightarrow>
      policyKey (so_policy (op_heap (stopScheduler (policyKey policy) op) ! i)) \<noteq> policyKey policy"
proof -
  show "\<forall>i < length (op_heap (stopScheduler (policyKey policy) op)).
      so_started (op_heap (stopScheduler (policyKey policy) op) ! i) \<longrightarrow>
      policyKey (so_policy (op_heap (stopScheduler (policyKey policy) op) ! i)) \<noteq> policyKey policy"
    by (rule stopped_policy [OF op_ok_stop [OF assms(1)]]) (simp add: stopScheduler_map)
qed (simp add: Reconcile_settled [OF assms(2,3)] reconcile_schedule_def reconcileScheduler_def assms(4) Let_def)

text \<open>
  C27: when the access to the language model cannot be read, for whatever reason, the policy is
  reported degraded with the reason \<open>SecretNotFound\<close>, even if the secret is there and the API
  server was only slow or refused, and no scheduler of the policy is left running.
\<close>

theorem unreadable_secret_stops_policy:
  assumes "op_step\<^sup>*\<^sup>* (c0, init_operator) (c, op)"
    and "ce_getPolicy env c key = Inr policy" and "settled policy"
    and "ce_getSecret env c (cp_Namespace policy, sec_Name (llm_SecretRef (ps_LLM (cp_Spec policy)))) = Inl err"
  shows "\<exists>e op'. Reconcile env key (c, op) =
      ((fst (ce_updateStatus env (set_two env (''Degraded'', ''True'') (''Available'', ''False'') ''SecretNotFound'' (error_text e) policy) c), op'),
       \<lparr>rr_Requeue = False, rr_RequeueAfter = 30, rr_error = Some e\<rparr>)
    \<and> (\<forall>i < length (op_heap op'). so_started (op_heap op' ! i) \<longrightarrow> policyKey (so_policy (op_heap op' ! i)) \<noteq> policyKey policy)"
proof -
  obtain e where b: "build_scheduler env c policy = Inl e" and "str_includes (error_text e) ''not found''"
    using assms(4) includes_middle [of "''LLM secret '' @ [CHR 0x27] @ sec_Name (llm_SecretRef (ps_LLM (cp_Spec policy))) @ [CHR 0x27] @ '' ''" "''not found''"]
    by (simp add: build_scheduler_def resolveSecret_def Let_def)
  then have "error_reason e = ''SecretNotFound''" by (simp add: error_reason_def)
  then show ?thesis
    using Reconcile_failed [OF _ assms(2,3) b, of op] table.reachable_I [OF assms(1)] by auto
qed

text \<open>
  a policy for Gemini or OpenAI, which the resource definition and the form offer, is never
  verified: every reconciliation reports it degraded and leaves no scheduler for it running.
\<close>

theorem other_providers_never_run:
  assumes "op_step\<^sup>*\<^sup>* (c0, init_operator) (c, op)"
    and "ce_getPolicy env c key = Inr policy" and "settled policy"
    and "llm_Provider (ps_LLM (cp_Spec policy)) \<in> {''gemini'', ''openai''}"
    and "resolveSecret env c (cp_Namespace policy) (llm_SecretRef (ps_LLM (cp_Spec policy))) = Inr apiKey"
  shows "\<exists>msg op'. fst (Reconcile env key (c, op)) =
      (fst (ce_updateStatus env (set_two env (''Degraded'', ''True'') (''Available'', ''False'') ''SchedulerError'' msg policy) c), op')
    \<and> (\<forall>i < length (op_heap op'). so_started (op_heap op' ! i) \<longrightarrow> policyKey (so_policy (op_heap op' ! i)) \<noteq> policyKey policy)"
proof -
  let ?e = "Failure (''building LLM adapter: unsupported LLM provider: '' @ llm_Provider (ps_LLM (cp_Spec policy)))"
  have "build_scheduler env c policy = Inl ?e"
    using assms(4) by (auto simp: build_scheduler_def assms(5) buildAdapter_def)
  moreover have "error_reason ?e = ''SchedulerError''" using assms(4) by (auto simp: error_reason_def startsWith_def)
  ultimately show ?thesis
    using Reconcile_failed [OF _ assms(2,3), of op ?e] table.reachable_I [OF assms(1)] by auto
qed

definition gemini_policy :: ChecklistPolicyV1 where
  "gemini_policy = settled_policy\<lparr>cp_Spec := (cp_Spec settled_policy)\<lparr>ps_LLM := (ps_LLM (cp_Spec settled_policy))\<lparr>llm_Provider := ''gemini''\<rparr>\<rparr>\<rparr>"

theorem other_providers_never_run_witness:
  "\<exists>msg op'. fst (Reconcile demo_ctrl (''ns'', ''p'') (gemini_policy, init_operator)) =
     (fst (ce_updateStatus demo_ctrl (set_two demo_ctrl (''Degraded'', ''True'') (''Available'', ''False'') ''SchedulerError'' msg gemini_policy) gemini_policy), op')"
proof -
  have p: "ce_getPolicy demo_ctrl gemini_policy (''ns'', ''p'') = Inr gemini_policy" "settled gemini_policy"
    "llm_Provider (ps_LLM (cp_Spec gemini_policy)) \<in> {''gemini'', ''openai''}"
    using settled_policy_simps(1)
    by (simp_all add: gemini_policy_def demo_ctrl_def settled_def settled_policy_def with_meta_def demo_policyV1_def)
  have "resolveSecret demo_ctrl gemini_policy (cp_Namespace gemini_policy) (llm_SecretRef (ps_LLM (cp_Spec gemini_policy))) = Inr ''secret''"
    by (simp add: resolveSecret_def demo_ctrl_def gemini_policy_def settled_policy_def with_meta_def demo_policyV1_def)
  from other_providers_never_run [OF rtranclp.rtrancl_refl p this] show ?thesis by blast
qed

theorem unreadable_secret_stops_policy_witness:
  "\<exists>e op'. Reconcile (demo_ctrl\<lparr>ce_getSecret := \<lambda>c k. Inl (Failure ''timeout'')\<rparr>) (''ns'', ''p'') (settled_policy, init_operator) =
     ((set_two demo_ctrl (''Degraded'', ''True'') (''Available'', ''False'') ''SecretNotFound'' (error_text e) settled_policy, op'),
      \<lparr>rr_Requeue = False, rr_RequeueAfter = 30, rr_error = Some e\<rparr>)"
proof -
  let ?env = "demo_ctrl\<lparr>ce_getSecret := \<lambda>c k. Inl (Failure ''timeout'')\<rparr>"
  have "ce_getPolicy ?env settled_policy (''ns'', ''p'') = Inr settled_policy" using settled_policy_simps(2) by simp
  from unreadable_secret_stops_policy [OF rtranclp.rtrancl_refl this settled_policy_simps(1), of "Failure ''timeout''"]
  show ?thesis by (auto simp: set_two_def) (auto simp: demo_ctrl_def Let_def)
qed

text \<open>
  C26: when a policy is gone, or is being deleted and still carries the finalizer, a reconciliation
  leaves no scheduler of it running.
\<close>

theorem deleted_policy_stops:
  assumes "op_step\<^sup>*\<^sup>* (c0, init_operator) (c, op)"
    and "(\<exists>e. ce_getPolicy env c key = Inl (NotFound e)) \<or> (\<exists>p. ce_getPolicy env c key = Inr p
      \<and> om_DeletionTimestamp (cp_Meta p) \<noteq> None \<and> finalizerName \<in> set (om_Finalizers (cp_Meta p)))"
  shows "\<forall>i < length (op_heap (snd (fst (Reconcile env key (c, op))))).
    so_started (op_heap (snd (fst (Reconcile env key (c, op)))) ! i) \<longrightarrow>
    policyKey (so_policy (op_heap (snd (fst (Reconcile env key (c, op)))) ! i)) \<noteq> object_name key"
proof -
  let ?op = "stopScheduler (object_name key) op"
  have r: "snd (fst (Reconcile env key (c, op))) = ?op" using assms(2) by (auto simp: Reconcile_def Let_def)
  have "op_ok ?op" using op_ok_stop table.reachable_I [OF assms(1)] by simp
  from stopped_policy [OF this] show ?thesis unfolding r by (simp add: stopScheduler_map)
qed

theorem deleted_policy_stops_witness:
  "\<not> so_started (op_heap (snd (fst (Reconcile demo_ctrl (''ns'', ''p'')
       (with_meta (\<lambda>m. m\<lparr>om_DeletionTimestamp := Some 9\<rparr>) settled_policy,
        snd (fst (Reconcile demo_ctrl (''ns'', ''p'') (settled_policy, init_operator))))))) ! 0)"
proof -
  let ?w = "fst (Reconcile demo_ctrl (''ns'', ''p'') (settled_policy, init_operator))"
  let ?p = "with_meta (\<lambda>m. m\<lparr>om_DeletionTimestamp := Some 9\<rparr>) settled_policy"
  obtain s where s: "build_scheduler demo_ctrl settled_policy settled_policy = Inr s" using demo_builds by blast
  have w: "op_heap (snd ?w) ! 0 = s" "length (op_heap (snd ?w)) = 1" 
    using reconcileScheduler_built [OF s, of init_operator] by (simp_all add: Reconcile_settled reconcile_schedule_op init_operator_def)
  have "op_step (settled_policy, init_operator) (fst ?w, snd ?w)" using op_step.reconcile [of "(settled_policy, init_operator)"] by simp
  moreover have "op_step (fst ?w, snd ?w) (?p, snd ?w)" by (rule op_step.others)
  ultimately have reach: "op_step\<^sup>*\<^sup>* (settled_policy, init_operator) (?p, snd ?w)" by auto
  have p: "ce_getPolicy demo_ctrl ?p (''ns'', ''p'') = Inr ?p"
    by (simp add: demo_ctrl_def with_meta_def settled_policy_def demo_policyV1_def)
  have d: "om_DeletionTimestamp (cp_Meta ?p) \<noteq> None" "finalizerName \<in> set (om_Finalizers (cp_Meta ?p))"
    by (simp_all add: with_meta_def settled_policy_def)
  have "snd (fst (Reconcile demo_ctrl (''ns'', ''p'') (?p, snd ?w))) = stopScheduler ''ns/p'' (snd ?w)"
    using d by (simp add: Reconcile_def p Let_def object_name_def)
  then have h: "length (op_heap (snd (fst (Reconcile demo_ctrl (''ns'', ''p'') (?p, snd ?w))))) = 1"
    "so_policy (op_heap (snd (fst (Reconcile demo_ctrl (''ns'', ''p'') (?p, snd ?w)))) ! 0) = settled_policy"
    using w build_scheduler_simps(2) [OF s] by (simp_all add: stopScheduler_heap stopScheduler_at)
  show ?thesis using deleted_policy_stops [OF reach, of demo_ctrl "(''ns'', ''p'')"] p d h by (auto simp: object_name_def)
qed

section \<open>Run now\<close>

text \<open>
  a run-now mark is consumed whether it can be served or not.  With a scheduler of the policy
  exactly one full scan is begun; without one, after a restart of the operator or while the policy
  is degraded, the mark is removed and no scan takes place.
\<close>

theorem run_now_consumed:
  assumes "ce_getPolicy env c key = Inr policy" and "om_DeletionTimestamp (cp_Meta policy) = None"
    and "finalizerName \<in> set (om_Finalizers (cp_Meta policy))"
    and "map_of (om_Annotations (cp_Meta policy)) runNowAnnotation = Some ts" and "ts \<noteq> []"
  shows "\<exists>policy1. map_of (om_Annotations (cp_Meta policy1)) runNowAnnotation = None \<and> cp_Spec policy1 = cp_Spec policy
    \<and> fst (fst (Reconcile env key (c, op))) = fst (ce_update env policy1 c)
    \<and> op_heap (snd (fst (Reconcile env key (c, op)))) = op_heap op
    \<and> op_runs (snd (fst (Reconcile env key (c, op)))) =
        op_runs op @ (case map_of (op_schedulers op) (object_name key) of None \<Rightarrow> []
                      | Some i \<Rightarrow> [\<lparr>run_sched = i, run_job = FullScanJob, run_cancelled = False\<rparr>])"
proof -
  let ?p = "with_meta (\<lambda>m. m\<lparr>om_Annotations := AList.delete runNowAnnotation (om_Annotations m)\<rparr>) policy"
  have "Reconcile env key (c, op) = update_policy env ?p False
      (c, (case getScheduler (object_name key) op of None \<Rightarrow> op | Some i \<Rightarrow> TriggerFullScan i op))"
    using assms by (simp add: Reconcile_def Let_def)
  moreover have "fst (fst (update_policy env ?p False w)) = fst (ce_update env ?p (fst w))" for w
    by (simp add: update_policy_def split: prod.split sum.split)
  moreover have "map_of (om_Annotations (cp_Meta ?p)) runNowAnnotation = None" "cp_Spec ?p = cp_Spec policy"
    by (simp_all add: with_meta_def AList.delete_conv')
  ultimately show ?thesis
    by (intro exI [of _ ?p]) (simp add: getScheduler_def TriggerFullScan_def split: option.split)
qed

theorem run_now_consumed_witness:
  "op_runs (snd (fst (Reconcile demo_ctrl (''ns'', ''p'')
     (with_meta (\<lambda>m. m\<lparr>om_Annotations := [(runNowAnnotation, ''2026-01-01T00:00:00Z'')]\<rparr>) settled_policy, init_operator)))) = []"
proof -
  let ?p = "with_meta (\<lambda>m. m\<lparr>om_Annotations := [(runNowAnnotation, ''2026-01-01T00:00:00Z'')]\<rparr>) settled_policy"
  have "ce_getPolicy demo_ctrl ?p (''ns'', ''p'') = Inr ?p" "om_DeletionTimestamp (cp_Meta ?p) = None"
    "finalizerName \<in> set (om_Finalizers (cp_Meta ?p))"
    "map_of (om_Annotations (cp_Meta ?p)) runNowAnnotation = Some ''2026-01-01T00:00:00Z''" "''2026-01-01T00:00:00Z'' \<noteq> []"
    by (simp_all add: demo_ctrl_def with_meta_def settled_policy_def demo_policyV1_def)
  from run_now_consumed [OF this, of init_operator] show ?thesis by (auto simp: init_operator_def)
qed

section \<open>Scans that are under way\<close>

text \<open>The contexts that schedulers know are contexts of scans.\<close>

definition ctx_ok :: "operator \<Rightarrow> bool" where
  "ctx_ok op \<longleftrightarrow> (\<forall>s \<in> set (op_heap op). \<forall>i \<in> set (fst (Stop s)). i < length (op_runs op))"

lemma cancel_run_length [simp]: "length (cancel_run i runs) = length runs"
  by (simp add: cancel_run_def)

lemma cancel_runs_length [simp]: "length (fold cancel_run is runs) = length runs"
  by (induction "is" arbitrary: runs) simp_all

lemma cancel_runs_at:
  "i < length runs \<Longrightarrow> run_cancelled (fold cancel_run is runs ! i) \<longleftrightarrow> i \<in> set is \<or> run_cancelled (runs ! i)"
  by (induction "is" arbitrary: runs) (auto simp: cancel_run_def nth_list_update)

lemma Stop_contexts [simp]: "fst (Stop (snd (Stop s))) = fst (Stop s)"
  by (simp add: Stop_def)

lemma set_update_cases: "y \<in> set (xs[i := x]) \<Longrightarrow> y \<in> set xs \<or> (i < length xs \<and> y = x)"
  using set_update_subset_insert [of xs i x] by (cases "i < length xs") (auto simp: list_update_beyond)

lemma ctx_okD: "ctx_ok op \<Longrightarrow> s \<in> set (op_heap op) \<Longrightarrow> x \<in> set (fst (Stop s)) \<Longrightarrow> x < length (op_runs op)"
  by (simp add: ctx_ok_def)

lemma ctx_ok_stop:
  assumes "ctx_ok op"
  shows "ctx_ok (stopScheduler key op)"
proof (cases "map_of (op_schedulers op) key")
  case (Some i)
  have "x < length (op_runs op)" if "s \<in> set ((op_heap op)[i := snd (Stop (op_heap op ! i))])" "x \<in> set (fst (Stop s))" for s x
    using set_update_cases [OF that(1)] ctx_okD [OF assms _ that(2)] ctx_okD [OF assms nth_mem, of i x] that(2) by auto
  then show ?thesis by (auto simp: stopScheduler_def Some case_prod_beta Let_def ctx_ok_def)
qed (simp add: stopScheduler_def assms)

lemma ctx_ok_add: "ctx_ok op \<Longrightarrow> fst (Stop s) = [] \<Longrightarrow> ctx_ok (add_scheduler s op)"
  by (auto simp: ctx_ok_def add_scheduler_def)

lemma fire_contexts:
  assumes "i < length (op_heap op)" "s \<in> set (op_heap (fire i j op))" "x \<in> set (fst (Stop s))"
  shows "x = length (op_runs op) \<or> (\<exists>s' \<in> set (op_heap op). x \<in> set (fst (Stop s')))"
proof -
  obtain k where k: "k < length (op_heap op)" "s = op_heap (fire i j op) ! k"
    using assms(1,2) by (auto simp: in_set_conv_nth fire_def Let_def)
  have "op_heap op ! k \<in> set (op_heap op)" using k(1) by simp
  then show ?thesis
    using assms k by (cases "k = i"; cases j) (auto simp: fire_def Let_def Stop_def opt_list_def split: option.splits)
qed

lemma ctx_ok_fire:
  assumes "ctx_ok op" "i < length (op_heap op)"
  shows "ctx_ok (fire i j op)"
proof -
  have "x < Suc (length (op_runs op))" if "s \<in> set (op_heap (fire i j op))" "x \<in> set (fst (Stop s))" for s x
    using fire_contexts [OF assms(2) that] ctx_okD [OF assms(1)] by (auto dest: less_SucI)
  moreover have "length (op_runs (fire i j op)) = Suc (length (op_runs op))" by (simp add: fire_def Let_def)
  ultimately show ?thesis by (simp add: ctx_ok_def)
qed

interpretation contexts: operator_invariant ctx_ok
proof unfold_locales
  show "ctx_ok init_operator" by (simp add: ctx_ok_def init_operator_def)
  show "ctx_ok op \<Longrightarrow> ctx_ok (TriggerFullScan i op)" for op i by (auto simp: ctx_ok_def TriggerFullScan_def dest: less_SucI)
qed (simp_all add: ctx_ok_stop ctx_ok_add ctx_ok_fire fresh_def)

text \<open>
  C28: stopping a scheduler cancels only the full scan that began last.  When a full scan is still
  under way at the time of the next one, an edit or the deletion of the policy cancels the younger
  scan, and the older one goes on with the old policy.
\<close>

theorem older_scan_survives_stop:
  assumes "op_step\<^sup>*\<^sup>* (c0, init_operator) (c, op)" and "map_of (op_schedulers op) key = Some i"
  shows "let op2 = fire i FullScanJob (fire i FullScanJob op); runs = op_runs (stopScheduler key op2)
    in \<not> run_cancelled (runs ! length (op_runs op)) \<and> run_cancelled (runs ! Suc (length (op_runs op)))
       \<and> run_sched (runs ! length (op_runs op)) = i"
proof -
  have i: "i < length (op_heap op)" using op_okD(3) [OF table.reachable_I [OF assms(1)]] assms(2) by simp
  let ?n = "length (op_runs op)"
  let ?op2 = "fire i FullScanJob (fire i FullScanJob op)"
  have r: "x < ?n" if "so_cancelRescan (op_heap op ! i) = Some x" for x
    using ctx_okD [OF contexts.reachable_I [OF assms(1), simplified] nth_mem [OF i], of x] that by (simp add: Stop_def opt_list_def)
  have runs: "op_runs ?op2 = op_runs op @ [\<lparr>run_sched = i, run_job = FullScanJob, run_cancelled = False\<rparr>,
      \<lparr>run_sched = i, run_job = FullScanJob, run_cancelled = False\<rparr>]"
    by (simp add: fire_def Let_def)
  have ctxs: "set (fst (Stop (op_heap ?op2 ! i))) = {Suc ?n} \<union> set (opt_list (so_cancelRescan (op_heap op ! i)))"
    using i by (simp add: fire_def Let_def Stop_def opt_list_def)
  have m: "map_of (op_schedulers ?op2) key = Some i" using assms(2) by (simp add: fire_def Let_def)
  have s: "op_runs (stopScheduler key ?op2) = fold cancel_run (fst (Stop (op_heap ?op2 ! i))) (op_runs ?op2)"
    by (simp add: stopScheduler_def m case_prod_beta Let_def)
  have sched: "run_sched (fold cancel_run is rs ! k) = run_sched (rs ! k)" for "is" rs k
    by (induction "is" arbitrary: rs) (simp_all add: cancel_run_def nth_list_update)
  have "?n \<notin> set (fst (Stop (op_heap ?op2 ! i)))" using r [of ?n] by (cases "so_cancelRescan (op_heap op ! i)") (auto simp: ctxs opt_list_def)
  then have "\<not> run_cancelled (op_runs (stopScheduler key ?op2) ! ?n)"
    unfolding s by (subst cancel_runs_at) (simp_all add: runs nth_append)
  moreover have "run_cancelled (op_runs (stopScheduler key ?op2) ! Suc ?n)"
    unfolding s by (subst cancel_runs_at) (simp_all add: runs ctxs)
  moreover have "run_sched (op_runs (stopScheduler key ?op2) ! ?n) = i"
    unfolding s sched by (simp add: runs nth_append)
  ultimately show ?thesis by (simp add: Let_def)
qed

theorem older_scan_survives_stop_witness:
  "let op = snd (fst (Reconcile demo_ctrl (''ns'', ''p'') (settled_policy, init_operator)));
       runs = op_runs (stopScheduler ''ns/p'' (fire 0 FullScanJob (fire 0 FullScanJob op)))
   in \<not> run_cancelled (runs ! 0) \<and> run_cancelled (runs ! 1)"
proof -
  let ?w = "fst (Reconcile demo_ctrl (''ns'', ''p'') (settled_policy, init_operator))"
  obtain s where s: "build_scheduler demo_ctrl settled_policy settled_policy = Inr s" using demo_builds by blast
  have m: "map_of (op_schedulers (snd ?w)) ''ns/p'' = Some 0"
    using reconcileScheduler_built(2) [OF s, of init_operator]
    by (simp add: Reconcile_settled reconcile_schedule_op init_operator_def)
  have "op_runs (snd ?w) = []"
    by (simp add: Reconcile_settled reconcile_schedule_op reconcileScheduler_cases s add_scheduler_def stopScheduler_def init_operator_def)
  moreover have "op_step\<^sup>*\<^sup>* (settled_policy, init_operator) (fst ?w, snd ?w)"
    using op_step.reconcile [of "(settled_policy, init_operator)"] by auto
  note older_scan_survives_stop [OF this m]
  ultimately show ?thesis by (simp add: Let_def)
qed

end
