(* ===== verification/Convergence.thy ===== *)
theory Convergence
  imports Controller
begin

text \<open>
  Liveness of \<open>Reconcile\<close> (\<open>checklistpolicy_controller.go\<close>): repeated reconciliations of a policy that can
  be scheduled reach a state in which it is, through stale caches and failing updates.
\<close>

section \<open>Reconciliation converges\<close>

text \<open>What a reconciliation has still to do before it can schedule.\<close>

definition pending :: "ChecklistPolicyV1 \<Rightarrow> nat" where
  "pending p = (if finalizerName \<in> set (om_Finalizers (cp_Meta p)) then 0 else 1)
     + (if map_of (om_Annotations (cp_Meta p)) runNowAnnotation \<in> {None, Some []} then 0 else 1)"

lemma settled_pending: "settled p \<longleftrightarrow> om_DeletionTimestamp (cp_Meta p) = None \<and> pending p = 0"
  by (simp add: settled_def pending_def)

lemma Start_succeeds:
  "(\<exists>s'. Start cron_error s = Inr s') \<longleftrightarrow>
     (let sch = ps_Schedule (cp_Spec (so_policy s))
      in cron_error (sch_FullScan sch) = None \<and> (sch_FailedRescan sch = [] \<or> cron_error (sch_FailedRescan sch) = None))"
  by (auto simp: Start_def AddFunc_def Let_def split: option.split)

lemma build_scheduler_succeeds:
  "(\<exists>s. build_scheduler env c p = Inr s) \<longleftrightarrow>
     (\<exists>apiKey adapter dispatcher.
        resolveSecret env c (cp_Namespace p) (llm_SecretRef (ps_LLM (cp_Spec p))) = Inr apiKey
        \<and> buildAdapter env (ps_LLM (cp_Spec p)) apiKey = Inr adapter \<and> buildDispatcher env c p = Inr dispatcher
        \<and> (\<exists>s. Start (ce_cron env) (New_scheduler p adapter (builtin_registry (ce_kube env)) dispatcher) = Inr s))"
  by (auto simp: build_scheduler_def Let_def split: sum.splits)

lemma build_scheduler_cong:
  assumes "\<exists>s. build_scheduler env c p = Inr s"
    and "ce_getSecret env c' = ce_getSecret env c" "cp_Spec p' = cp_Spec p" "cp_Namespace p' = cp_Namespace p"
  shows "\<exists>s. build_scheduler env c' p' = Inr s"
proof -
  have r: "resolveSecret env c' = resolveSecret env c" "resolveJiraSecret env c' = resolveJiraSecret env c"
    using assms(2) by (intro ext, simp add: resolveSecret_def resolveJiraSecret_def)+
  have d: "buildDispatcher env c' p' = buildDispatcher env c p"
    unfolding buildDispatcher_def r assms(3,4) ..
  have st: "(\<exists>s. Start cr (New_scheduler p' a g d) = Inr s) \<longleftrightarrow> (\<exists>s. Start cr (New_scheduler p a g d) = Inr s)" for cr a g d
    by (simp add: Start_succeeds New_scheduler_def assms(3))
  show ?thesis using assms(1) unfolding build_scheduler_succeeds r d st by (simp add: assms(3,4))
qed

text \<open>
  Metadata of a policy without its first pending item.  It is what \<open>Reconcile\<close> asks the API server
  to store.
\<close>

definition next_meta :: "ChecklistPolicyV1 \<Rightarrow> ChecklistPolicyV1" where
  "next_meta p =
     (if finalizerName \<notin> set (om_Finalizers (cp_Meta p))
      then with_meta (\<lambda>m. m\<lparr>om_Finalizers := om_Finalizers m @ [finalizerName]\<rparr>) p
      else with_meta (\<lambda>m. m\<lparr>om_Annotations := AList.delete runNowAnnotation (om_Annotations m)\<rparr>) p)"

lemma next_meta_simps [simp]:
  "cp_Spec (next_meta p) = cp_Spec p" "cp_Namespace (next_meta p) = cp_Namespace p" "cp_Name (next_meta p) = cp_Name p"
  "om_DeletionTimestamp (cp_Meta (next_meta p)) = om_DeletionTimestamp (cp_Meta p)"
  by (simp_all add: next_meta_def with_meta_def)

lemma next_meta_pending: "pending p \<noteq> 0 \<Longrightarrow> pending (next_meta p) = pending p - 1"
  by (auto simp: pending_def next_meta_def with_meta_def AList.delete_conv')

text \<open>
  The client of the manager writes to the API server and reads from a cache.  Between two
  reconciliations the cache catches up with what is stored (\<open>settle\<close>); a state is \<open>current\<close> when it
  has.  What Kubernetes documents of the calls that \<open>Reconcile\<close> makes on a policy that is not being
  deleted, in a current state and while nobody else changes the policy or the secrets: the object
  read is the one asked for; an update of its metadata that is answered without an error is what is
  read afterwards, and one that is answered with an error may have been stored or not; an update of
  the status changes neither metadata nor specification, whether it succeeds or not.
\<close>

definition same_object :: "ChecklistPolicyV1 \<Rightarrow> ChecklistPolicyV1 \<Rightarrow> bool" where
  "same_object p q \<longleftrightarrow>
     cp_Namespace p = cp_Namespace q \<and> cp_Name p = cp_Name q \<and> cp_Spec p = cp_Spec q
     \<and> om_Finalizers (cp_Meta p) = om_Finalizers (cp_Meta q) \<and> om_Annotations (cp_Meta p) = om_Annotations (cp_Meta q)
     \<and> om_DeletionTimestamp (cp_Meta p) = om_DeletionTimestamp (cp_Meta q)"

definition seen :: "'c ctrl_env \<Rightarrow> object_key \<Rightarrow> 'c \<Rightarrow> 'c \<Rightarrow> ChecklistPolicyV1 \<Rightarrow> bool" where
  "seen env key c c' q \<longleftrightarrow>
     (\<exists>p'. ce_getPolicy env c' key = Inr p' \<and> same_object p' q) \<and> ce_getSecret env c' = ce_getSecret env c"

definition live_updates :: "'c ctrl_env \<Rightarrow> ('c \<Rightarrow> 'c) \<Rightarrow> ('c \<Rightarrow> bool) \<Rightarrow> object_key \<Rightarrow> bool" where
  "live_updates env settle current key \<longleftrightarrow>
     (\<forall>c p. current c \<longrightarrow> ce_getPolicy env c key = Inr p \<longrightarrow> om_DeletionTimestamp (cp_Meta p) = None \<longrightarrow>
        (cp_Namespace p, cp_Name p) = key
        \<and> (pending p \<noteq> 0 \<longrightarrow>
             (case ce_update env (next_meta p) c of (c', answer) \<Rightarrow>
                current (settle c') \<and> (seen env key c (settle c') (next_meta p) \<or> isl answer \<and> seen env key c (settle c') p)))
        \<and> (\<forall>st. case ce_updateStatus env (p\<lparr>cp_Status := st\<rparr>) c of (c', answer) \<Rightarrow>
                current (settle c') \<and> seen env key c (settle c') p))"

text \<open>Reconciliations, each with the cache caught up, and how many of them return an error.\<close>

fun reconcile_rounds :: "nat \<Rightarrow> 'c ctrl_env \<Rightarrow> ('c \<Rightarrow> 'c) \<Rightarrow> object_key \<Rightarrow> 'c \<times> operator \<Rightarrow> ('c \<times> operator) \<times> nat" where
  "reconcile_rounds 0 env settle key w = (w, 0)"
| "reconcile_rounds (Suc n) env settle key w =
     (let r = Reconcile env key w;
          rest = reconcile_rounds n env settle key (settle (fst (fst r)), snd (fst r))
      in (fst rest, (if rr_error (snd r) = None then 0 else 1) + snd rest))"

definition awaits :: "'c ctrl_env \<Rightarrow> ('c \<Rightarrow> bool) \<Rightarrow> object_key \<Rightarrow> ChecklistPolicySpec \<Rightarrow> 'c \<Rightarrow> ChecklistPolicyV1 \<Rightarrow> bool" where
  "awaits env current key sp c p \<longleftrightarrow>
     current c \<and> ce_getPolicy env c key = Inr p \<and> cp_Spec p = sp \<and> om_DeletionTimestamp (cp_Meta p) = None
     \<and> (\<exists>s. build_scheduler env c p = Inr s)"

definition scheduled :: "object_key \<Rightarrow> ChecklistPolicySpec \<Rightarrow> operator \<Rightarrow> bool" where
  "scheduled key sp op \<longleftrightarrow>
     (case getScheduler (object_name key) op of
        None \<Rightarrow> False | Some i \<Rightarrow> i < length (op_heap op) \<and> so_started (op_heap op ! i) \<and> cp_Spec (so_policy (op_heap op ! i)) = sp)"

lemma awaits_seen:
  assumes "awaits env current key sp c p" "current c'" "seen env key c c' q"
    and "cp_Spec q = sp" "om_DeletionTimestamp (cp_Meta q) = None" "cp_Namespace q = cp_Namespace p"
  obtains p' where "awaits env current key sp c' p'" "pending p' = pending q"
proof -
  obtain p' where p': "ce_getPolicy env c' key = Inr p'" "same_object p' q" and s: "ce_getSecret env c' = ce_getSecret env c"
    using assms(3) by (auto simp: seen_def)
  have "\<exists>s. build_scheduler env c' p' = Inr s"
    using assms(1) p'(2) by (intro build_scheduler_cong [OF _ s, of p]) (auto simp: awaits_def same_object_def assms(4,6))
  then show ?thesis using p' assms(2,4,5) by (intro that [of p']) (auto simp: awaits_def same_object_def pending_def)
qed

lemma status_only: "\<exists>st. set_two env a b reason msg p = p\<lparr>cp_Status := st\<rparr>" "\<exists>st. running_conditions env p = p\<lparr>cp_Status := st\<rparr>"
proof -
  show two: "\<exists>st. set_two env a b reason msg p = p\<lparr>cp_Status := st\<rparr>" for a b reason msg
    unfolding set_two_def Let_def by blast
  show "\<exists>st. running_conditions env p = p\<lparr>cp_Status := st\<rparr>"
    unfolding running_conditions_def by (simp add: two split: option.split)
qed

lemma reconcile_schedule_cluster: "\<exists>st. fst (fst (reconcile_schedule env p w)) = fst (ce_updateStatus env (p\<lparr>cp_Status := st\<rparr>) (fst w))"
proof (cases "snd (reconcileScheduler env (fst w) p (snd w))")
  case None
  obtain st where "running_conditions env p = p\<lparr>cp_Status := st\<rparr>" using status_only(2) by blast
  then show ?thesis using None by (intro exI [of _ st]) (simp add: reconcile_schedule_def case_prod_beta split: option.split)
next
  case (Some err)
  obtain st where "set_two env (''Degraded'', ''True'') (''Available'', ''False'') (error_reason err) (error_text err) p = p\<lparr>cp_Status := st\<rparr>"
    using status_only(1) by blast
  then show ?thesis using Some by (intro exI [of _ st]) (simp add: reconcile_schedule_def case_prod_beta Let_def)
qed

lemma Reconcile_pending:
  "awaits env current key sp c p \<Longrightarrow> pending p \<noteq> 0 \<Longrightarrow>
   fst (fst (Reconcile env key (c, op))) = fst (ce_update env (next_meta p) c)
   \<and> (rr_error (snd (Reconcile env key (c, op))) \<noteq> None \<longleftrightarrow> isl (snd (ce_update env (next_meta p) c)))"
  by (auto simp: Reconcile_def awaits_def pending_def next_meta_def update_policy_def Let_def split: if_splits prod.splits sum.splits)

text \<open>One reconciliation: a pending item is done unless there is an error; without one the policy is scheduled.\<close>

lemma Reconcile_settled_round:
  assumes "live_updates env settle current key" "awaits env current key sp c p" "pending p = 0"
  obtains p' where "awaits env current key sp (settle (fst (fst (Reconcile env key (c, op))))) p'" "pending p' = 0"
    "scheduled key sp (snd (fst (Reconcile env key (c, op))))"
proof -
  have p: "current c" "ce_getPolicy env c key = Inr p" "cp_Spec p = sp" "om_DeletionTimestamp (cp_Meta p) = None"
    using assms(2) by (simp_all add: awaits_def)
  have r: "Reconcile env key (c, op) = reconcile_schedule env p (c, op)"
    using Reconcile_settled [OF p(2)] p(4) assms(3) by (simp add: settled_pending)
  obtain st where st: "fst (fst (Reconcile env key (c, op))) = fst (ce_updateStatus env (p\<lparr>cp_Status := st\<rparr>) c)"
    using reconcile_schedule_cluster [of env p "(c, op)"] by (auto simp: r)
  have law: "(cp_Namespace p, cp_Name p) = key" "current (settle (fst (fst (Reconcile env key (c, op)))))"
    "seen env key c (settle (fst (fst (Reconcile env key (c, op))))) p"
    using assms(1) p unfolding live_updates_def st by (auto simp: case_prod_beta)
  obtain s where s: "build_scheduler env c p = Inr s" using assms(2) by (auto simp: awaits_def)
  have "policyKey p = object_name key" using law(1) by (auto simp: policyKey_def object_name_def)
  then have "scheduled key sp (snd (fst (Reconcile env key (c, op))))"
    using reconcileScheduler_built [OF s, of op] build_scheduler_simps(1,2) [OF s] p(3)
    by (simp add: r reconcile_schedule_op scheduled_def getScheduler_def)
  then show ?thesis using awaits_seen [OF assms(2) law(2,3) p(3,4) refl] assms(3) that by metis
qed

lemma Reconcile_pending_round:
  assumes "live_updates env settle current key" "awaits env current key sp c p" "pending p \<noteq> 0"
  obtains p' where "awaits env current key sp (settle (fst (fst (Reconcile env key (c, op))))) p'"
    "pending p' = pending p - 1 \<or> pending p' = pending p \<and> rr_error (snd (Reconcile env key (c, op))) \<noteq> None"
proof -
  have p: "current c" "ce_getPolicy env c key = Inr p" "cp_Spec p = sp" "om_DeletionTimestamp (cp_Meta p) = None"
    using assms(2) by (simp_all add: awaits_def)
  let ?c = "settle (fst (ce_update env (next_meta p) c))"
  note r = Reconcile_pending [OF assms(2,3), of op]
  have "current ?c \<and> (seen env key c ?c (next_meta p) \<or> isl (snd (ce_update env (next_meta p) c)) \<and> seen env key c ?c p)"
    using assms(1,3) p unfolding live_updates_def by (auto simp: case_prod_beta)
  then consider "current ?c" "seen env key c ?c (next_meta p)"
    | "current ?c" "seen env key c ?c p" "rr_error (snd (Reconcile env key (c, op))) \<noteq> None"
    using r by blast
  then show ?thesis
  proof cases
    case 1
    from awaits_seen [OF assms(2) this] obtain p' where "awaits env current key sp ?c p'" "pending p' = pending (next_meta p)"
      using p by auto
    then show ?thesis using that r next_meta_pending [OF assms(3)] by metis
  next
    case 2
    from awaits_seen [OF assms(2) this(1,2) p(3,4) refl] obtain p' where "awaits env current key sp ?c p'" "pending p' = pending p" .
    then show ?thesis using that r 2(3) by metis
  qed
qed

text \<open>A scheduled policy stays scheduled, and a policy with little pending becomes it.\<close>

definition converged :: "'c ctrl_env \<Rightarrow> ('c \<Rightarrow> bool) \<Rightarrow> object_key \<Rightarrow> ChecklistPolicySpec \<Rightarrow> 'c \<times> operator \<Rightarrow> bool" where
  "converged env current key sp w \<longleftrightarrow>
     scheduled key sp (snd w) \<and> (\<exists>p. awaits env current key sp (fst w) p \<and> settled p)"

lemma settled_rounds:
  assumes "live_updates env settle current key" "awaits env current key sp c p" "pending p = 0" "scheduled key sp op \<or> 0 < n"
  shows "converged env current key sp (fst (reconcile_rounds n env settle key (c, op)))"
  using assms(2-4)
proof (induction n arbitrary: c op p)
  case 0
  then show ?case by (auto simp: converged_def settled_pending awaits_def)
next
  case (Suc n)
  let ?w = "fst (Reconcile env key (c, op))"
  obtain p' where "awaits env current key sp (settle (fst ?w)) p'" "pending p' = 0" "scheduled key sp (snd ?w)"
    by (rule Reconcile_settled_round [OF assms(1) Suc.prems(1,2), of op])
  then show ?case using Suc.IH [of "settle (fst ?w)" p' "snd ?w"] by (simp add: Let_def)
qed

lemma pending_rounds:
  assumes "live_updates env settle current key" "awaits env current key sp c p"
    and "pending p + snd (reconcile_rounds n env settle key (c, op)) < n"
  shows "converged env current key sp (fst (reconcile_rounds n env settle key (c, op)))"
  using assms(2,3)
proof (induction n arbitrary: c op p)
  case (Suc n)
  let ?w = "fst (Reconcile env key (c, op))"
  show ?case
  proof (cases "pending p = 0")
    case True
    then show ?thesis by (intro settled_rounds [OF assms(1) Suc.prems(1)]) simp_all
  next
    case False
    obtain p' where p': "awaits env current key sp (settle (fst ?w)) p'"
      "pending p' = pending p - 1 \<or> pending p' = pending p \<and> rr_error (snd (Reconcile env key (c, op))) \<noteq> None"
      by (rule Reconcile_pending_round [OF assms(1) Suc.prems(1) False, of op])
    then have "pending p' + snd (reconcile_rounds n env settle key (settle (fst ?w), snd ?w)) < n"
      using Suc.prems(2) False by (auto simp: Let_def split: if_splits)
    then show ?thesis using Suc.IH [OF p'(1), of "snd ?w"] by (simp add: Let_def)
  qed
qed simp

text \<open>
  C7: for a policy whose scheduler can be built, three reconciliations without an error are enough,
  however many with an error come between them, and more do no harm: then the policy carries the
  finalizer and no run-now mark, and a started scheduler works on its specification.  Each
  reconciliation finds the cache caught up with the last, and nobody else changes the policy or the
  secrets meanwhile.
\<close>

theorem reconcile_converges:
  assumes "live_updates env settle current key" and "current c" and "ce_getPolicy env c key = Inr policy"
    and "om_DeletionTimestamp (cp_Meta policy) = None" and "build_scheduler env c policy = Inr s"
    and "reconcile_rounds n env settle key (c, op) = ((c', op'), errors)" and "3 + errors \<le> n"
  shows "\<exists>i policy'. ce_getPolicy env c' key = Inr policy' \<and> settled policy' \<and> cp_Spec policy' = cp_Spec policy
    \<and> getScheduler (object_name key) op' = Some i \<and> so_started (op_heap op' ! i) \<and> cp_Spec (so_policy (op_heap op' ! i)) = cp_Spec policy"
proof -
  have "awaits env current key (cp_Spec policy) c policy" using assms by (simp add: awaits_def)
  moreover have "pending policy + errors < n" using assms(7) by (simp add: pending_def)
  ultimately have "converged env current key (cp_Spec policy) (c', op')"
    using pending_rounds [OF assms(1), of "cp_Spec policy" c policy n op] assms(6) by simp
  then show ?thesis by (auto simp: converged_def scheduled_def awaits_def split: option.splits)
qed

text \<open>
  A cluster with a stored and a cached copy of the policy: an update of an outdated copy is a
  conflict, and the first updates, as many as the number says, are answered with an error.
\<close>

type_synonym cached_cluster = "ChecklistPolicyV1 \<times> ChecklistPolicyV1 \<times> nat"

definition cached_update :: "ChecklistPolicyV1 \<Rightarrow> cached_cluster \<Rightarrow> cached_cluster \<times> k8s_error option" where
  "cached_update p = (\<lambda>(st, ca, k).
     if st \<noteq> ca then ((st, ca, k), Some (Failure ''conflict''))
     else if 0 < k then ((st, ca, k - 1), Some (Failure ''timeout''))
     else ((p, ca, 0), None))"

definition cached_ctrl :: "cached_cluster ctrl_env" where
  "cached_ctrl = \<lparr>ce_getPolicy = (\<lambda>(st, ca, k) key. if key = (cp_Namespace ca, cp_Name ca) then Inr ca else Inl (NotFound [])),
     ce_update = (\<lambda>p c. case cached_update p c of (c', None) \<Rightarrow> (c', Inr p) | (c', Some e) \<Rightarrow> (c', Inl e)),
     ce_updateStatus = (\<lambda>p c. cached_update ((fst c)\<lparr>cp_Status := cp_Status p\<rparr>) c), ce_getSecret = (\<lambda>c k. Inr [(''api-key'', ''secret'')]),
     ce_cron = ce_cron demo_ctrl, ce_setCondition = put_condition, ce_clock = 7, ce_kube = ce_kube demo_ctrl, ce_web = ce_web demo_ctrl,
     ce_llm = ce_llm demo_ctrl, ce_raw = ce_raw demo_ctrl, ce_type_error = []\<rparr>"

definition caught_up :: "cached_cluster \<Rightarrow> cached_cluster" where
  "caught_up c = (case c of (st, ca, k) \<Rightarrow> (st, st, k))"

definition cache_current :: "cached_cluster \<Rightarrow> bool" where
  "cache_current c \<longleftrightarrow> fst c = fst (snd c)"

lemma cached_live_updates: "live_updates cached_ctrl caught_up cache_current key"
  by (auto simp: live_updates_def cached_ctrl_def cached_update_def caught_up_def cache_current_def seen_def same_object_def
      split: if_splits prod.splits)

lemma cached_builds:
  assumes "cp_Spec x = cp_Spec demo_policyV1" "cp_Namespace x = cp_Namespace demo_policyV1"
  shows "\<exists>s. build_scheduler cached_ctrl c x = Inr s"
proof -
  have "\<exists>s. build_scheduler cached_ctrl c demo_policyV1 = Inr s"
    by (simp add: build_scheduler_def resolveSecret_def buildAdapter_def buildDispatcher_def Start_def AddFunc_def cached_ctrl_def demo_ctrl_def
        demo_policyV1_def New_scheduler_def)
  then show ?thesis by (rule build_scheduler_cong [OF _ refl assms])
qed

lemma cached_settled_round:
  assumes "cp_Meta x = cp_Meta settled_policy" "cp_Spec x = cp_Spec demo_policyV1"
  shows "\<exists>y op1 r. Reconcile cached_ctrl (''ns'', ''p'') ((x, x, 0), op) = (((y, x, 0), op1), r) \<and> rr_error r = None
    \<and> cp_Meta y = cp_Meta settled_policy \<and> cp_Spec y = cp_Spec demo_policyV1"
proof -
  have m: "cp_Namespace x = ''ns''" "cp_Name x = ''p''" "cp_Namespace demo_policyV1 = ''ns''" "settled x"
    using assms(1) by (simp_all add: settled_policy_def with_meta_def demo_policyV1_def settled_def)
  then have read: "ce_getPolicy cached_ctrl (x, x, 0) (''ns'', ''p'') = Inr x" by (simp add: cached_ctrl_def)
  obtain s where s: "build_scheduler cached_ctrl (x, x, 0) x = Inr s" using cached_builds [of x "(x, x, 0)"] assms(2) m(1,3) by auto
  obtain st where st: "running_conditions cached_ctrl x = x\<lparr>cp_Status := st\<rparr>" using status_only(2) by blast
  have up: "ce_updateStatus cached_ctrl (x\<lparr>cp_Status := st\<rparr>) (x, x, 0) = ((x\<lparr>cp_Status := st\<rparr>, x, 0), None)"
    by (simp add: cached_ctrl_def cached_update_def)
  show ?thesis
    using Reconcile_settled [OF read m(4), of op] reconcileScheduler_built(1) [OF s, of op] assms
    by (simp add: reconcile_schedule_def case_prod_beta st up)
qed

theorem reconcile_converges_witness:
  "\<exists>c' op' i. reconcile_rounds 4 cached_ctrl caught_up (''ns'', ''p'') ((demo_policyV1, demo_policyV1, 1), init_operator) = ((c', op'), 1)
     \<and> getScheduler ''ns/p'' op' = Some i \<and> so_started (op_heap op' ! i)"
proof -
  let ?key = "(''ns'', ''p'')"
  let ?c = "(demo_policyV1, demo_policyV1, 1)"
  have p: "ce_getPolicy cached_ctrl ?c ?key = Inr demo_policyV1" "om_DeletionTimestamp (cp_Meta demo_policyV1) = None"
    by (simp_all add: cached_ctrl_def demo_policyV1_def)
  obtain s where s: "build_scheduler cached_ctrl ?c demo_policyV1 = Inr s" using cached_builds [OF refl refl, of ?c] ..
  have 1: "Reconcile cached_ctrl ?key (?c, init_operator) = (((demo_policyV1, demo_policyV1, 0), init_operator), reconciled\<lparr>rr_error := Some (Failure ''timeout'')\<rparr>)"
    by (simp add: Reconcile_def cached_ctrl_def cached_update_def update_policy_def demo_policyV1_def Let_def)
  have 2: "Reconcile cached_ctrl ?key ((demo_policyV1, demo_policyV1, 0), init_operator) = (((settled_policy, demo_policyV1, 0), init_operator), reconciled\<lparr>rr_Requeue := True\<rparr>)"
    by (simp add: Reconcile_def cached_ctrl_def cached_update_def update_policy_def demo_policyV1_def settled_policy_def with_meta_def Let_def)
  have "cp_Spec settled_policy = cp_Spec demo_policyV1" by simp
  from cached_settled_round [OF refl this, of init_operator] obtain y op1 r where
    3: "Reconcile cached_ctrl ?key ((settled_policy, settled_policy, 0), init_operator) = (((y, settled_policy, 0), op1), r)" "rr_error r = None"
    and y: "cp_Meta y = cp_Meta settled_policy" "cp_Spec y = cp_Spec demo_policyV1"
    by (elim exE conjE)
  from cached_settled_round [OF y, of op1] obtain z op2 r' where
    4: "Reconcile cached_ctrl ?key ((y, y, 0), op1) = (((z, y, 0), op2), r')" "rr_error r' = None"
    by (elim exE conjE)
  have run: "reconcile_rounds 4 cached_ctrl caught_up ?key (?c, init_operator) = (((z, z, 0), op2), 1)"
    by (simp add: eval_nat_numeral 1 [simplified] 2 3 4 caught_up_def Let_def)
  from reconcile_converges [OF cached_live_updates _ p s run] run show ?thesis by (auto simp: object_name_def cache_current_def)
qed

end
