(* ===== verification/Operator.thy ===== *)
theory Operator
  imports Convergence "HOL-Library.Sublist"
begin

text \<open>
  The operator as a whole: the controller with its schedulers, the scans they run with the Claude
  adapter and the built-in tools, and the one alert store that \<open>cmd/main.go\<close> creates for all of
  them.  A scan that has begun is carried out later, after any other events; its effects on engine
  and store are one step.  When its context has been cancelled, the language model and the tools
  answer with an error from some moment on.
\<close>

section \<open>Properties that every scheduler keeps\<close>

locale scheduler_property =
  fixes P :: "sched \<Rightarrow> bool"
  assumes new_P: "fresh s \<Longrightarrow> P s"
    and life_P: "P (s\<lparr>so_started := b\<rparr>) = P s" "P (s\<lparr>so_cancelFullScan := x\<rparr>) = P s" "P (s\<lparr>so_cancelRescan := x\<rparr>) = P s"
begin

definition all_P :: "operator \<Rightarrow> bool" where
  "all_P op \<longleftrightarrow> (\<forall>s \<in> set (op_heap op). P s)"

lemma update_P:
  assumes "\<forall>s \<in> set xs. P s" "P (xs ! i) \<Longrightarrow> P y"
  shows "\<forall>s \<in> set (xs[i := y]). P s"
  using assms set_update_cases [of _ xs i y] nth_mem [of i xs] by blast

end

sublocale scheduler_property \<subseteq> operator_invariant all_P
proof
  show "all_P init_operator" by (simp add: all_P_def init_operator_def)
  show "all_P (stopScheduler key op)" if "all_P op" for op key
  proof (cases "map_of (op_schedulers op) key")
    case (Some i)
    have "\<forall>s \<in> set ((op_heap op)[i := snd (Stop (op_heap op ! i))]). P s"
      using that by (intro update_P) (simp_all add: all_P_def Stop_def life_P)
    then show ?thesis by (simp add: all_P_def stopScheduler_def Some case_prod_beta Let_def)
  qed (simp add: stopScheduler_def that)
  show "all_P (add_scheduler s op)" if "all_P op" "fresh s" for op s
    using that new_P by (simp add: all_P_def add_scheduler_def)
  show "all_P (TriggerFullScan i op)" if "all_P op" for op i
    using that by (simp add: all_P_def TriggerFullScan_def)
  show "all_P (fire i j op)" if "all_P op" for op i j
  proof -
    have "\<forall>s \<in> set ((op_heap op)[i := (op_heap op ! i)\<lparr>so_cancelFullScan := x\<rparr>]). P s"
      "\<forall>s \<in> set ((op_heap op)[i := (op_heap op ! i)\<lparr>so_cancelRescan := x\<rparr>]). P s" for x
      using that by (intro update_P; simp add: all_P_def life_P)+
    then show ?thesis by (cases j) (simp_all add: all_P_def fire_def Let_def)
  qed
qed

definition engine_kept :: "sched \<Rightarrow> bool" where
  "engine_kept s \<longleftrightarrow> (\<exists>a. so_adapter s = claude a) \<and> engine_proper (so_engine s)"

interpretation engines: scheduler_property engine_kept
  by unfold_locales (auto simp: engine_kept_def fresh_def)

section \<open>Scans of the operator\<close>

record system =
  sy_op :: operator
  sy_store :: Store
  sy_log :: "effect list"
  sy_done :: "nat list"

definition start_system :: system where
  "start_system = \<lparr>sy_op = init_operator, sy_store = NewStore 5, sy_log = [], sy_done = []\<rparr>"

text \<open>A cancelled context: requests and tool calls fail from the moment \<open>t\<close> on.\<close>

definition cut_service :: "nat \<Rightarrow> string \<Rightarrow> ClaudeAdapter \<Rightarrow> ClaudeAdapter" where
  "cut_service t err a = a\<lparr>ca_api := \<lambda>now req. if now < t then ca_api a now req else SendError err\<rparr>"

definition cut_tools :: "nat \<Rightarrow> string \<Rightarrow> Registry \<Rightarrow> Registry" where
  "cut_tools t err reg = map (\<lambda>(n, d, f). (n, d, \<lambda>now params. if now < t then f now params else Inl err)) reg"

definition scans_with :: "sched \<Rightarrow> scan_run \<Rightarrow> nat \<Rightarrow> string \<Rightarrow> scan_input \<Rightarrow> bool" where
  "scans_with s r t err input \<longleftrightarrow>
     (\<exists>a. so_adapter s = claude a
       \<and> in_adapter input = claude (if run_cancelled r then cut_service t err a else a)
       \<and> in_registry input = (if run_cancelled r then cut_tools t err (so_registry s) else so_registry s))"

definition run_scan ::
  "((string \<times> CheckState) list \<Rightarrow> (string \<times> CheckState) list) \<Rightarrow> sched \<Rightarrow> job \<Rightarrow> scan_input \<Rightarrow> scan_world \<Rightarrow> scan_state \<Rightarrow> scan_state \<times> effect list" where
  "run_scan it s j input w st =
     (let sd = \<lparr>sd_policy = so_policy s, sd_dispatcher = so_dispatcher s\<rparr>
      in case j of FullScanJob \<Rightarrow> runFullScan sd input w st | RescanJob \<Rightarrow> runRescan it sd input w st)"

definition execute ::
  "((string \<times> CheckState) list \<Rightarrow> (string \<times> CheckState) list) \<Rightarrow> nat \<Rightarrow> scan_input \<Rightarrow> scan_world \<Rightarrow> system \<Rightarrow> system" where
  "execute it k input w sy =
     (let op = sy_op sy; r = op_runs op ! k; s = op_heap op ! run_sched r;
          (st, effs) = run_scan it s (run_job r) input w \<lparr>ss_engine = so_engine s, ss_store = sy_store sy\<rparr>
      in sy\<lparr>sy_op := op\<lparr>op_heap := (op_heap op)[run_sched r := s\<lparr>so_engine := ss_engine st\<rparr>]\<rparr>,
            sy_store := ss_store st, sy_log := sy_log sy @ effs, sy_done := k # sy_done sy\<rparr>)"

inductive sys_step :: "'c \<times> system \<Rightarrow> 'c \<times> system \<Rightarrow> bool" where
  event: "op_step (c, sy_op sy) (c', op') \<Longrightarrow> sys_step (c, sy) (c', sy\<lparr>sy_op := op'\<rparr>)"
| executes: "k < length (op_runs (sy_op sy)) \<Longrightarrow> k \<notin> set (sy_done sy) \<Longrightarrow>
    run_sched (op_runs (sy_op sy) ! k) < length (op_heap (sy_op sy)) \<Longrightarrow>
    scans_with (op_heap (sy_op sy) ! run_sched (op_runs (sy_op sy) ! k)) (op_runs (sy_op sy) ! k) t err input \<Longrightarrow>
    (\<And>m. mset (it m) = mset m) \<Longrightarrow>
    sys_step (c, sy) (c, execute it k input w sy)"

section \<open>What a scan leaves behind\<close>

text \<open>A result that reports checks of a policy, in their order, with proper verdicts and their summary.\<close>

definition result_ok :: "ChecklistPolicyV1 \<Rightarrow> ChecklistResultV1 \<Rightarrow> bool" where
  "result_ok policy r \<longleftrightarrow>
     om_Namespace (cr_Meta r) = cp_Namespace policy \<and> rs_PolicyRef (cr_Spec r) = cp_Name policy
     \<and> subseq (map cres_ID (rs_Checks (cr_Spec r))) (map ci_ID (ps_Checks (cp_Spec policy)))
     \<and> results_proper (rs_Checks (cr_Spec r)) \<and> rs_Summary (cr_Spec r) = Some (computeSummary (rs_Checks (cr_Spec r)))"

lemma summarize_cong:
  "length xs = length ys \<Longrightarrow> map cres_Verdict xs = map cres_Verdict ys \<Longrightarrow> summarize xs s = summarize ys s"
  by (induction xs ys arbitrary: s rule: list_induct2) simp_all

lemma computeSummary_cong:
  assumes "map cres_Verdict xs = map cres_Verdict ys"
  shows "computeSummary xs = computeSummary ys"
  using summarize_cong [OF map_eq_imp_length_eq [OF assms] assms] map_eq_imp_length_eq [OF assms]
  by (simp add: computeSummary_def)

lemma processed_ok:
  assumes "engine_proper (ss_engine st)" "in_adapter input = claude a"
    and "subseq (map ci_ID cks) (map ci_ID (ps_Checks (cp_Spec (sd_policy s))))"
  shows "result_ok (sd_policy s) (result_of w (sd_policy s) (fst (snd (processed s input w ty cks st))))"
    and "engine_proper (fst (RunChecks input (sd_policy s) cks (ss_engine st)))"
proof -
  let ?spec = "fst (snd (processed s input w ty cks st))"
  let ?rs = "run_results input (sd_policy s) cks (ss_engine st)"
  have p: "results_proper ?rs" and "engine_proper (fst (RunChecks input (sd_policy s) cks (ss_engine st)))"
    using claude.scan_results [OF assms(2,1) RunChecks_split] by (simp_all add: result_spec_def)
  then show "engine_proper (fst (RunChecks input (sd_policy s) cks (ss_engine st)))" by simp
  have v: "map cres_Verdict (rs_Checks ?spec) = map cres_Verdict ?rs"
    by (simp add: processed_def processResults_same result_spec_def)
  have "\<forall>x \<in> set (map cres_Verdict (rs_Checks ?spec)). proper x" unfolding v using p by (simp add: list_all_iff)
  then have "results_proper (rs_Checks ?spec)" by (simp add: list_all_iff)
  moreover have "rs_Summary ?spec = Some (computeSummary (rs_Checks ?spec))"
    using computeSummary_cong [OF v] by (simp add: processed_def processResults_same result_spec_def)
  moreover have "rs_PolicyRef ?spec = cp_Name (sd_policy s)"
    by (simp add: processed_def processResults_def result_spec_def case_prod_beta Let_def)
  ultimately show "result_ok (sd_policy s) (result_of w (sd_policy s) ?spec)"
    using assms(3) by (simp add: result_ok_def processed_ids)
qed

lemma status_created [simp]: "created (fst (updatePolicyStatus w p spec)) = []"
  by (simp add: updatePolicyStatus_def Let_def split: sum.split option.split)

lemma rescan_subseq: "subseq (map ci_ID (checks_to_rescan ids cs)) (map ci_ID cs)"
  unfolding checks_to_rescan_def by (intro subseq_map subseq_filter_left)

lemma run_scan_ok:
  assumes "engine_proper (ss_engine st)" "in_adapter input = claude a"
  shows "\<forall>r \<in> set (created (snd (run_scan it s j input w st))). result_ok (so_policy s) r"
    and "engine_proper (ss_engine (fst (run_scan it s j input w st)))"
proof -
  let ?sd = "\<lparr>sd_policy = so_policy s, sd_dispatcher = so_dispatcher s\<rparr>"
  let ?failed = "FailedChecks it (ss_store st) (cp_Name (so_policy s))"
  note full = processed_ok [OF assms, where s = ?sd and cks = "ps_Checks (cp_Spec (so_policy s))", simplified]
  note part = processed_ok [OF assms, where s = ?sd and cks = "checks_to_rescan ?failed (ps_Checks (cp_Spec (so_policy s)))",
      simplified, OF rescan_subseq]
  show "\<forall>r \<in> set (created (snd (run_scan it s j input w st))). result_ok (so_policy s) r"
    using full(1) part(1)
    by (cases j; cases "?failed = []") (simp_all add: run_scan_def runFullScan_eq runRescan_eq createResult_eq Let_def)
  show "engine_proper (ss_engine (fst (run_scan it s j input w st)))"
    using full(2) part(2) assms(1)
    by (cases j; cases "?failed = []") (simp_all add: run_scan_def runFullScan_eq runRescan_eq Let_def)
qed

section \<open>Every result and every alert\<close>

text \<open>Schedulers are never forgotten: the list of the policies they work for only grows.\<close>

definition policies :: "operator \<Rightarrow> ChecklistPolicyV1 list" where
  "policies op = map so_policy (op_heap op)"

lemma policies_update: "so_policy y = so_policy (xs ! i) \<Longrightarrow> map so_policy (xs[i := y]) = map so_policy xs"
  by (cases "i < length xs") (simp_all add: map_update list_update_same_conv list_update_beyond)

lemma policies_simps [simp]:
  "policies (stopScheduler key op) = policies op" "policies (fire i j op) = policies op" "policies (TriggerFullScan i op) = policies op"
  by (simp_all add: policies_def stopScheduler_def fire_def TriggerFullScan_def policies_update case_prod_beta Let_def
      split: option.split job.split)

lemma policies_reconcile: "set (policies op) \<subseteq> set (policies (snd (fst (Reconcile env key (c, op)))))"
proof -
  have "policies (add_scheduler s op1) = policies op1 @ [so_policy s]" for s op1
    by (simp add: policies_def add_scheduler_def)
  then have "set (policies op) \<subseteq> set (policies (fst (reconcileScheduler env c p op)))" for p
    by (auto simp: reconcileScheduler_cases split: sum.split)
  then show ?thesis
    by (simp add: Reconcile_def Let_def reconcile_schedule_op split: sum.split k8s_error.split option.split)
qed

lemma policies_step: "op_step w w' \<Longrightarrow> set (policies (snd w)) \<subseteq> set (policies (snd w'))"
proof (induction rule: op_step.induct)
  case (reconcile w env key)
  then show ?case using policies_reconcile [of "snd w" env key "fst w"] by simp
qed simp_all

definition sys_ok :: "system \<Rightarrow> bool" where
  "sys_ok sy \<longleftrightarrow>
     engines.all_P (sy_op sy)
     \<and> (\<forall>r \<in> set (created (sy_log sy)). \<exists>p \<in> set (policies (sy_op sy)). result_ok p r)
     \<and> (\<exists>xs. sy_store sy = store_after xs (NewStore 5))"

lemma store_after_append: "store_after (xs @ ys) s = store_after ys (store_after xs s)"
  by (induction xs arbitrary: s) simp_all

lemma processed_store:
  assumes "ss_store st = store_after xs (NewStore n)"
  shows "\<exists>x. fst (processed s input w ty cks st) = store_after (xs @ [x]) (NewStore n) \<and> dn_policy x = sd_policy s
    \<and> dn_spec x = (result_spec (sd_policy s) (in_startedAt input) (in_completedAt input) (run_results input (sd_policy s) cks (ss_engine st)))\<lparr>rs_ScanType := ty\<rparr>"
  by (intro exI [of _ "\<lparr>dn_dispatcher = sd_dispatcher s, dn_policy = sd_policy s, dn_clock = sw_clock w,
        dn_spec = (result_spec (sd_policy s) (in_startedAt input) (in_completedAt input)
          (run_results input (sd_policy s) cks (ss_engine st)))\<lparr>rs_ScanType := ty\<rparr>\<rparr>"])
    (simp add: store_after_append processed_def assms)

lemma run_scan_store:
  assumes "ss_store st = store_after xs (NewStore n)"
  shows "\<exists>ys. ss_store (fst (run_scan it s j input w st)) = store_after ys (NewStore n)"
  using processed_store [OF assms, of "\<lparr>sd_policy = so_policy s, sd_dispatcher = so_dispatcher s\<rparr>" input w] assms
  by (cases j; cases "FailedChecks it (ss_store st) (cp_Name (so_policy s)) = []")
    (auto simp: run_scan_def runFullScan_eq runRescan_eq Let_def)

lemma execute_ok:
  assumes "sys_ok sy" and i: "run_sched (op_runs (sy_op sy) ! k) < length (op_heap (sy_op sy))"
    and "scans_with (op_heap (sy_op sy) ! run_sched (op_runs (sy_op sy) ! k)) (op_runs (sy_op sy) ! k) t err input"
  shows "sys_ok (execute it k input w sy)"
proof -
  let ?r = "op_runs (sy_op sy) ! k" and ?i = "run_sched (op_runs (sy_op sy) ! k)"
  let ?s = "op_heap (sy_op sy) ! ?i"
  let ?res = "run_scan it ?s (run_job ?r) input w \<lparr>ss_engine = so_engine ?s, ss_store = sy_store sy\<rparr>"
  let ?op = "(sy_op sy)\<lparr>op_heap := (op_heap (sy_op sy))[?i := ?s\<lparr>so_engine := ss_engine (fst ?res)\<rparr>]\<rparr>"
  have ex: "execute it k input w sy = sy\<lparr>sy_op := ?op, sy_store := ss_store (fst ?res), sy_log := sy_log sy @ snd ?res, sy_done := k # sy_done sy\<rparr>"
    by (simp add: execute_def case_prod_beta Let_def)
  have kept: "engine_kept ?s" using assms(1) i by (simp add: sys_ok_def engines.all_P_def)
  obtain a where a: "in_adapter input = claude a" using assms(3) by (auto simp: scans_with_def)
  have scan: "\<forall>r \<in> set (created (snd ?res)). result_ok (so_policy ?s) r" "engine_proper (ss_engine (fst ?res))"
    using run_scan_ok [OF _ a, of "\<lparr>ss_engine = so_engine ?s, ss_store = sy_store sy\<rparr>"] kept by (simp_all add: engine_kept_def)
  have "engine_kept (?s\<lparr>so_engine := ss_engine (fst ?res)\<rparr>)" using scan(2) kept by (simp add: engine_kept_def)
  then have "engines.all_P ?op"
    using assms(1) engines.update_P [of "op_heap (sy_op sy)"] by (simp add: sys_ok_def engines.all_P_def)
  moreover have "policies ?op = policies (sy_op sy)" by (simp add: policies_def policies_update)
  moreover have "so_policy ?s \<in> set (policies (sy_op sy))" using i by (simp add: policies_def)
  moreover obtain xs where "sy_store sy = store_after xs (NewStore 5)" using assms(1) by (auto simp: sys_ok_def)
  then have "\<exists>ys. ss_store (fst ?res) = store_after ys (NewStore 5)"
    using run_scan_store [of "\<lparr>ss_engine = so_engine ?s, ss_store = sy_store sy\<rparr>" xs 5] by simp
  ultimately show ?thesis
    using assms(1) scan(1) unfolding ex sys_ok_def by (simp add: ball_Un) blast
qed

lemma sys_step_ok: "sys_step w w' \<Longrightarrow> sys_ok (snd w) \<Longrightarrow> sys_ok (snd w')"
proof (induction rule: sys_step.induct)
  case (event c sy c' op')
  then have "engines.all_P op'" using engines.step_I [OF event(1)] by (simp add: sys_ok_def)
  moreover have "set (policies (sy_op sy)) \<subseteq> set (policies op')" using policies_step [OF event(1)] by simp
  ultimately show ?case using event(2) by (simp add: sys_ok_def) blast
next
  case (executes k sy t err input it c w)
  then show ?case using execute_ok by simp
qed

lemma reachable_sys_ok: "sys_step\<^sup>*\<^sup>* (c, start_system) w \<Longrightarrow> sys_ok (snd w)"
proof (induction rule: rtranclp_induct)
  case base
  have "\<exists>xs. NewStore 5 = store_after xs (NewStore 5)" by (rule exI [of _ "[]"]) simp
  then show ?case by (simp add: sys_ok_def start_system_def engines.init)
qed (rule sys_step_ok)

text \<open>
  C8: whatever happens to policies, secrets and cluster, whatever the language model answers and
  whenever scans are cancelled: every result the operator writes reports checks of a policy that
  was scheduled, in their order and in its namespace, each with one of the three verdicts, and with
  the summary of these verdicts.
\<close>

theorem operator_results_proper:
  assumes "sys_step\<^sup>*\<^sup>* (c0, start_system) (c, sy)" and "r \<in> set (created (sy_log sy))"
  shows "\<exists>s \<in> set (op_heap (sy_op sy)).
    om_Namespace (cr_Meta r) = cp_Namespace (so_policy s) \<and> rs_PolicyRef (cr_Spec r) = cp_Name (so_policy s)
    \<and> subseq (map cres_ID (rs_Checks (cr_Spec r))) (map ci_ID (ps_Checks (cp_Spec (so_policy s))))
    \<and> list_all (\<lambda>x. cres_Verdict x \<in> {''PASS'', ''WARN'', ''FAIL''}) (rs_Checks (cr_Spec r))
    \<and> rs_Summary (cr_Spec r) = Some (computeSummary (rs_Checks (cr_Spec r)))"
proof -
  obtain s where "s \<in> set (op_heap (sy_op sy))" "result_ok (so_policy s) r"
    using reachable_sys_ok [OF assms(1)] assms(2) by (auto simp: sys_ok_def policies_def)
  then show ?thesis
    unfolding result_ok_def list_all_iff proper_def VerdictPass_def VerdictWarn_def VerdictFail_def by (intro bexI [of _ s]) simp_all
qed

section \<open>Cancelled scans\<close>

lemma cut_conversation:
  "conversation (Suc n) (cut_service 0 err a) now req pre ex fin calls = Return (Inl (pre @ ''sending request: '' @ err))"
  by (simp add: callAPI_def cut_service_def)

lemma cut_silent: "silent (claude (cut_service 0 err a))"
  by (simp add: silent_def claude_def claude_Verify_def claude_BatchVerify_def cut_conversation [of 9, simplified])

lemma recorded_failures:
  assumes "list_all (\<lambda>r. cres_Verdict r = VerdictFail) rs" "c \<in> cres_ID ` set rs"
  shows "of_key (p, c) (recorded p clock i rs) \<noteq> [] \<and> list_all is_Failed (of_key (p, c) (recorded p clock i rs))"
proof -
  have "list_all is_Failed (of_key (p, c) (recorded p clock i rs))
      \<and> (c \<in> cres_ID ` set rs \<longrightarrow> of_key (p, c) (recorded p clock i rs) \<noteq> [])"
    using assms(1) by (induction rs arbitrary: i) auto
  then show ?thesis using assms(2) by blast
qed

lemma failing_after_failures:
  assumes "list_all (\<lambda>r. cres_Verdict r = VerdictFail) (rs_Checks (dn_spec x))" "c \<in> cres_ID ` set (rs_Checks (dn_spec x))"
  shows "failing_now (xs @ [x]) (cp_Name (dn_policy x)) c"
proof -
  let ?new = "of_key (cp_Name (dn_policy x), c) (recorded (cp_Name (dn_policy x)) (dn_clock x) 0 (rs_Checks (dn_spec x)))"
  have n: "?new \<noteq> []" "list_all is_Failed ?new" using recorded_failures [OF assms] by blast+
  have "of_key (cp_Name (dn_policy x), c) (history_of (xs @ [x])) = of_key (cp_Name (dn_policy x), c) (history_of xs) @ ?new"
    by (simp add: history_of_def)
  then show ?thesis using n by (simp add: failing_now_def list_all_iff)
qed

lemma silent_results:
  assumes "silent (in_adapter input)"
  shows "list_all (\<lambda>r. cres_Verdict r = VerdictFail) (run_results input policy cks New)"
    and "cres_ID ` set (run_results input policy cks New) = ci_ID ` set cks"
proof -
  have "reusable New (policyKey policy) h cks = None" for h by (simp add: reusable_def New_def)
  then have "run_results input policy cks New = snd (fresh_scan input policy cks)" by (simp add: run_results_def)
  moreover have "list_all (\<lambda>r. cres_Verdict r = VerdictFail) (snd (fresh_scan input policy cks))"
    unfolding fresh_scan_def by (rule batches_silent) (simp_all add: scan_cx_def assms)
  ultimately show "list_all (\<lambda>r. cres_Verdict r = VerdictFail) (run_results input policy cks New)" by simp
  from arg_cong [OF run_results_checks, of "\<lambda>xs. fst ` set xs"]
  show "cres_ID ` set (run_results input policy cks New) = ci_ID ` set cks"
    by (simp add: image_image check_of_def item_of_def)
qed

text \<open>
  C10: when the first full scan of a scheduler is cancelled before the language model has answered,
  because its policy was edited, deleted or only reconciled again, all checks of the policy are
  recorded as failed: each of them is then among the failing checks of the shared store, which the
  next scheduler of the policy rescans and reports on.
\<close>

theorem cancelled_scan_fails_all:
  assumes "sys_step\<^sup>*\<^sup>* (c0, start_system) (c, sy)"
    and "r = op_runs (sy_op sy) ! k" and "s = op_heap (sy_op sy) ! run_sched r"
    and "run_job r = FullScanJob" and "run_cancelled r" and "so_engine s = New" and "scans_with s r 0 err input"
    and "\<And>m. mset (it m) = mset m"
  shows "ci_ID ` set (ps_Checks (cp_Spec (so_policy s))) \<subseteq> set (FailedChecks it (sy_store (execute it' k input w sy)) (cp_Name (so_policy s)))"
proof
  fix i assume i: "i \<in> ci_ID ` set (ps_Checks (cp_Spec (so_policy s)))"
  obtain xs where xs: "sy_store sy = store_after xs (NewStore 5)" using reachable_sys_ok [OF assms(1)] by (auto simp: sys_ok_def)
  have silent: "silent (in_adapter input)" using assms(5,7) cut_silent by (auto simp: scans_with_def)
  let ?sd = "\<lparr>sd_policy = so_policy s, sd_dispatcher = so_dispatcher s\<rparr>" and ?st = "\<lparr>ss_engine = so_engine s, ss_store = sy_store sy\<rparr>"
  let ?cks = "ps_Checks (cp_Spec (so_policy s))"
  obtain x where x: "fst (processed ?sd input w ScanTypeFull ?cks ?st) = store_after (xs @ [x]) (NewStore 5)" "dn_policy x = so_policy s"
      "rs_Checks (dn_spec x) = run_results input (so_policy s) ?cks New"
    using processed_store [of ?st xs 5 ?sd input w ScanTypeFull ?cks] xs by (auto simp: assms(6) result_spec_def)
  have "failing_now (xs @ [x]) (cp_Name (so_policy s)) i"
    using failing_after_failures [of x i xs] silent_results [OF silent, of "so_policy s" ?cks] i by (simp add: x)
  then have "i \<in> set (FailedChecks it (store_after (xs @ [x]) (NewStore 5)) (cp_Name (so_policy s)))"
    using FailedChecks_after [OF assms(8)] by simp
  moreover have "sy_store (execute it' k input w sy) = store_after (xs @ [x]) (NewStore 5)"
    using assms(4) by (simp add: execute_def run_scan_def runFullScan_eq assms(2,3) [symmetric] x(1) case_prod_beta Let_def)
  ultimately show "i \<in> set (FailedChecks it (sy_store (execute it' k input w sy)) (cp_Name (so_policy s)))" by simp
qed

section \<open>A concrete run\<close>

text \<open>The policy is scheduled, its full scan begins and the policy is reconciled once more.\<close>

definition demo_start :: operator where
  "demo_start = fire 0 FullScanJob (snd (fst (Reconcile demo_ctrl (''ns'', ''p'') (settled_policy, init_operator))))"

definition demo_again :: operator where
  "demo_again = snd (fst (Reconcile demo_ctrl (''ns'', ''p'') (settled_policy, demo_start)))"

definition on_start :: "operator \<Rightarrow> system" where
  "on_start op = start_system\<lparr>sy_op := op\<rparr>"

definition demo_input :: "sched \<Rightarrow> scan_input" where
  "demo_input s = (demo_env (so_adapter s))\<lparr>in_registry := so_registry s\<rparr>"

lemma demo_built:
  obtains s a where "build_scheduler demo_ctrl settled_policy settled_policy = Inr s" "so_adapter s = claude a" "so_engine s = New"
    "so_started s" "so_policy s = settled_policy" "FullScanJob \<in> snd ` set (so_cron s)"
proof -
  obtain s where s: "build_scheduler demo_ctrl settled_policy settled_policy = Inr s" using demo_builds by blast
  have "so_cron s = [(''0 * * * *'', FullScanJob)]"
    using build_scheduler_started [OF s]
    by (auto simp: Start_def AddFunc_def New_scheduler_def demo_policyV1_def demo_ctrl_def split: if_splits)
  then show ?thesis
    using that [OF s] build_scheduler_fresh [OF s] build_scheduler_simps(2) [OF s] by (auto simp: fresh_def)
qed

lemma demo_scheduled:
  assumes "build_scheduler demo_ctrl settled_policy settled_policy = Inr s"
  shows "snd (fst (Reconcile demo_ctrl (''ns'', ''p'') (settled_policy, op))) = add_scheduler s (stopScheduler ''ns/p'' op)"
  by (simp add: Reconcile_settled reconcile_schedule_op reconcileScheduler_cases assms)

lemma demo_states:
  assumes s: "build_scheduler demo_ctrl settled_policy settled_policy = Inr s" "so_policy s = settled_policy"
  shows "demo_start = \<lparr>op_heap = [s\<lparr>so_cancelFullScan := Some 0\<rparr>], op_schedulers = [(''ns/p'', 0)],
      op_runs = [\<lparr>run_sched = 0, run_job = FullScanJob, run_cancelled = False\<rparr>]\<rparr>"
    and "op_heap demo_again = [s\<lparr>so_cancelFullScan := Some 0, so_started := False\<rparr>, s]"
    and "op_runs demo_again = [\<lparr>run_sched = 0, run_job = FullScanJob, run_cancelled = True\<rparr>]"
proof -
  have o1: "snd (fst (Reconcile demo_ctrl (''ns'', ''p'') (settled_policy, init_operator)))
      = \<lparr>op_heap = [s], op_schedulers = [(''ns/p'', 0)], op_runs = []\<rparr>"
    by (simp add: demo_scheduled [OF s(1)] add_scheduler_def stopScheduler_def init_operator_def s(2))
  show st: "demo_start = \<lparr>op_heap = [s\<lparr>so_cancelFullScan := Some 0\<rparr>], op_schedulers = [(''ns/p'', 0)],
      op_runs = [\<lparr>run_sched = 0, run_job = FullScanJob, run_cancelled = False\<rparr>]\<rparr>"
    unfolding demo_start_def o1 by (simp add: fire_def Let_def)
  have c: "so_cancelRescan s = None"
    using build_scheduler_fresh [OF s(1)] by (auto simp: fresh_def Stop_def opt_list_def split: option.splits)
  show "op_heap demo_again = [s\<lparr>so_cancelFullScan := Some 0, so_started := False\<rparr>, s]"
    "op_runs demo_again = [\<lparr>run_sched = 0, run_job = FullScanJob, run_cancelled = True\<rparr>]"
    by (simp_all add: demo_again_def demo_scheduled [OF s(1)] st stopScheduler_def add_scheduler_def Stop_def opt_list_def c cancel_run_def)
qed

lemma demo_reach:
  "sys_step\<^sup>*\<^sup>* (settled_policy, start_system) (settled_policy, on_start demo_start)"
  "sys_step\<^sup>*\<^sup>* (settled_policy, start_system) (settled_policy, on_start demo_again)"
proof -
  obtain s where s: "build_scheduler demo_ctrl settled_policy settled_policy = Inr s" "so_started s" "so_policy s = settled_policy"
    "FullScanJob \<in> snd ` set (so_cron s)"
    using demo_built by metis
  let ?op = "snd (fst (Reconcile demo_ctrl (''ns'', ''p'') (settled_policy, init_operator)))"
  have ev: "sys_step (c, on_start op) (c', on_start op')" if "op_step (c, op) (c', op')" for c c' op op'
    using sys_step.event [of c "on_start op" c' op'] that by (simp add: on_start_def)
  have rec: "sys_step\<^sup>*\<^sup>* (settled_policy, on_start op)
      (settled_policy, on_start (snd (fst (Reconcile demo_ctrl (''ns'', ''p'') (settled_policy, op)))))" for op
  proof -
    let ?w = "fst (Reconcile demo_ctrl (''ns'', ''p'') (settled_policy, op))"
    have "op_step (settled_policy, op) (fst ?w, snd ?w)" using op_step.reconcile [of "(settled_policy, op)"] by simp
    moreover have "op_step (fst ?w, snd ?w) (settled_policy, snd ?w)" by (rule op_step.others)
    ultimately show ?thesis by (meson ev rtranclp.rtrancl_into_rtrancl rtranclp.rtrancl_refl)
  qed
  have "?op = \<lparr>op_heap = [s], op_schedulers = [(''ns/p'', 0)], op_runs = []\<rparr>"
    by (simp add: demo_scheduled [OF s(1)] add_scheduler_def stopScheduler_def init_operator_def s(3))
  then have "op_step (settled_policy, ?op) (settled_policy, demo_start)"
    unfolding demo_start_def using s(2,4) by (intro op_step.fires) simp_all
  from ev [OF this] have "sys_step\<^sup>*\<^sup>* (settled_policy, on_start init_operator) (settled_policy, on_start demo_start)"
    by (rule rtranclp.rtrancl_into_rtrancl [OF rec])
  then show start: "sys_step\<^sup>*\<^sup>* (settled_policy, start_system) (settled_policy, on_start demo_start)"
    by (simp add: on_start_def start_system_def)
  show "sys_step\<^sup>*\<^sup>* (settled_policy, start_system) (settled_policy, on_start demo_again)"
    unfolding demo_again_def using start rec [of demo_start] by (rule rtranclp_trans)
qed

lemma demo_executed:
  obtains sy r where "sys_step\<^sup>*\<^sup>* (settled_policy, start_system) (settled_policy, sy)" "r \<in> set (created (sy_log sy))"
    "rs_PolicyRef (cr_Spec r) = ''p''" "length (rs_Checks (cr_Spec r)) = 2"
    "\<exists>s input ty cks st. r = result_of demo_world settled_policy (fst (snd (processed s input demo_world ty cks st)))
       \<and> ss_store st = NewStore 5 \<and> in_startedAt input = 1 \<and> in_completedAt input = 2"
proof -
  obtain s a where s: "build_scheduler demo_ctrl settled_policy settled_policy = Inr s" "so_adapter s = claude a" "so_policy s = settled_policy"
    using demo_built by metis
  note st = demo_states(1) [OF s(1,3)]
  let ?sd = "\<lparr>sd_policy = settled_policy, sd_dispatcher = so_dispatcher s\<rparr>"
  let ?st = "\<lparr>ss_engine = so_engine s, ss_store = NewStore 5\<rparr>"
  let ?r = "result_of demo_world settled_policy
    (fst (snd (processed ?sd (demo_input s) demo_world ScanTypeFull [demo_check ''a'', demo_check ''b''] ?st)))"
  let ?sy = "execute id 0 (demo_input s) demo_world (on_start demo_start)"
  have "sys_step (settled_policy, on_start demo_start) (settled_policy, ?sy)"
    by (rule sys_step.executes [of _ _ 0 "[]"]) (auto simp: on_start_def start_system_def st scans_with_def s(2) demo_input_def demo_env_def)
  with demo_reach(1) have reach: "sys_step\<^sup>*\<^sup>* (settled_policy, start_system) (settled_policy, ?sy)" by (rule rtranclp.rtrancl_into_rtrancl)
  have log: "created (sy_log ?sy) = [?r]"
    by (simp add: execute_def on_start_def start_system_def st run_scan_def runFullScan_eq createResult_eq s(3) Let_def)
  then have r: "?r \<in> set (created (sy_log ?sy))" by simp
  have n: "length (rs_Checks (cr_Spec ?r)) = 2"
    using arg_cong [OF processed_ids, of length ?sd "demo_input s" demo_world ScanTypeFull "[demo_check ''a'', demo_check ''b'']" ?st] by simp
  have p: "rs_PolicyRef (cr_Spec ?r) = ''p''"
    by (simp add: processed_def processResults_def result_spec_def case_prod_beta Let_def settled_policy_def with_meta_def)
  have "in_startedAt (demo_input s) = 1" "in_completedAt (demo_input s) = 2" by (simp_all add: demo_input_def demo_env_def)
  then have "\<exists>s input ty cks st. ?r = result_of demo_world settled_policy (fst (snd (processed s input demo_world ty cks st)))
       \<and> ss_store st = NewStore 5 \<and> in_startedAt input = 1 \<and> in_completedAt input = 2"
    by (intro exI [of _ ?sd] exI [of _ "demo_input s"] exI [of _ ScanTypeFull] exI [of _ "[demo_check ''a'', demo_check ''b'']"] exI [of _ ?st]) simp
  then show thesis by (rule that [OF reach r p n])
qed

theorem operator_results_proper_witness:
  "\<exists>(sy :: system) r. r \<in> set (created (sy_log sy)) \<and> rs_PolicyRef (cr_Spec r) = ''p'' \<and> length (rs_Checks (cr_Spec r)) = 2
     \<and> list_all (\<lambda>x. cres_Verdict x \<in> {''PASS'', ''WARN'', ''FAIL''}) (rs_Checks (cr_Spec r))"
proof -
  obtain sy r where r: "sys_step\<^sup>*\<^sup>* (settled_policy, start_system) (settled_policy, sy)" "r \<in> set (created (sy_log sy))"
    "rs_PolicyRef (cr_Spec r) = ''p''" "length (rs_Checks (cr_Spec r)) = 2"
    using demo_executed by blast
  have "list_all (\<lambda>x. cres_Verdict x \<in> {''PASS'', ''WARN'', ''FAIL''}) (rs_Checks (cr_Spec r))"
    using operator_results_proper [OF r(1,2)] by blast
  with r show ?thesis by blast
qed

theorem cancelled_scan_fails_all_witness:
  "\<exists>input. {''a'', ''b''} \<subseteq> set (FailedChecks id (sy_store (execute id 0 input demo_world (on_start demo_again))) ''p'')"
proof -
  obtain s a where s: "build_scheduler demo_ctrl settled_policy settled_policy = Inr s" "so_adapter s = claude a" "so_engine s = New"
    "so_policy s = settled_policy"
    using demo_built by metis
  note st = demo_states(2,3) [OF s(1,4)]
  let ?input = "(demo_env (claude (cut_service 0 ''context canceled'' a)))\<lparr>in_registry := cut_tools 0 ''context canceled'' (so_registry s)\<rparr>"
  let ?op = "sy_op (on_start demo_again)"
  have o: "?op = demo_again" by (simp add: on_start_def)
  have "scans_with (op_heap ?op ! run_sched (op_runs ?op ! 0)) (op_runs ?op ! 0) 0 ''context canceled'' ?input"
    by (auto simp: o st scans_with_def s(2) demo_env_def)
  from cancelled_scan_fails_all [OF demo_reach(2) refl refl _ _ _ this, of id id demo_world]
  have "{''a'', ''b''} \<subseteq> set (FailedChecks id (sy_store (execute id 0 ?input demo_world (on_start demo_again))) ''p'')"
    by (simp add: o st s(3,4)) (simp add: settled_policy_def with_meta_def)
  then show ?thesis by blast
qed

end
