(* ===== verification/Codec.thy ===== *)
theory Codec
  imports Resources GoJson
begin

text \<open>
  The JSON form of the resources, from the field tags of \<open>operator/api/v1alpha1\<close>: what the API
  server makes of the bodies it receives, and the bodies it sends.
\<close>

section \<open>Encoding\<close>

definition encode_secret :: "SecretReference \<Rightarrow> json" where
  "encode_secret s = JObj ([(''name'', JStr (sec_Name s))] @ nonempty_str ''key'' (sec_Key s))"

definition encode_llm :: "LLMConfigV1 \<Rightarrow> json" where
  "encode_llm l =
     JObj ([(''provider'', JStr (llm_Provider l))] @ nonempty_str ''model'' (llm_Model l)
           @ [(''secretRef'', encode_secret (llm_SecretRef l))])"

definition encode_check :: "CheckItemV1 \<Rightarrow> json" where
  "encode_check c =
     JObj ([(''id'', JStr (ci_ID c)), (''description'', JStr (ci_Description c))] @ nonempty_str ''severity'' (ci_Severity c))"

definition encode_schedule :: "ScheduleConfigV1 \<Rightarrow> json" where
  "encode_schedule s =
     JObj ([(''fullScan'', JStr (sch_FullScan s))] @ nonempty_str ''failedRescan'' (sch_FailedRescan s))"

definition encode_slack :: "SlackNotification \<Rightarrow> json" where
  "encode_slack s = JObj [(''channel'', JStr (sl_Channel s)), (''secretRef'', encode_secret (sl_SecretRef s))]"

definition encode_github :: "GitHubNotification \<Rightarrow> json" where
  "encode_github g =
     JObj ([(''owner'', JStr (gh_Owner g)), (''repo'', JStr (gh_Repo g))] @ nonempty_list ''labels'' JStr (gh_Labels g)
           @ [(''secretRef'', encode_secret (gh_SecretRef g))])"

definition encode_jira :: "JiraNotification \<Rightarrow> json" where
  "encode_jira j =
     JObj ([(''url'', JStr (ji_URL j)), (''project'', JStr (ji_Project j))] @ nonempty_str ''issueType'' (ji_IssueType j)
           @ [(''secretRef'', encode_secret (ji_SecretRef j))])"

definition encode_notification :: "NotificationConfig \<Rightarrow> json" where
  "encode_notification n =
     JObj (opt_field ''slack'' encode_slack (nc_Slack n) @ opt_field ''github'' encode_github (nc_GitHub n)
           @ opt_field ''jira'' encode_jira (nc_Jira n))"

text \<open>A list of checks that is nil, which no stored policy has, would be written as null.\<close>

definition encode_spec :: "ChecklistPolicySpec \<Rightarrow> json" where
  "encode_spec s =
     JObj ([(''schedule'', encode_schedule (ps_Schedule s)), (''llm'', encode_llm (ps_LLM s)),
            (''checks'', JArr (map encode_check (ps_Checks s)))]
           @ nonempty_list ''targetNamespaces'' JStr (ps_TargetNamespaces s)
           @ opt_field ''notification'' encode_notification (ps_Notification s)
           @ opt_field ''escalationThreshold'' (\<lambda>w. JNum (sint w)) (ps_EscalationThreshold s))"

section \<open>Decoding\<close>

definition decode_secret :: "json \<Rightarrow> SecretReference option" where
  "decode_secret = de_struct (\<lambda>fs. do {
     n \<leftarrow> de_string (field ''name'' fs);
     k \<leftarrow> de_string (field ''key'' fs);
     Some \<lparr>sec_Name = n, sec_Key = k\<rparr>})"

definition decode_llm :: "json \<Rightarrow> LLMConfigV1 option" where
  "decode_llm = de_struct (\<lambda>fs. do {
     p \<leftarrow> de_string (field ''provider'' fs);
     m \<leftarrow> de_string (field ''model'' fs);
     s \<leftarrow> decode_secret (field ''secretRef'' fs);
     Some \<lparr>llm_Provider = p, llm_Model = m, llm_SecretRef = s\<rparr>})"

definition decode_check :: "json \<Rightarrow> CheckItemV1 option" where
  "decode_check = de_struct (\<lambda>fs. do {
     i \<leftarrow> de_string (field ''id'' fs);
     d \<leftarrow> de_string (field ''description'' fs);
     s \<leftarrow> de_string (field ''severity'' fs);
     Some \<lparr>ci_ID = i, ci_Description = d, ci_Severity = s\<rparr>})"

definition decode_schedule :: "json \<Rightarrow> ScheduleConfigV1 option" where
  "decode_schedule = de_struct (\<lambda>fs. do {
     f \<leftarrow> de_string (field ''fullScan'' fs);
     r \<leftarrow> de_string (field ''failedRescan'' fs);
     Some \<lparr>sch_FullScan = f, sch_FailedRescan = r\<rparr>})"

definition decode_slack :: "json \<Rightarrow> SlackNotification option" where
  "decode_slack = de_struct (\<lambda>fs. do {
     c \<leftarrow> de_string (field ''channel'' fs);
     s \<leftarrow> decode_secret (field ''secretRef'' fs);
     Some \<lparr>sl_Channel = c, sl_SecretRef = s\<rparr>})"

definition decode_github :: "json \<Rightarrow> GitHubNotification option" where
  "decode_github = de_struct (\<lambda>fs. do {
     w \<leftarrow> de_string (field ''owner'' fs);
     r \<leftarrow> de_string (field ''repo'' fs);
     l \<leftarrow> de_list de_string (field ''labels'' fs);
     s \<leftarrow> decode_secret (field ''secretRef'' fs);
     Some \<lparr>gh_Owner = w, gh_Repo = r, gh_Labels = l, gh_SecretRef = s\<rparr>})"

definition decode_jira :: "json \<Rightarrow> JiraNotification option" where
  "decode_jira = de_struct (\<lambda>fs. do {
     u \<leftarrow> de_string (field ''url'' fs);
     p \<leftarrow> de_string (field ''project'' fs);
     i \<leftarrow> de_string (field ''issueType'' fs);
     s \<leftarrow> decode_secret (field ''secretRef'' fs);
     Some \<lparr>ji_URL = u, ji_Project = p, ji_IssueType = i, ji_SecretRef = s\<rparr>})"

definition decode_notification :: "json \<Rightarrow> NotificationConfig option" where
  "decode_notification = de_struct (\<lambda>fs. do {
     s \<leftarrow> de_ptr decode_slack (field ''slack'' fs);
     g \<leftarrow> de_ptr decode_github (field ''github'' fs);
     j \<leftarrow> de_ptr decode_jira (field ''jira'' fs);
     Some \<lparr>nc_Slack = s, nc_GitHub = g, nc_Jira = j\<rparr>})"

definition decode_spec :: "json \<Rightarrow> ChecklistPolicySpec option" where
  "decode_spec = de_struct (\<lambda>fs. do {
     s \<leftarrow> decode_schedule (field ''schedule'' fs);
     l \<leftarrow> decode_llm (field ''llm'' fs);
     c \<leftarrow> de_list decode_check (field ''checks'' fs);
     t \<leftarrow> de_list de_string (field ''targetNamespaces'' fs);
     n \<leftarrow> de_ptr decode_notification (field ''notification'' fs);
     e \<leftarrow> de_ptr de_int32 (field ''escalationThreshold'' fs);
     Some \<lparr>ps_Schedule = s, ps_LLM = l, ps_Checks = c, ps_TargetNamespaces = t, ps_Notification = n,
           ps_EscalationThreshold = e\<rparr>})"

section \<open>Round trips\<close>

lemmas codec_simps = field_def de_struct_def de_string_def de_ptr_def de_list_def nonempty_str_def nonempty_list_def
  ToLower_def lower_ascii_def

lemma secret_roundtrip [simp]: "decode_secret (encode_secret s) = Some s"
  by (cases s) (simp add: decode_secret_def encode_secret_def codec_simps)

lemma encode_objects [simp]:
  "encode_secret s \<noteq> JNull" "encode_llm l \<noteq> JNull" "encode_slack sl \<noteq> JNull" "encode_github g \<noteq> JNull" "encode_jira j \<noteq> JNull"
  "encode_notification n \<noteq> JNull" "encode_schedule sc \<noteq> JNull"
  by (simp_all add: encode_secret_def encode_llm_def encode_slack_def encode_github_def encode_jira_def encode_notification_def
      encode_schedule_def)

lemma llm_roundtrip [simp]: "decode_llm (encode_llm l) = Some l"
  by (cases l) (simp add: decode_llm_def encode_llm_def codec_simps)

lemma check_roundtrip [simp]: "decode_check (encode_check c) = Some c"
  by (cases c) (simp add: decode_check_def encode_check_def codec_simps)

lemma schedule_roundtrip [simp]: "decode_schedule (encode_schedule s) = Some s"
  by (cases s) (simp add: decode_schedule_def encode_schedule_def codec_simps)

lemma slack_roundtrip [simp]: "decode_slack (encode_slack s) = Some s"
  by (cases s) (simp add: decode_slack_def encode_slack_def codec_simps)

lemma strings_roundtrip [simp]: "de_all de_string (map JStr xs) = Some xs"
  by (induction xs) (simp_all add: de_string_def)

lemma checks_roundtrip [simp]: "de_all decode_check (map encode_check cs) = Some cs"
  by (induction cs) simp_all

lemma github_roundtrip [simp]: "decode_github (encode_github g) = Some g"
  by (cases g) (simp add: decode_github_def encode_github_def codec_simps)

lemma jira_roundtrip [simp]: "decode_jira (encode_jira j) = Some j"
  by (cases j) (simp add: decode_jira_def encode_jira_def codec_simps)

lemma notification_roundtrip [simp]: "decode_notification (encode_notification n) = Some n"
  by (cases n; cases "nc_Slack n"; cases "nc_GitHub n"; cases "nc_Jira n")
    (simp_all add: decode_notification_def encode_notification_def codec_simps)

lemma int32_roundtrip [simp]: "de_int32 (JNum (sint w)) = Some w"
proof -
  have "- (2 ^ 31) \<le> sint w" "sint w < 2 ^ 31" using sint_ge [of w] sint_lt [of w] by simp_all
  then show ?thesis by (simp add: de_int32_def)
qed

text \<open>
  the specification of a policy survives the way through JSON: decoding what the server
  encodes gives it back, with all optional parts.
\<close>

theorem spec_codec_roundtrip: "decode_spec (encode_spec s) = Some s"
  by (cases s; cases "ps_Notification s"; cases "ps_EscalationThreshold s"; cases "ps_TargetNamespaces s")
    (simp_all add: decode_spec_def encode_spec_def codec_simps)

end
