(* ===== verification/ResultCodec.thy ===== *)
theory ResultCodec
  imports Codec
begin

text \<open>
  The JSON form of what the operator reports: results, the status of a policy and their parts, from
  the field tags of \<open>operator/api/v1alpha1\<close>.  The types of Kubernetes write themselves: times,
  conditions and the raw input of a tool call are parameters.  A status that is zero is left out
  (\<open>omitzero\<close>); the kind and the version of an object, which nothing reads, are not written,
  nor are the conditions of a result, which nothing sets.
\<close>

record wire =
  wi_time :: "int \<Rightarrow> json"
  wi_decode_time :: "json \<Rightarrow> int option"
  wi_condition :: "ConditionV1 \<Rightarrow> json"
  wi_decode_condition :: "json \<Rightarrow> ConditionV1 option"
  wi_raw :: "string \<Rightarrow> json"

section \<open>Summaries and the status of a policy\<close>

definition encode_summary :: "ScanSummary \<Rightarrow> json" where
  "encode_summary s =
     JObj [(''total'', JNum (sint (sum_Total s))), (''pass'', JNum (sint (sum_Pass s))), (''warn'', JNum (sint (sum_Warn s))),
           (''fail'', JNum (sint (sum_Fail s)))]"

definition decode_summary :: "json \<Rightarrow> ScanSummary option" where
  "decode_summary = de_struct (\<lambda>fs. do {
     t \<leftarrow> de_int32 (field ''total'' fs);
     p \<leftarrow> de_int32 (field ''pass'' fs);
     w \<leftarrow> de_int32 (field ''warn'' fs);
     f \<leftarrow> de_int32 (field ''fail'' fs);
     Some \<lparr>sum_Total = t, sum_Pass = p, sum_Warn = w, sum_Fail = f\<rparr>})"

definition zero_status :: ChecklistPolicyStatus where
  "zero_status =
     \<lparr>pst_LastFullScanTime = None, pst_LastRescanTime = None, pst_LastResultName = [], pst_Summary = None, pst_Conditions = []\<rparr>"

definition encode_status :: "wire \<Rightarrow> ChecklistPolicyStatus \<Rightarrow> json" where
  "encode_status W s =
     JObj (opt_field ''lastFullScanTime'' (wi_time W) (pst_LastFullScanTime s)
           @ opt_field ''lastRescanTime'' (wi_time W) (pst_LastRescanTime s)
           @ nonempty_str ''lastResultName'' (pst_LastResultName s) @ opt_field ''summary'' encode_summary (pst_Summary s)
           @ nonempty_list ''conditions'' (wi_condition W) (pst_Conditions s))"

definition decode_status :: "wire \<Rightarrow> json \<Rightarrow> ChecklistPolicyStatus option" where
  "decode_status W = de_struct (\<lambda>fs. do {
     f \<leftarrow> de_ptr (wi_decode_time W) (field ''lastFullScanTime'' fs);
     r \<leftarrow> de_ptr (wi_decode_time W) (field ''lastRescanTime'' fs);
     n \<leftarrow> de_string (field ''lastResultName'' fs);
     s \<leftarrow> de_ptr decode_summary (field ''summary'' fs);
     c \<leftarrow> de_list (wi_decode_condition W) (field ''conditions'' fs);
     Some \<lparr>pst_LastFullScanTime = f, pst_LastRescanTime = r, pst_LastResultName = n, pst_Summary = s, pst_Conditions = c\<rparr>})"

definition status_field :: "wire \<Rightarrow> ChecklistPolicyStatus \<Rightarrow> fields" where
  "status_field W s = (if s = zero_status then [] else [(''status'', encode_status W s)])"

section \<open>Results\<close>

definition encode_tool_call :: "wire \<Rightarrow> ToolCallRecordV1 \<Rightarrow> json" where
  "encode_tool_call W t =
     JObj [(''toolName'', JStr (tcr_ToolName t)), (''input'', wi_raw W (tcr_Input t)), (''output'', JStr (tcr_Output t))]"

definition encode_evidence :: "wire \<Rightarrow> ToolCallRecordV1 list \<Rightarrow> json" where
  "encode_evidence W ts = JObj (nonempty_list ''toolCalls'' (encode_tool_call W) ts)"

definition encode_check_result :: "wire \<Rightarrow> CheckResultV1 \<Rightarrow> json" where
  "encode_check_result W c =
     JObj ([(''id'', JStr (cres_ID c)), (''description'', JStr (cres_Description c)), (''verdict'', JStr (cres_Verdict c)),
            (''reasoning'', JStr (cres_Reasoning c))]
           @ opt_field ''evidence'' (encode_evidence W) (cres_Evidence c) @ opt_field ''failedSince'' (wi_time W) (cres_FailedSince c)
           @ nonempty_str ''severity'' (cres_Severity c))"

definition encode_result_spec :: "wire \<Rightarrow> ChecklistResultSpec \<Rightarrow> json" where
  "encode_result_spec W s =
     JObj ([(''policyRef'', JStr (rs_PolicyRef s)), (''scanType'', JStr (rs_ScanType s)), (''startedAt'', wi_time W (rs_StartedAt s))]
           @ opt_field ''completedAt'' (wi_time W) (rs_CompletedAt s)
           @ nonempty_list ''checks'' (encode_check_result W) (rs_Checks s) @ opt_field ''summary'' encode_summary (rs_Summary s))"

definition encode_result :: "wire \<Rightarrow> (ObjectMetaV1 \<Rightarrow> json) \<Rightarrow> ChecklistResultV1 \<Rightarrow> json" where
  "encode_result W meta r =
     JObj ([(''metadata'', meta (cr_Meta r)), (''spec'', encode_result_spec W (cr_Spec r))]
           @ (if cr_Phase r = [] then [] else [(''status'', JObj [(''phase'', JStr (cr_Phase r))])]))"

section \<open>Round trips\<close>

lemma summary_roundtrip [simp]: "decode_summary (encode_summary s) = Some s"
  by (cases s) (simp add: decode_summary_def encode_summary_def codec_simps)

lemma encode_summary_object [simp]: "encode_summary s \<noteq> JNull"
  by (simp add: encode_summary_def)

text \<open>A time that is not zero is not null, and is read back; conditions are read back.\<close>

definition wire_ok :: "wire \<Rightarrow> ChecklistPolicyStatus \<Rightarrow> bool" where
  "wire_ok W s \<longleftrightarrow>
     (\<forall>t \<in> set_option (pst_LastFullScanTime s) \<union> set_option (pst_LastRescanTime s).
        wi_time W t \<noteq> JNull \<and> wi_decode_time W (wi_time W t) = Some t)
     \<and> (\<forall>c \<in> set (pst_Conditions s). wi_decode_condition W (wi_condition W c) = Some c)"

lemma conditions_roundtrip:
  "(\<And>c. c \<in> set cs \<Longrightarrow> wi_decode_condition W (wi_condition W c) = Some c) \<Longrightarrow>
   de_all (wi_decode_condition W) (map (wi_condition W) cs) = Some cs"
  using de_all_map [of cs "wi_decode_condition W" "wi_condition W" "\<lambda>c. c"] by simp

lemma status_roundtrip:
  assumes "wire_ok W s"
  shows "decode_status W (field ''status'' (status_field W s)) = Some s"
proof (cases "s = zero_status")
  case True
  then show ?thesis by (simp add: status_field_def decode_status_def zero_status_def codec_simps)
next
  case False
  have "decode_status W (encode_status W s) = Some s"
    using assms conditions_roundtrip [of "pst_Conditions s" W]
    by (cases "pst_LastFullScanTime s"; cases "pst_LastRescanTime s"; cases "pst_Summary s")
      (simp_all add: wire_ok_def decode_status_def encode_status_def codec_simps)
  then show ?thesis using False by (simp add: status_field_def field_def)
qed

end
