(* ===== verification/GoTime.thy ===== *)
theory GoTime
  imports Format
begin

text \<open>
  What the Go code uses of the package \<open>time\<close>: the calendar date of an instant and the layout
  \<open>time.RFC3339\<close> for instants in UTC, as \<open>run.go\<close> writes the run-now mark.  Instants are whole
  seconds since 1970 (\<open>Unix\<close>); a Go time of the resources is counted in nanoseconds from Go's zero
  time, the first day of the year 1.  The dates are those of the proleptic Gregorian calendar, with
  years that begin in March so that a leap day comes last.
\<close>

section \<open>Dates\<close>

definition Unix :: "int \<Rightarrow> int" where
  "Unix t = t div 1000000000 - 62135596800"

text \<open>The year within a cycle of 400 years and the day within the year, for a day of the cycle.\<close>

definition year_of_cycle :: "int \<Rightarrow> int \<times> int" where
  "year_of_cycle d =
     (let c = min 3 (d div 36524); r = d - 36524 * c;
          q = r div 1461; r' = r mod 1461;
          y = min 3 (r' div 365)
      in (100 * c + 4 * q + y, r' - 365 * y))"

definition civil_from_days :: "int \<Rightarrow> int \<times> int \<times> int" where
  "civil_from_days z =
     (let n = z + 719468;
          (y, doy) = year_of_cycle (n mod 146097);
          mp = (5 * doy + 2) div 153;
          m = (if mp < 10 then mp + 3 else mp - 9);
          d = doy - (153 * mp + 2) div 5 + 1
      in (400 * (n div 146097) + y + (if m \<le> 2 then 1 else 0), m, d))"

section \<open>The layout\<close>

definition pad :: "nat \<Rightarrow> int \<Rightarrow> string" where
  "pad w n = (let s = dec \<bar>n\<bar> in (if n < 0 then ''-'' else []) @ replicate (w - length s) CHR ''0'' @ s)"

definition rfc3339 :: "int \<Rightarrow> string" where
  "rfc3339 t =
     (let (y, m, d) = civil_from_days (t div 86400); s = t mod 86400
      in pad 4 y @ ''-'' @ pad 2 m @ ''-'' @ pad 2 d @ ''T''
         @ pad 2 (s div 3600) @ '':'' @ pad 2 (s div 60 mod 60) @ '':'' @ pad 2 (s mod 60) @ ''Z'')"

section \<open>Dates and days\<close>

lemma div_bounds: "(k :: int) * (x div k) \<le> x \<and> x < k * (x div k) + k" if "0 < k"
  using pos_mod_sign [OF that, of x] pos_mod_bound [OF that, of x] mult_div_mod_eq [of k x] by linarith

lemma cycle_parts:
  fixes d :: int
  assumes "0 \<le> d" "d < 146097"
  defines "c \<equiv> min 3 (d div 36524)"
  defines "r \<equiv> d - 36524 * c"
  defines "y \<equiv> min 3 (r mod 1461 div 365)"
  shows "0 \<le> c" "c \<le> 3" "0 \<le> r" "c < 3 \<Longrightarrow> r < 36524" "0 \<le> r div 1461" "r div 1461 \<le> 24"
    "0 \<le> y" "y \<le> 3" "0 \<le> r mod 1461 - 365 * y" "r mod 1461 - 365 * y \<le> 365" "y < 3 \<Longrightarrow> r mod 1461 - 365 * y < 365"
proof -
  have e: "36524 * (d div 36524) \<le> d" "d < 36524 * (d div 36524) + 36524" using div_bounds [of 36524 d] by simp_all
  show c: "0 \<le> c" "c \<le> 3" using assms(1) by (simp_all add: c_def pos_imp_zdiv_nonneg_iff)
  show r: "0 \<le> r" "c < 3 \<Longrightarrow> r < 36524" using e by (auto simp: r_def c_def min_def split: if_splits)
  have "r \<le> 36524" using e assms(2) by (auto simp: r_def c_def min_def split: if_splits)
  then show "0 \<le> r div 1461" "r div 1461 \<le> 24" using r(1) div_bounds [of 1461 r] by (simp_all add: pos_imp_zdiv_nonneg_iff)
  have m: "0 \<le> r mod 1461" "r mod 1461 < 1461" by simp_all
  have f: "365 * (r mod 1461 div 365) \<le> r mod 1461" "r mod 1461 < 365 * (r mod 1461 div 365) + 365"
    using div_bounds [of 365 "r mod 1461"] by simp_all
  show "0 \<le> y" "y \<le> 3" using m(1) by (simp_all add: y_def pos_imp_zdiv_nonneg_iff)
  show "0 \<le> r mod 1461 - 365 * y" "r mod 1461 - 365 * y \<le> 365" "y < 3 \<Longrightarrow> r mod 1461 - 365 * y < 365"
    using f m(2) by (auto simp: y_def min_def split: if_splits)
qed

text \<open>A year has 366 days only when the February at its end has 29.\<close>

lemma year_of_cycle_spec:
  assumes "0 \<le> d" "d < 146097" "year_of_cycle d = (y, doy)"
  shows "0 \<le> y" "y < 400" "0 \<le> doy" "doy \<le> 365" "d = 365 * y + y div 4 - y div 100 + doy"
    "doy = 365 \<Longrightarrow> (y + 1) mod 4 = 0 \<and> ((y + 1) mod 100 \<noteq> 0 \<or> (y + 1) mod 400 = 0)"
proof -
  define c where "c = min 3 (d div 36524)"
  define r where "r = d - 36524 * c"
  define q where "q = r div 1461"
  define k where "k = min 3 (r mod 1461 div 365)"
  note parts = cycle_parts [OF assms(1,2), folded c_def, folded r_def, folded q_def k_def]
  have y: "y = 100 * c + 4 * q + k" and doy: "doy = r mod 1461 - 365 * k"
    using assms(3) by (simp_all add: year_of_cycle_def Let_def c_def r_def q_def k_def)
  have r: "r = 1461 * q + r mod 1461" by (simp add: q_def)
  have div4: "y div 4 = 25 * c + q" using parts(7,8) by (simp add: y)
  have div100: "y div 100 = c" using parts(5-8) by (simp add: y)
  show "0 \<le> y" "y < 400" "0 \<le> doy" "doy \<le> 365" using parts by (simp_all add: y doy)
  show "d = 365 * y + y div 4 - y div 100 + doy"
    unfolding div4 div100 using r r_def by (simp add: y doy)
  assume full: "doy = 365"
  then have k: "k = 3" using parts(8,11) by (cases "k < 3") (auto simp: doy)
  then have r1460: "r mod 1461 = 1460" using full by (simp add: doy)
  have "c = 3" if "q = 24" using that r r1460 parts(2,4) by (cases "c < 3") auto
  then show "(y + 1) mod 4 = 0 \<and> ((y + 1) mod 100 \<noteq> 0 \<or> (y + 1) mod 400 = 0)"
    using parts(1,2,5,6) by (cases "q = 24") (auto simp: y k, presburger+)
qed

text \<open>The month and the day of a day of the year.\<close>

definition month_of :: "int \<Rightarrow> int" where
  "month_of doy = (5 * doy + 2) div 153"

lemma month_of_range:
  assumes "0 \<le> doy" "doy \<le> 365"
  shows "0 \<le> month_of doy" "month_of doy \<le> 11"
  using assms div_bounds [of 153 "5 * doy + 2"] by (auto simp: month_of_def pos_imp_zdiv_nonneg_iff)

lemma day_of_month:
  assumes "0 \<le> doy" "doy \<le> 365" "month_of doy = mp"
  defines "d \<equiv> doy - (153 * mp + 2) div 5 + 1"
  shows "1 \<le> d"
    and "d \<le> (if mp = 11 then 29 else if mp \<in> {1, 3, 6, 8} then 30 else 31)"
    and "mp = 11 \<Longrightarrow> d = 29 \<Longrightarrow> doy = 365"
proof -
  have b: "153 * mp \<le> 5 * doy + 2" "5 * doy + 2 < 153 * mp + 153"
    using div_bounds [of 153 "5 * doy + 2"] assms(3) by (simp_all add: month_of_def)
  have "mp \<in> {0, 1, 2, 3, 4, 5, 6, 7, 8, 9, 10, 11}" using month_of_range [OF assms(1,2)] assms(3) by (simp, presburger)
  then show "1 \<le> d" "d \<le> (if mp = 11 then 29 else if mp \<in> {1, 3, 6, 8} then 30 else 31)" "mp = 11 \<Longrightarrow> d = 29 \<Longrightarrow> doy = 365"
    using b assms(2) by (auto simp: d_def)
qed

lemma cycle_mods:
  "(400 * e + k) mod 4 = k mod (4 :: int)" "(400 * e + k) mod 100 = k mod (100 :: int)" "(400 * e + k) mod 400 = k mod (400 :: int)"
  using mod_mult_self2 [of k 4 "100 * e"] mod_mult_self2 [of k 100 "4 * e"] mod_mult_self2 [of k 400 e]
  by (simp_all add: add.commute mult.assoc [symmetric] del: mod_mult_self2 mod_mult_self1)

lemma cycle_divs:
  "0 \<le> k \<Longrightarrow> k < 400 \<Longrightarrow> (400 * e + k) div 4 = 100 * e + k div (4 :: int)"
  "0 \<le> k \<Longrightarrow> k < 400 \<Longrightarrow> (400 * e + k) div 100 = 4 * e + k div (100 :: int)"
  "0 \<le> k \<Longrightarrow> k < 400 \<Longrightarrow> (400 * e + k) div 400 = (e :: int)"
  using div_mult_self2 [of 4 k "100 * e"] div_mult_self2 [of 100 k "4 * e"] div_mult_self2 [of 400 k e]
  by (simp_all add: add.commute mult.assoc [symmetric] del: div_mult_self2 div_mult_self1)

lemma civil_from_days_spec:
  assumes "civil_from_days z = (y, m, d)"
  shows "1 \<le> m" "m \<le> 12" "1 \<le> d" "d \<le> month_days y m" "days_from_civil y m d = z"
proof -
  define e where "e = (z + 719468) div 146097"
  define n where "n = (z + 719468) mod 146097"
  obtain yy doy where yd: "year_of_cycle n = (yy, doy)" by (cases "year_of_cycle n")
  have "0 \<le> n" "n < 146097" by (simp_all add: n_def)
  note yr = year_of_cycle_spec [OF this yd]
  define mp where "mp = month_of doy"
  have m: "m = (if mp < 10 then mp + 3 else mp - 9)" and d: "d = doy - (153 * mp + 2) div 5 + 1"
    and y: "y = 400 * e + yy + (if m \<le> 2 then 1 else 0)"
    using assms yd by (auto simp: civil_from_days_def Let_def e_def n_def mp_def month_of_def)
  note mp = month_of_range [OF yr(3,4), folded mp_def] and day = day_of_month [OF yr(3,4) mp_def [symmetric], folded d]
  show range: "1 \<le> m" "m \<le> 12" "1 \<le> d" using mp day(1) by (auto simp: m)
  have z: "z + 719468 = 146097 * e + n" by (simp add: e_def n_def)
  have y': "(if m \<le> 2 then y - 1 else y) = 400 * e + yy" and m': "(if m \<le> 2 then m + 9 else m - 3) = mp"
    using mp by (auto simp: y m)
  show "days_from_civil y m d = z"
    unfolding days_from_civil_def Let_def y' m' cycle_divs [OF yr(1,2)] using yr(5) z d by simp
  have leap: "(y mod 4 = 0 \<and> y mod 100 \<noteq> 0) \<or> y mod 400 = 0" if "mp = 11" "d = 29"
  proof -
    have "y = 400 * e + (yy + 1)" using that(1) by (simp add: y m)
    then have "y mod 4 = (yy + 1) mod 4" "y mod 100 = (yy + 1) mod 100" "y mod 400 = (yy + 1) mod 400"
      by (simp_all only: cycle_mods)
    then show ?thesis using yr(6) day(3) that by auto
  qed
  have "m = 2 \<longleftrightarrow> mp = 11" "m \<in> {4, 6, 9, 11} \<longleftrightarrow> mp \<in> {1, 3, 6, 8}" using mp by (auto simp: m)
  then show "d \<le> month_days y m" using day(2) leap by (cases "d = 29") (auto simp: month_days_def split: if_splits)
qed

section \<open>Reading times back\<close>

lemma dec_nat_length: "n < 10 ^ Suc w \<Longrightarrow> length (dec_nat n) \<le> Suc w"
proof (induction w arbitrary: n)
  case (Suc w)
  show ?case
  proof (cases "n < 10")
    case False
    have "n div 10 < 10 ^ Suc w" using Suc.prems by (simp add: less_mult_imp_div_less)
    from Suc.IH [OF this] False show ?thesis by (simp add: dec_nat.simps [of n])
  qed (simp add: dec_nat.simps [of n])
qed (simp add: dec_nat.simps)

lemma undec_zeros: "undec_nat (replicate k CHR ''0'' @ s) = undec_nat s"
  by (induction k) (simp_all add: undec_nat_def undigit_def)

lemma pad_field:
  assumes "0 \<le> n" "n < 10 ^ Suc w"
  shows "length (pad (Suc w) n) = Suc w" "list_all is_digit (pad (Suc w) n)" "int (undec_nat (pad (Suc w) n)) = n"
proof -
  obtain k where k: "n = int k" using assms(1) nonneg_int_cases by blast
  then have "int k < int (10 ^ Suc w)" using assms(2) by simp
  then have "k < 10 ^ Suc w" by (simp only: of_nat_less_iff)
  then have "length (dec_nat k) \<le> Suc w" by (rule dec_nat_length)
  then show "length (pad (Suc w) n) = Suc w" by (simp add: pad_def k dec_of_nat Let_def)
  show "list_all is_digit (pad (Suc w) n)"
    using dec_nat_digits [of _ k] by (auto simp: pad_def k dec_of_nat Let_def list_all_iff is_digit_def)
  show "int (undec_nat (pad (Suc w) n)) = n" by (simp add: pad_def k dec_of_nat Let_def undec_zeros)
qed

lemma pad2:
  assumes "0 \<le> n" "n < 100"
  shows "length (pad 2 n) = 2" "list_all is_digit (pad 2 n)" "int (undec_nat (pad 2 n)) = n"
  using pad_field [of n 1] assms by (simp_all add: numeral_2_eq_2 [symmetric])

lemma pad4:
  assumes "0 \<le> n" "n < 10000"
  shows "length (pad 4 n) = 4" "list_all is_digit (pad 4 n)" "int (undec_nat (pad 4 n)) = n"
  using pad_field [of n 3] assms by (simp_all add: numeral_eq_Suc)

lemma iso_time_fields:
  assumes "length Y = 4" "length M = 2" "length D = 2" "length H = 2" "length I = 2" "length S = 2"
    and "list_all is_digit (Y @ M @ D @ H @ I @ S)"
    and "int (undec_nat Y) = y" "int (undec_nat M) = m" "int (undec_nat D) = d" "int (undec_nat H) = h" "int (undec_nat I) = i"
      "int (undec_nat S) = s"
  shows "iso_time (Y @ ''-'' @ M @ ''-'' @ D @ ''T'' @ H @ '':'' @ I @ '':'' @ S @ ''Z'') =
    (if 1 \<le> m \<and> m \<le> 12 \<and> 1 \<le> d \<and> d \<le> month_days y m \<and> h \<le> 23 \<and> i \<le> 59 \<and> s \<le> 59
     then Some (1000 * (s + 60 * (i + 60 * (h + 24 * days_from_civil y m d)))) else None)"
proof -
  let ?t = "Y @ ''-'' @ M @ ''-'' @ D @ ''T'' @ H @ '':'' @ I @ '':'' @ S @ ''Z''"
  have num: "num_at 0 4 ?t = Some y" "num_at 5 2 ?t = Some m" "num_at 8 2 ?t = Some d" "num_at 11 2 ?t = Some h"
    "num_at 14 2 ?t = Some i" "num_at 17 2 ?t = Some s"
    using assms by (simp_all add: num_at_def)
  have sep: "sep_at 4 CHR ''-'' ?t" "sep_at 7 CHR ''-'' ?t" "sep_at 10 CHR ''T'' ?t" "sep_at 13 CHR '':'' ?t"
    "sep_at 16 CHR '':'' ?t" "sep_at 19 CHR ''Z'' ?t"
    using assms by (simp_all add: sep_at_def nth_append)
  have "length ?t = 20" using assms by simp
  then show ?thesis unfolding iso_time_def using num sep by simp
qed

lemma iso_time_pad:
  assumes "0 \<le> y" "y \<le> 9999" "1 \<le> m" "m \<le> 12" "1 \<le> d" "d \<le> 31" "d \<le> month_days y m" "0 \<le> h" "h \<le> 23" "0 \<le> i" "i \<le> 59"
    "0 \<le> s" "s \<le> 59"
  shows "iso_time (pad 4 y @ ''-'' @ pad 2 m @ ''-'' @ pad 2 d @ ''T'' @ pad 2 h @ '':'' @ pad 2 i @ '':'' @ pad 2 s @ ''Z'') =
    Some (1000 * (s + 60 * (i + 60 * (h + 24 * days_from_civil y m d))))"
  using assms by (subst iso_time_fields [of _ _ _ _ _ _ y m d h i s]) (simp_all add: pad2 pad4)

text \<open>Days before a year of a cycle, and before a month of a year that begins in March.\<close>

definition year_days :: "int \<Rightarrow> int" where
  "year_days k = 365 * k + k div 4 - k div 100"

lemma year_days_bounds:
  assumes "0 \<le> k" "k < 400"
  shows "0 \<le> year_days k" "year_days k \<le> 145731" "k \<le> 398 \<Longrightarrow> year_days k \<le> 145366"
proof -
  have b: "4 * (k div 4) \<le> k" "k < 4 * (k div 4) + 4" "100 * (k div 100) \<le> k" "k < 100 * (k div 100) + 100"
    using div_bounds [of 4 k] div_bounds [of 100 k] by simp_all
  have q: "k div 4 \<le> 99" using b(1) assms(2) by linarith
  show "0 \<le> year_days k" using assms b(2,3) unfolding year_days_def by linarith
  show "year_days k \<le> 145731" using assms b(4) q unfolding year_days_def by linarith
  show "year_days k \<le> 145366" if "k \<le> 398" using that b(4) q unfolding year_days_def by linarith
qed

lemma month_days_bounds:
  "m \<le> 9 \<Longrightarrow> (153 * m + 2) div 5 \<le> (275 :: int)" "m \<le> 11 \<Longrightarrow> (153 * m + 2) div 5 \<le> (337 :: int)"
  "0 \<le> m \<Longrightarrow> 0 \<le> (153 * m + 2) div (5 :: int)" "10 \<le> m \<Longrightarrow> 306 \<le> (153 * m + 2) div (5 :: int)"
  using div_bounds [of 5 "153 * m + 2"] by linarith+

lemma civil_days:
  fixes y m :: int
  defines "z \<equiv> (if m \<le> 2 then y - 1 else y)"
  shows "days_from_civil y m d =
    146097 * (z div 400) + year_days (z mod 400) + (153 * (if m \<le> 2 then m + 9 else m - 3) + 2) div 5 + d - 719469"
proof -
  have k: "0 \<le> z mod 400" "z mod 400 < 400" and z: "z = 400 * (z div 400) + z mod 400" by simp_all
  have "z div 4 = 100 * (z div 400) + z mod 400 div 4" "z div 100 = 4 * (z div 400) + z mod 400 div 100"
    using cycle_divs(1,2) [OF k, of "z div 400"] by simp_all
  then show ?thesis
    unfolding days_from_civil_def Let_def z_def [symmetric] year_days_def using z by linarith
qed

text \<open>The first and the last day of the years with four digits.\<close>

lemma civil_year_nonneg:
  assumes "m \<le> 12" "d \<le> 31" "- 719528 \<le> days_from_civil y m d"
  shows "0 \<le> y"
proof (rule ccontr)
  assume neg: "\<not> 0 \<le> y"
  define z where "z = (if m \<le> 2 then y - 1 else y)"
  have k: "0 \<le> z mod 400" "z mod 400 < 400" and z: "z = 400 * (z div 400) + z mod 400" by simp_all
  note days = civil_days [of y m d, folded z_def] and f = year_days_bounds [OF k]
  have "z < 0" using neg by (simp add: z_def)
  then have e: "z div 400 \<le> - 1" using z k(1) by linarith
  show False
  proof (cases "m \<le> 2")
    case True
    then have "z \<le> - 2" using neg by (simp add: z_def)
    then have "146097 * (z div 400) + year_days (z mod 400) \<le> - 731"
      using e f(2,3) z by (cases "z div 400 = - 1") linarith+
    then show False using days True assms(2,3) month_days_bounds(2) [of "m + 9"] by simp
  next
    case False
    then show False using days e f(2) assms month_days_bounds(1) [of "m - 3"] by simp
  qed
qed

lemma civil_year_le:
  assumes "1 \<le> m" "1 \<le> d" "days_from_civil y m d \<le> 2932896"
  shows "y \<le> 9999"
proof (rule ccontr)
  assume big: "\<not> y \<le> 9999"
  define z where "z = (if m \<le> 2 then y - 1 else y)"
  have k: "0 \<le> z mod 400" "z mod 400 < 400" and z: "z = 400 * (z div 400) + z mod 400" by simp_all
  note days = civil_days [of y m d, folded z_def] and f = year_days_bounds [OF k]
  have "9999 \<le> z" using big by (simp add: z_def)
  show False
  proof (cases "25 \<le> z div 400")
    case True
    then show False using days f(1) assms month_days_bounds(3) [of "if m \<le> 2 then m + 9 else m - 3"] by (simp split: if_splits)
  next
    case False
    then have e: "z div 400 = 24" and k': "z mod 400 = 399" using \<open>9999 \<le> z\<close> z k(2) by linarith+
    then have "m \<le> 2" using big z by (simp add: z_def split: if_splits)
    moreover have "year_days 399 = 145731" by (simp add: year_days_def)
    ultimately show False using days e k' assms month_days_bounds(4) [of "m + 9"] by simp
  qed
qed

text \<open>
  The browser reads back the times that Go writes: for every second of the years 0 to 9999 the
  layout \<open>time.RFC3339\<close> is a date of ECMAScript's own format and means the same instant.
\<close>

lemma rfc3339_read:
  assumes "- 62167219200 \<le> t" "t < 253402300800"
  shows "iso_time (rfc3339 t) = Some (1000 * t)"
proof -
  obtain y m d where c: "civil_from_days (t div 86400) = (y, m, d)" by (cases "civil_from_days (t div 86400)") auto
  note civil = civil_from_days_spec [OF c]
  define s where "s = t mod 86400"
  have s: "0 \<le> s" "s < 86400" and t: "t = 86400 * (t div 86400) + s" by (simp_all add: s_def)
  have d: "d \<le> 31" using civil(4) by (auto simp: month_days_def split: if_splits)
  have "- 719528 \<le> t div 86400" "t div 86400 \<le> 2932896" using t s assms by linarith+
  then have y: "0 \<le> y" "y \<le> 9999"
    using civil_year_nonneg [OF civil(2) d] civil_year_le [OF civil(1,3)] civil(5) by simp_all
  have h: "0 \<le> s div 3600" "s div 3600 \<le> 23" "0 \<le> s div 60 mod 60" "s div 60 mod 60 \<le> 59" "0 \<le> s mod 60" "s mod 60 \<le> 59"
    using s by (simp_all add: pos_imp_zdiv_nonneg_iff)
  have clock: "s mod 60 + 60 * (s div 60 mod 60 + 60 * (s div 3600)) = s"
  proof -
    have "s div 3600 = s div 60 div 60" by (simp add: div_chain)
    then show ?thesis using mult_div_mod_eq [of 60 s] mult_div_mod_eq [of 60 "s div 60"] by simp
  qed
  have r: "rfc3339 t = pad 4 y @ ''-'' @ pad 2 m @ ''-'' @ pad 2 d @ ''T''
      @ pad 2 (s div 3600) @ '':'' @ pad 2 (s div 60 mod 60) @ '':'' @ pad 2 (s mod 60) @ ''Z''"
    by (simp add: rfc3339_def c s_def Let_def)
  have "iso_time (rfc3339 t) = Some (1000 * (s mod 60 + 60 * (s div 60 mod 60 + 60 * (s div 3600 + 24 * days_from_civil y m d))))"
    unfolding r by (rule iso_time_pad [OF y civil(1-3) d civil(4) h])
  moreover have "s mod 60 + 60 * (s div 60 mod 60 + 60 * (s div 3600 + 24 * days_from_civil y m d)) = t"
    using clock t civil(5) by simp
  ultimately show ?thesis by simp
qed

end
