(* ===== verification/Server.thy ===== *)
theory Server
  imports Auth ResultCodec GoTime "HOL-Library.AList" "HOL-Library.List_Lexorder" "HOL-Library.Char_ord"
begin

text \<open>
  \<open>operator/server\<close>: the routes of \<open>main.go\<close>, its middleware, and the handlers of
  \<open>server/handler\<close>.  The Kubernetes client is a parameter, a record of the operations the
  handlers call on a cluster state of any type; so are the JSON forms of object metadata and of the
  other Kubernetes types (\<open>wire\<close>), the static files and the texts of Go's decoding errors.  The
  current time is counted in seconds since 1970.
\<close>

section \<open>The cluster\<close>

record workload =
  wl_Name :: string
  wl_Ready :: int
  wl_Total :: int

record 'c k8s =
  k_listPolicies :: "'c \<Rightarrow> string option \<Rightarrow> k8s_error + ChecklistPolicyV1 list"
  k_getPolicy :: "'c \<Rightarrow> object_key \<Rightarrow> k8s_error + ChecklistPolicyV1"
  k_createPolicy :: "ChecklistPolicyV1 \<Rightarrow> 'c \<Rightarrow> 'c \<times> (k8s_error + ChecklistPolicyV1)"
  k_updatePolicy :: "ChecklistPolicyV1 \<Rightarrow> 'c \<Rightarrow> 'c \<times> (k8s_error + ChecklistPolicyV1)"
  k_deletePolicy :: "object_key \<Rightarrow> 'c \<Rightarrow> 'c \<times> k8s_error option"
  k_listResults :: "'c \<Rightarrow> string option \<Rightarrow> string option \<Rightarrow> k8s_error + ChecklistResultV1 list"
  k_getResult :: "'c \<Rightarrow> object_key \<Rightarrow> k8s_error + ChecklistResultV1"
  k_getConfigMap :: "'c \<Rightarrow> object_key \<Rightarrow> k8s_error + (string \<times> string) list option"
  k_createConfigMap :: "object_key \<Rightarrow> (string \<times> string) list \<Rightarrow> 'c \<Rightarrow> 'c \<times> k8s_error option"
  k_updateConfigMap :: "object_key \<Rightarrow> (string \<times> string) list \<Rightarrow> 'c \<Rightarrow> 'c \<times> k8s_error option"
  k_listNamespaces :: "'c \<Rightarrow> k8s_error + string list"
  k_listDeployments :: "'c \<Rightarrow> string option \<Rightarrow> k8s_error + workload list"
  k_listStatefulSets :: "'c \<Rightarrow> string option \<Rightarrow> k8s_error + workload list"
  k_listDaemonSets :: "'c \<Rightarrow> string option \<Rightarrow> k8s_error + workload list"

record 'c server =
  sv_auth :: auth_env
  sv_k8s :: "'c k8s"
  sv_namespace :: string
  sv_meta :: "ObjectMetaV1 \<Rightarrow> json"
  sv_decode_meta :: "json \<Rightarrow> ObjectMetaV1 option"
  sv_wire :: wire
  sv_static :: "string \<Rightarrow> http_response option"
  sv_index :: http_response
  sv_decode_error :: "json option \<Rightarrow> string"
  sv_parse_error :: "string \<Rightarrow> string"

section \<open>Queries\<close>

definition url_query :: "string \<Rightarrow> string" where
  "url_query u = tl (dropWhile (\<lambda>c. c \<noteq> CHR ''?'') u)"

fun unescape :: "string \<Rightarrow> string option" where
  "unescape [] = Some []"
| "unescape (c # s) =
     (if c = CHR ''%'' then
        (case s of
           x # y # s' \<Rightarrow>
             (case (unhex x, unhex y) of
                (Some a, Some b) \<Rightarrow> map_option (\<lambda>t. char_of (a * 16 + b) # t) (unescape s')
              | _ \<Rightarrow> None)
         | _ \<Rightarrow> None)
      else map_option (\<lambda>t. (if c = CHR ''+'' then CHR '' '' else c) # t) (unescape s))"

text \<open>\<open>r.URL.Query().Get(k)\<close>: the first value of the key; malformed pairs are dropped.\<close>

definition query_pair :: "string \<Rightarrow> (string \<times> string) option" where
  "query_pair p =
     (if p = [] \<or> CHR '';'' \<in> set p then None
      else let k = takeWhile (\<lambda>c. c \<noteq> CHR ''='') p; v = tl (dropWhile (\<lambda>c. c \<noteq> CHR ''='') p)
           in case (unescape k, unescape v) of (Some k', Some v') \<Rightarrow> Some (k', v') | _ \<Rightarrow> None)"

definition query_get :: "string \<Rightarrow> string \<Rightarrow> string" where
  "query_get u k =
     (case map_of (List.map_filter query_pair (split_on CHR ''&'' (url_query u))) k of None \<Rightarrow> [] | Some v \<Rightarrow> v)"

section \<open>Handlers for policies and results\<close>

definition encode_policy :: "'c server \<Rightarrow> ChecklistPolicyV1 \<Rightarrow> json" where
  "encode_policy sv p =
     JObj ([(''metadata'', sv_meta sv (cp_Meta p)), (''spec'', encode_spec (cp_Spec p))] @ status_field (sv_wire sv) (cp_Status p))"

definition decode_policy :: "'c server \<Rightarrow> json \<Rightarrow> ChecklistPolicyV1 option" where
  "decode_policy sv = de_struct (\<lambda>fs. do {
     m \<leftarrow> sv_decode_meta sv (field ''metadata'' fs);
     s \<leftarrow> decode_spec (field ''spec'' fs);
     st \<leftarrow> decode_status (sv_wire sv) (field ''status'' fs);
     Some \<lparr>cp_Meta = m, cp_Spec = s, cp_Status = st\<rparr>})"

definition nonempty :: "string \<Rightarrow> string option" where
  "nonempty s = (if s = [] then None else Some s)"

definition ListPolicies :: "'c server \<Rightarrow> 'c handler" where
  "ListPolicies sv r c =
     (c, Some (case k_listPolicies (sv_k8s sv) c (nonempty (query_get (rq_url r) ''namespace'')) of
                 Inl e \<Rightarrow> writeError 500 (''listing policies: '' @ error_text e)
               | Inr items \<Rightarrow> writeJSON 200 (JArr (map (encode_policy sv) items))))"

definition GetPolicy :: "'c server \<Rightarrow> object_key \<Rightarrow> 'c handler" where
  "GetPolicy sv key r c =
     (c, Some (case k_getPolicy (sv_k8s sv) c key of
                 Inl e \<Rightarrow> writeError 404 (''policy not found: '' @ error_text e)
               | Inr p \<Rightarrow> writeJSON 200 (encode_policy sv p)))"

definition bad_body :: "'c server \<Rightarrow> http_request \<Rightarrow> http_response" where
  "bad_body sv r = writeError 400 (''invalid request body: '' @ sv_decode_error sv (rq_body r))"

definition CreatePolicy :: "'c server \<Rightarrow> 'c handler" where
  "CreatePolicy sv r c =
     (case Option.bind (rq_body r) (decode_policy sv) of
        None \<Rightarrow> (c, Some (bad_body sv r))
      | Some policy \<Rightarrow>
          (case k_createPolicy (sv_k8s sv) policy c of
             (c1, Inl e) \<Rightarrow> (c1, Some (writeError 500 (''creating policy: '' @ error_text e)))
           | (c1, Inr p) \<Rightarrow> (c1, Some (writeJSON 201 (encode_policy sv p)))))"

definition UpdatePolicy :: "'c server \<Rightarrow> object_key \<Rightarrow> 'c handler" where
  "UpdatePolicy sv key r c =
     (case k_getPolicy (sv_k8s sv) c key of
        Inl e \<Rightarrow> (c, Some (writeError 404 (''policy not found: '' @ error_text e)))
      | Inr existing \<Rightarrow>
          (case Option.bind (rq_body r) decode_spec of
             None \<Rightarrow> (c, Some (bad_body sv r))
           | Some updated \<Rightarrow>
               (case k_updatePolicy (sv_k8s sv) (existing\<lparr>cp_Spec := updated\<rparr>) c of
                  (c1, Inl e) \<Rightarrow> (c1, Some (writeError 500 (''updating policy: '' @ error_text e)))
                | (c1, Inr p) \<Rightarrow> (c1, Some (writeJSON 200 (encode_policy sv p))))))"

definition DeletePolicy :: "'c server \<Rightarrow> object_key \<Rightarrow> 'c handler" where
  "DeletePolicy sv key r c =
     (case k_deletePolicy (sv_k8s sv) key c of
        (c1, Some e) \<Rightarrow> (c1, Some (writeError 500 (''deleting policy: '' @ error_text e)))
      | (c1, None) \<Rightarrow> (c1, Some (writeJSON 200 (JObj [(''status'', JStr ''deleted'')]))))"

definition ListResults :: "'c server \<Rightarrow> 'c handler" where
  "ListResults sv r c =
     (c, Some (case k_listResults (sv_k8s sv) c (nonempty (query_get (rq_url r) ''namespace'')) (nonempty (query_get (rq_url r) ''policy'')) of
                 Inl e \<Rightarrow> writeError 500 (''listing results: '' @ error_text e)
               | Inr items \<Rightarrow> writeJSON 200 (JArr (map (encode_result (sv_wire sv) (sv_meta sv)) items))))"

definition GetResult :: "'c server \<Rightarrow> object_key \<Rightarrow> 'c handler" where
  "GetResult sv key r c =
     (c, Some (case k_getResult (sv_k8s sv) c key of
                 Inl e \<Rightarrow> writeError 404 (''result not found: '' @ error_text e)
               | Inr x \<Rightarrow> writeJSON 200 (encode_result (sv_wire sv) (sv_meta sv) x)))"

definition RunNow :: "'c server \<Rightarrow> int \<Rightarrow> object_key \<Rightarrow> 'c handler" where
  "RunNow sv now key r c =
     (case k_getPolicy (sv_k8s sv) c key of
        Inl e \<Rightarrow> (c, Some (writeError 404 (''policy not found: '' @ error_text e)))
      | Inr policy \<Rightarrow>
          (let meta = cp_Meta policy;
               policy1 = policy\<lparr>cp_Meta := meta\<lparr>om_Annotations := AList.update ''dtm.io/run-now'' (rfc3339 now) (om_Annotations meta)\<rparr>\<rparr>
           in case k_updatePolicy (sv_k8s sv) policy1 c of
                (c1, Inl e) \<Rightarrow> (c1, Some (writeError 500 (''triggering run: '' @ error_text e)))
              | (c1, Inr p) \<Rightarrow> (c1, Some (writeJSON 200 (JObj [(''status'', JStr ''triggered'')])))))"

section \<open>Settings\<close>

definition settings_key :: object_key where
  "settings_key = (''dtm-system'', ''dtm-settings'')"

text \<open>A value of type \<open>map[string]interface{}\<close>: an object or null; maps are written sorted by key.\<close>

definition is_map :: "json \<Rightarrow> bool" where
  "is_map v \<longleftrightarrow> (case v of JObj fs \<Rightarrow> True | JNull \<Rightarrow> True | _ \<Rightarrow> False)"

fun sorted_json :: "json \<Rightarrow> json" where
  "sorted_json (JObj fs) = JObj (sort_key fst (map (\<lambda>(k, v). (k, sorted_json v)) fs))"
| "sorted_json (JArr vs) = JArr (map sorted_json vs)"
| "sorted_json v = v"

definition GetSettings :: "'c server \<Rightarrow> 'c handler" where
  "GetSettings sv r c =
     (c, Some (case k_getConfigMap (sv_k8s sv) c settings_key of
                 Inl (NotFound e) \<Rightarrow> writeJSON 200 (JObj [])
               | Inl (Failure e) \<Rightarrow> writeError 500 (''getting settings: '' @ e)
               | Inr data \<Rightarrow>
                   (case Option.bind data (\<lambda>m. map_of m ''settings.json'') of
                      None \<Rightarrow> writeJSON 200 (JObj [])
                    | Some text \<Rightarrow>
                        (case go_parse text of
                           Some v \<Rightarrow> if is_map v then writeJSON 200 (sorted_json v) else writeError 500 (''parsing settings: '' @ sv_parse_error sv text)
                         | None \<Rightarrow> writeError 500 (''parsing settings: '' @ sv_parse_error sv text)))))"

definition UpdateSettings :: "'c server \<Rightarrow> 'c handler" where
  "UpdateSettings sv r c =
     (case rq_body r of
        None \<Rightarrow> (c, Some (bad_body sv r))
      | Some v \<Rightarrow>
          if \<not> is_map v then (c, Some (bad_body sv r))
          else
            let data = Marshal (sorted_json v); saved = Some (writeJSON 200 (sorted_json v))
            in case k_getConfigMap (sv_k8s sv) c settings_key of
                 Inl (NotFound e) \<Rightarrow>
                   (case k_createConfigMap (sv_k8s sv) settings_key [(''settings.json'', data)] c of
                      (c1, Some e) \<Rightarrow> (c1, Some (writeError 500 (''creating settings: '' @ error_text e)))
                    | (c1, None) \<Rightarrow> (c1, saved))
               | Inl (Failure e) \<Rightarrow> (c, Some (writeError 500 (''getting settings: '' @ e)))
               | Inr None \<Rightarrow> (c, None)
               | Inr (Some m) \<Rightarrow>
                   (case k_updateConfigMap (sv_k8s sv) settings_key (AList.update ''settings.json'' data m) c of
                      (c1, Some e) \<Rightarrow> (c1, Some (writeError 500 (''updating settings: '' @ error_text e)))
                    | (c1, None) \<Rightarrow> (c1, saved)))"

section \<open>The cluster pages\<close>

definition ListNamespaces :: "'c server \<Rightarrow> 'c handler" where
  "ListNamespaces sv r c =
     (c, Some (case k_listNamespaces (sv_k8s sv) c of
                 Inl e \<Rightarrow> writeError 500 (''listing namespaces: '' @ error_text e)
               | Inr names \<Rightarrow> writeJSON 200 (JArr (map JStr (sort names)))))"

definition resource_summaries :: "string \<Rightarrow> k8s_error + workload list \<Rightarrow> json list" where
  "resource_summaries kind answer =
     (case answer of
        Inl e \<Rightarrow> []
      | Inr ws \<Rightarrow> map (\<lambda>w. JObj [(''kind'', JStr kind), (''name'', JStr (wl_Name w)),
                               (''ready'', JStr (dec (wl_Ready w) @ ''/'' @ dec (wl_Total w)))]) ws)"

definition ListResources :: "'c server \<Rightarrow> 'c handler" where
  "ListResources sv r c =
     (let ns = nonempty (query_get (rq_url r) ''ns''); k = sv_k8s sv
      in (c, Some (writeJSON 200 (JArr
           (resource_summaries ''Deployment'' (k_listDeployments k c ns) @ resource_summaries ''StatefulSet'' (k_listStatefulSets k c ns)
            @ resource_summaries ''DaemonSet'' (k_listDaemonSets k c ns))))))"

section \<open>Routes\<close>

datatype route =
    RListPolicies | RGetPolicy object_key | RCreatePolicy | RUpdatePolicy object_key | RDeletePolicy object_key
  | RListResults | RGetResult object_key | RRunNow object_key | RGetSettings | RUpdateSettings
  | RListNamespaces | RListResources | RInfo | RLogin | RAuthCheck | RHealthz | RRedirect | RUI

text \<open>
  The multiplexer of \<open>net/http\<close> works on the escaped path: a path that is not clean is redirected;
  the segments are decoded one by one and compared with the patterns.  A pattern with the method
  \<open>GET\<close> also matches \<open>HEAD\<close>, a wildcard matches one segment that is neither empty nor a slash, and
  what no other pattern matches goes to \<open>/\<close>, as every \<open>CONNECT\<close> does, whose path is not cleaned.
\<close>

definition unclean :: "string list \<Rightarrow> bool" where
  "unclean segs \<longleftrightarrow> [] \<in> set (butlast segs) \<or> ''.'' \<in> set segs \<or> ''..'' \<in> set segs"

definition wildcard :: "string \<Rightarrow> bool" where
  "wildcard seg \<longleftrightarrow> seg \<noteq> [] \<and> seg \<noteq> ''/''"

definition object_path :: "string \<Rightarrow> string list \<Rightarrow> bool" where
  "object_path kind segs \<longleftrightarrow>
     length segs = 5 \<and> take 3 segs = [''api'', ''v1'', kind] \<and> wildcard (segs ! 3) \<and> wildcard (segs ! 4)"

definition match_route :: "string \<Rightarrow> string list \<Rightarrow> route" where
  "match_route method segs =
     (let get = (method = ''GET'' \<or> method = ''HEAD'');
          api = (\<lambda>rest. segs = ''api'' # ''v1'' # rest);
          key = (segs ! 3, segs ! 4)
      in if object_path ''policies'' segs \<and> get then RGetPolicy key
         else if object_path ''policies'' segs \<and> method = ''PUT'' then RUpdatePolicy key
         else if object_path ''policies'' segs \<and> method = ''DELETE'' then RDeletePolicy key
         else if object_path ''results'' segs \<and> get then RGetResult key
         else if object_path ''run'' segs \<and> method = ''POST'' then RRunNow key
         else if api [''policies''] \<and> get then RListPolicies
         else if api [''policies''] \<and> method = ''POST'' then RCreatePolicy
         else if api [''results''] \<and> get then RListResults
         else if api [''settings''] \<and> get then RGetSettings
         else if api [''settings''] \<and> method = ''PUT'' then RUpdateSettings
         else if api [''cluster'', ''namespaces''] \<and> get then RListNamespaces
         else if api [''cluster'', ''resources''] \<and> get then RListResources
         else if api [''info''] \<and> get then RInfo
         else if api [''login''] \<and> method = ''POST'' then RLogin
         else if api [''auth'', ''check''] \<and> get then RAuthCheck
         else if segs = [''healthz''] \<and> get then RHealthz
         else RUI)"

definition mux :: "string \<Rightarrow> string \<Rightarrow> route" where
  "mux method escaped =
     (if method \<noteq> ''CONNECT'' \<and> unclean (raw_segments escaped) then RRedirect
      else match_route method (path_segments escaped))"

definition serve_ui :: "'c server \<Rightarrow> string \<Rightarrow> http_response" where
  "serve_ui sv path = (case sv_static sv (drop 1 path) of None \<Rightarrow> sv_index sv | Some f \<Rightarrow> f)"

primrec handle :: "'c server \<Rightarrow> int \<Rightarrow> route \<Rightarrow> 'c handler" where
  "handle sv now RListPolicies = ListPolicies sv"
| "handle sv now (RGetPolicy key) = GetPolicy sv key"
| "handle sv now RCreatePolicy = CreatePolicy sv"
| "handle sv now (RUpdatePolicy key) = UpdatePolicy sv key"
| "handle sv now (RDeletePolicy key) = DeletePolicy sv key"
| "handle sv now RListResults = ListResults sv"
| "handle sv now (RGetResult key) = GetResult sv key"
| "handle sv now (RRunNow key) = RunNow sv now key"
| "handle sv now RGetSettings = GetSettings sv"
| "handle sv now RUpdateSettings = UpdateSettings sv"
| "handle sv now RListNamespaces = ListNamespaces sv"
| "handle sv now RListResources = ListResources sv"
| "handle sv now RInfo = (\<lambda>r c. (c, Some (writeJSON 200 (JObj [(''namespace'', JStr (sv_namespace sv))]))))"
| "handle sv now RLogin = (\<lambda>r c. (c, Some (Login_handler (sv_auth sv) now r)))"
| "handle sv now RAuthCheck = (\<lambda>r c. (c, Some (AuthCheck (sv_auth sv) now r)))"
| "handle sv now RHealthz = (\<lambda>r c. (c, Some \<lparr>rs_status = 200, rs_statusText = ''OK'', rs_json = None\<rparr>))"
| "handle sv now RRedirect = (\<lambda>r c. (c, Some \<lparr>rs_status = 301, rs_statusText = StatusText 301, rs_json = None\<rparr>))"
| "handle sv now RUI = (\<lambda>r c. (c, Some (serve_ui sv (url_path (rq_url r)))))"

definition serve_mux :: "'c server \<Rightarrow> int \<Rightarrow> 'c handler" where
  "serve_mux sv now r c = handle sv now (mux (rq_method r) (escaped_path (rq_url r))) r c"

definition corsMiddleware :: "'c handler \<Rightarrow> 'c handler" where
  "corsMiddleware next_handler r c =
     (if rq_method r = ''OPTIONS'' then (c, Some \<lparr>rs_status = 204, rs_statusText = StatusText 204, rs_json = None\<rparr>)
      else next_handler r c)"

definition bad_target :: http_response where
  "bad_target = \<lparr>rs_status = 400, rs_statusText = StatusText 400, rs_json = None\<rparr>"

text \<open>A target that does not parse is answered by \<open>net/http\<close> itself.\<close>

definition serve :: "'c server \<Rightarrow> int \<Rightarrow> 'c handler" where
  "serve sv now r c =
     (if parse_target (rq_url r) = None then (c, Some bad_target)
      else corsMiddleware (JWTAuthMiddleware (sv_auth sv) now (serve_mux sv now)) r c)"

section \<open>The calls of the client reach their handlers\<close>

text \<open>
  Names of unreserved characters other than the relative segments: the browser sends them as they
  stand.  All names of Kubernetes objects are such names.
\<close>

definition plain_segment :: "string \<Rightarrow> bool" where
  "plain_segment s \<longleftrightarrow> s \<noteq> [] \<and> s \<noteq> ''.'' \<and> s \<noteq> ''..'' \<and> list_all unreserved s"

definition call_route :: "api_call \<Rightarrow> route" where
  "call_route call =
     (let r = send_request None \<lparr>token = None, location = []\<rparr> (fst call) (snd call)
      in mux (rq_method r) (escaped_path (rq_url r)))"

lemma call_route_eq: "call_route call = mux (o_method (snd call)) (escaped_path (''/api/v1'' @ fst call))"
  by (simp add: call_route_def send_request_def api_base_def opt_or_str_def)

lemma object_segments:
  assumes "plain_segment ns" "plain_segment name" "list_all unreserved kind"
  defines "e \<equiv> escaped_path (''/api/v1/'' @ kind @ ''/'' @ ns @ ''/'' @ name)"
  shows "raw_segments e = [''api'', ''v1'', kind, ns, name]" "path_segments e = [''api'', ''v1'', kind, ns, name]"
proof -
  let ?ss = "[''api'', ''v1'', kind, ns, name]"
  have "list_all unreserved ''api''" "list_all unreserved ''v1''" by code_simp+
  with assms have ss: "list_all (list_all unreserved) ?ss" by (simp add: plain_segment_def)
  have "e = concat (map ((#) CHR ''/'') ?ss)"
    using plain_paths(2) [OF plain_path_join [OF ss], of "[]"] by (simp add: e_def startsWith_def)
  then show "raw_segments e = ?ss" "path_segments e = ?ss" using plain_segments [OF ss] by simp_all
qed

lemma object_kinds: "list_all unreserved ''policies''" "list_all unreserved ''results''" "list_all unreserved ''run''"
  by code_simp+

lemma mux_object:
  assumes "plain_segment ns" "plain_segment name" "list_all unreserved kind" "kind \<noteq> []" "kind \<noteq> ''.''" "kind \<noteq> ''..''"
  shows "mux method (escaped_path (''/api/v1/'' @ kind @ ''/'' @ ns @ ''/'' @ name)) = match_route method [''api'', ''v1'', kind, ns, name]"
  using assms object_segments [OF assms(1-3)] by (auto simp: mux_def unclean_def plain_segment_def)

lemma plain_wildcard: "plain_segment s \<Longrightarrow> wildcard s"
  using unreserved_char [of "CHR ''/''"] by (auto simp: plain_segment_def wildcard_def)

lemma object_routes:
  assumes "plain_segment ns" "plain_segment name"
  shows "match_route ''GET'' [''api'', ''v1'', ''policies'', ns, name] = RGetPolicy (ns, name)"
    "match_route ''PUT'' [''api'', ''v1'', ''policies'', ns, name] = RUpdatePolicy (ns, name)"
    "match_route ''DELETE'' [''api'', ''v1'', ''policies'', ns, name] = RDeletePolicy (ns, name)"
    "match_route ''GET'' [''api'', ''v1'', ''results'', ns, name] = RGetResult (ns, name)"
    "match_route ''POST'' [''api'', ''v1'', ''run'', ns, name] = RRunNow (ns, name)"
  using plain_wildcard [OF assms(1)] plain_wildcard [OF assms(2)]
  by (simp_all add: match_route_def object_path_def Let_def eval_nat_numeral)

lemma object_calls:
  assumes "plain_segment ns" "plain_segment name"
  shows "call_route (getPolicy ns name) = RGetPolicy (ns, name)"
    and "call_route (updatePolicy ns name spec) = RUpdatePolicy (ns, name)"
    and "call_route (deletePolicy ns name) = RDeletePolicy (ns, name)"
    and "call_route (getResult ns name) = RGetResult (ns, name)"
    and "call_route (runNow ns name) = RRunNow (ns, name)"
  using mux_object [OF assms object_kinds(1)] mux_object [OF assms object_kinds(2)] mux_object [OF assms object_kinds(3)] object_routes [OF assms]
  by (simp_all add: call_route_eq getPolicy_def updatePolicy_def deletePolicy_def getResult_def runNow_def no_options_def)

lemma fixed_calls:
  "call_route (createPolicy d) = RCreatePolicy" "call_route getSettings = RGetSettings" "call_route (updateSettings v) = RUpdateSettings"
  "call_route listNamespaces = RListNamespaces" "call_route getInfo = RInfo" "call_route (login u p) = RLogin"
  "call_route authCheck = RAuthCheck"
proof -
  have e: "escaped_path ''/api/v1/policies'' = ''/api/v1/policies''" "escaped_path ''/api/v1/settings'' = ''/api/v1/settings''"
    "escaped_path ''/api/v1/cluster/namespaces'' = ''/api/v1/cluster/namespaces''" "escaped_path ''/api/v1/info'' = ''/api/v1/info''"
    "escaped_path ''/api/v1/login'' = ''/api/v1/login''" "escaped_path ''/api/v1/auth/check'' = ''/api/v1/auth/check''"
    by code_simp+
  have m: "mux ''POST'' ''/api/v1/policies'' = RCreatePolicy" "mux ''GET'' ''/api/v1/settings'' = RGetSettings"
    "mux ''PUT'' ''/api/v1/settings'' = RUpdateSettings" "mux ''GET'' ''/api/v1/cluster/namespaces'' = RListNamespaces"
    "mux ''GET'' ''/api/v1/info'' = RInfo" "mux ''POST'' ''/api/v1/login'' = RLogin" "mux ''GET'' ''/api/v1/auth/check'' = RAuthCheck"
    by code_simp+
  show "call_route (createPolicy d) = RCreatePolicy" "call_route getSettings = RGetSettings" "call_route (updateSettings v) = RUpdateSettings"
    "call_route listNamespaces = RListNamespaces" "call_route getInfo = RInfo" "call_route (login u p) = RLogin"
    "call_route authCheck = RAuthCheck"
    unfolding call_route_eq createPolicy_def getSettings_def updateSettings_def listNamespaces_def getInfo_def login_def authCheck_def
    by (simp_all add: no_options_def e m)
qed

lemma routed_parses: "call_route call \<noteq> RUI \<Longrightarrow> parse_target (''/api/v1'' @ fst call) \<noteq> None"
proof (rule ccontr)
  assume a: "call_route call \<noteq> RUI" "\<not> parse_target (''/api/v1'' @ fst call) \<noteq> None"
  then have "parse_target (''/api/v1'' @ fst call) = None" by blast
  then have "escaped_path (''/api/v1'' @ fst call) = []" unfolding escaped_path_def by (simp only: option.case)
  then have "call_route call = RUI"
    unfolding call_route_eq by (simp add: mux_def raw_segments_def path_segments_def unclean_def match_route_def object_path_def)
  with a(1) show False by simp
qed

lemma form_encode_wire: "list_all wire_char (form_encode s)"
proof -
  have d: "d < 16 \<Longrightarrow> wire_char (Client.hex_digit d)" for d
    by (auto simp: wire_char_def Client.hex_digit_def Let_def)
  have p: "list_all wire_char (percent n)" if "n < 256" for n
  proof -
    have "n div 16 < 16" using that by auto
    then show ?thesis using d by (simp add: percent_def wire_char_def)
  qed
  have "list_all wire_char (form_unit c)" for c
  proof -
    have "(of_char c :: nat) < 256" by simp
    then have "192 + (of_char c :: nat) div 64 < 256" "128 + (of_char c :: nat) mod 64 < 256" by linarith+
    then show ?thesis using p by (auto simp: form_unit_def Let_def form_safe_def wire_char_def)
  qed
  then show ?thesis by (auto simp: form_encode_def list_all_iff)
qed

lemma form_query_wire: "list_all wire_char (form_query ps)"
proof -
  have "list_all wire_char sep \<Longrightarrow> list_all (list_all wire_char) xs \<Longrightarrow> list_all wire_char (join sep xs)" for sep xs
    by (induction sep xs rule: join.induct) auto
  moreover have "list_all wire_char ''&''" by code_simp
  ultimately have "list_all (list_all wire_char) xs \<Longrightarrow> list_all wire_char (join ''&'' xs)" for xs by blast
  moreover have "wire_char CHR ''=''" by code_simp
  ultimately show ?thesis
    using form_encode_wire by (simp add: form_query_def case_prod_beta list.pred_map comp_def list.pred_True)
qed

lemma query_calls:
  assumes "\<forall>s. ns = Some s \<longrightarrow> list_all unreserved s"
  shows "call_route (listPolicies ns) = RListPolicies" "call_route (listResources ns) = RListResources"
proof -
  have q: "list_all wire_char s" if "ns = Some s" for s
    using assms that unreserved_char by (auto simp: list_all_iff)
  have w: "list_all wire_char ''?namespace=''" "list_all wire_char ''?ns=''" by code_simp+
  have e: "escaped_path ''/api/v1/policies'' = ''/api/v1/policies''" "escaped_path ''/api/v1/cluster/resources'' = ''/api/v1/cluster/resources''"
    by code_simp+
  have pl: "plain_path ''/api/v1/policies''" "plain_path ''/api/v1/cluster/resources''" by code_simp+
  have m: "mux ''GET'' ''/api/v1/policies'' = RListPolicies" "mux ''GET'' ''/api/v1/cluster/resources'' = RListResources"
    by code_simp+
  have "escaped_path (''/api/v1/policies'' @ ''?namespace='' @ s) = ''/api/v1/policies''"
    "escaped_path (''/api/v1/cluster/resources'' @ ''?ns='' @ s) = ''/api/v1/cluster/resources''" if "ns = Some s" for s
    using plain_paths(2) [OF pl(1), of "''?namespace='' @ s"] plain_paths(2) [OF pl(2), of "''?ns='' @ s"] q [OF that] w
    by (simp_all add: startsWith_def)
  then show "call_route (listPolicies ns) = RListPolicies" "call_route (listResources ns) = RListResources"
    by (cases ns; simp add: call_route_eq listPolicies_def listResources_def no_options_def e m)+
qed

lemma result_call: "call_route (listResults ns p) = RListResults"
proof -
  have e: "escaped_path ''/api/v1/results'' = ''/api/v1/results''" by code_simp
  have pl: "plain_path ''/api/v1/results''" by code_simp
  have m: "mux ''GET'' ''/api/v1/results'' = RListResults" by code_simp
  have "escaped_path (''/api/v1/results'' @ ''?'' @ form_query ps) = ''/api/v1/results''" for ps
    using plain_paths(2) [OF pl, of "''?'' @ form_query ps"] form_query_wire by (simp add: startsWith_def wire_char_def)
  then show ?thesis by (simp add: call_route_eq listResults_def Let_def no_options_def e m)
qed

text \<open>
  C24: for a namespace and a name of letters, digits, hyphens, dots, underscores and tildes that are
  not relative segments, every call of the web client is answered by the handler it is meant for,
  with the namespace and the name it was made with.  The filters of the lists of policies and
  resources are made of the same characters, those of the list of results of any.
\<close>

theorem client_calls_routed:
  assumes "plain_segment ns" and "plain_segment name" and "\<forall>s. ns' = Some s \<longrightarrow> list_all unreserved s"
  shows "call_route (getPolicy ns name) = RGetPolicy (ns, name)
    \<and> call_route (updatePolicy ns name spec) = RUpdatePolicy (ns, name)
    \<and> call_route (deletePolicy ns name) = RDeletePolicy (ns, name)
    \<and> call_route (getResult ns name) = RGetResult (ns, name)
    \<and> call_route (runNow ns name) = RRunNow (ns, name)
    \<and> call_route (listPolicies ns') = RListPolicies \<and> call_route (createPolicy d) = RCreatePolicy
    \<and> call_route (listResults q p) = RListResults \<and> call_route getSettings = RGetSettings
    \<and> call_route (updateSettings v) = RUpdateSettings \<and> call_route listNamespaces = RListNamespaces
    \<and> call_route (listResources ns') = RListResources \<and> call_route getInfo = RInfo
    \<and> call_route (login u pw) = RLogin \<and> call_route authCheck = RAuthCheck"
  by (intro conjI object_calls [OF assms(1,2)] fixed_calls query_calls [OF assms(3)] result_call)

theorem client_calls_routed_witness:
  "call_route (runNow ''default'' ''nightly-1'') = RRunNow (''default'', ''nightly-1'') \<and> call_route (listPolicies (Some ''default'')) = RListPolicies"
proof -
  have "list_all unreserved ''default''" "list_all unreserved ''nightly-1''" by code_simp+
  then have "plain_segment ''default''" "plain_segment ''nightly-1''" "\<forall>s. Some ''default'' = Some s \<longrightarrow> list_all unreserved s"
    by (simp_all add: plain_segment_def)
  from client_calls_routed [OF this] show ?thesis by blast
qed

section \<open>Queries are read as written\<close>

definition ascii :: "string \<Rightarrow> bool" where
  "ascii s \<longleftrightarrow> list_all (\<lambda>c. (of_char c :: nat) < 128) s"

lemma unescape_percent: "n < 256 \<Longrightarrow> unescape (percent n @ s) = map_option (\<lambda>t. char_of n # t) (unescape s)"
proof -
  assume "n < 256"
  then have "n div 16 < 16" by auto
  then show ?thesis by (simp add: percent_def unhex_hex)
qed

lemma unescape_unit:
  assumes "(of_char c :: nat) < 128"
  shows "unescape (form_unit c @ s) = map_option (\<lambda>t. c # t) (unescape s)"
proof (cases "form_safe (of_char c)")
  case True
  then have "c \<noteq> CHR ''%''" "c \<noteq> CHR ''+''" by (auto simp: form_safe_def)
  then show ?thesis using True by (simp add: form_unit_def)
next
  case False
  show ?thesis
  proof (cases "(of_char c :: nat) = 32")
    case True
    have "c = char_of (of_char c :: nat)" by simp
    also have "\<dots> = CHR '' ''" unfolding True by code_simp
    finally have "c = CHR '' ''" .
    then show ?thesis using False by (simp add: form_unit_def)
  next
    case nsp: False
    have "form_unit c = percent (of_char c)" using assms False nsp by (simp add: form_unit_def)
    then show ?thesis using assms by (simp add: unescape_percent)
  qed
qed

lemma unescape_encode: "ascii s \<Longrightarrow> unescape (form_encode s) = Some s"
  by (induction s) (simp_all add: ascii_def form_encode_def unescape_unit)

lemma hex_digit_safe: "d < 16 \<Longrightarrow> form_safe (of_char (Client.hex_digit d))"
  by (auto simp: form_safe_def Client.hex_digit_def)

lemma form_unit_chars:
  assumes "(of_char c :: nat) < 128" and "x \<in> set (form_unit c)"
  shows "form_safe (of_char x) \<or> x = CHR ''+'' \<or> x = CHR ''%''"
proof -
  have "(of_char c :: nat) div 16 < 16" using assms(1) by auto
  then show ?thesis
    using assms by (auto simp: form_unit_def percent_def Let_def hex_digit_safe split: if_splits)
qed

lemma form_encode_plain:
  assumes "ascii s" and "d \<in> {CHR ''&'', CHR ''='', CHR '';''}"
  shows "d \<notin> set (form_encode s)"
proof
  assume "d \<in> set (form_encode s)"
  then obtain c where "c \<in> set s" "d \<in> set (form_unit c)" by (auto simp: form_encode_def)
  then have "form_safe (of_char d) \<or> d = CHR ''+'' \<or> d = CHR ''%''"
    using assms(1) form_unit_chars by (auto simp: ascii_def list_all_iff)
  then show False using assms(2) by (auto simp: form_safe_def)
qed

lemma query_pair_encoded:
  assumes "ascii k" "ascii v"
  shows "query_pair (form_encode k @ ''='' @ form_encode v) = Some (k, v)"
proof -
  have k: "\<forall>c \<in> set (form_encode k). c \<noteq> CHR ''=''" using form_encode_plain [OF assms(1)] by auto
  have "CHR '';'' \<notin> set (form_encode k @ ''='' @ form_encode v)"
    using form_encode_plain [OF assms(1)] form_encode_plain [OF assms(2)] by auto
  then show ?thesis
    using k assms by (simp add: query_pair_def takeWhile_append2 dropWhile_append2 unescape_encode)
qed

lemma query_pairs_encoded:
  assumes "\<forall>(k, v) \<in> set ps. ascii k \<and> ascii v"
  shows "List.map_filter query_pair (split_on CHR ''&'' (form_query ps)) = ps"
  using assms
proof (induction ps rule: induct_list012)
  case 1
  then show ?case by (simp add: form_query_def query_pair_def)
next
  case (2 p)
  obtain k v where p: "p = (k, v)" by fastforce
  with 2 have a: "ascii k" "ascii v" by simp_all
  have "CHR ''&'' \<notin> set (form_encode k @ ''='' @ form_encode v)"
    using form_encode_plain [OF a(1)] form_encode_plain [OF a(2)] by auto
  then have "split_on CHR ''&'' (form_query [p]) = [form_encode k @ ''='' @ form_encode v]"
    by (simp add: p form_query_def split_on_plain)
  then show ?case by (simp add: query_pair_encoded [OF a, simplified] p)
next
  case (3 p q ps)
  obtain k v where p: "p = (k, v)" by fastforce
  with 3 have a: "ascii k" "ascii v" by simp_all
  have plain: "CHR ''&'' \<notin> set (form_encode k @ ''='' @ form_encode v)"
    using form_encode_plain [OF a(1)] form_encode_plain [OF a(2)] by auto
  have "form_query (p # q # ps) = (form_encode k @ ''='' @ form_encode v) @ CHR ''&'' # form_query (q # ps)"
    by (simp add: p form_query_def)
  then have "split_on CHR ''&'' (form_query (p # q # ps)) = (form_encode k @ ''='' @ form_encode v) # split_on CHR ''&'' (form_query (q # ps))"
    using split_on_append [OF plain] by simp
  with 3 show ?case by (simp add: query_pair_encoded [OF a, simplified] p)
qed

definition given :: "string option \<Rightarrow> string" where
  "given v = (case v of None \<Rightarrow> [] | Some s \<Rightarrow> s)"

lemma result_filter_read:
  assumes "\<forall>s. ns = Some s \<longrightarrow> ascii s" and "\<forall>s. p = Some s \<longrightarrow> ascii s"
  shows "query_get (''/api/v1'' @ fst (listResults ns p)) ''namespace'' = given ns
    \<and> query_get (''/api/v1'' @ fst (listResults ns p)) ''policy'' = given p"
proof -
  define ps where "ps = (case ns of Some n \<Rightarrow> (if truthy n then [(''namespace'', n)] else []) | None \<Rightarrow> [])
    @ (case p of Some p \<Rightarrow> (if truthy p then [(''policy'', p)] else []) | None \<Rightarrow> [])"
  have url: "url_query (''/api/v1'' @ fst (listResults ns p)) = form_query ps"
    by (simp add: listResults_def Let_def ps_def [symmetric] url_query_def)
  have "\<forall>(k, v) \<in> set ps. ascii k \<and> ascii v"
    using assms by (auto simp: ps_def ascii_def split: option.splits if_splits)
  then have "List.map_filter query_pair (split_on CHR ''&'' (form_query ps)) = ps" by (rule query_pairs_encoded)
  then show ?thesis
    unfolding query_get_def url by (auto simp: ps_def given_def split: option.splits)
qed

text \<open>
  the filter of a result list is read by the server exactly as the client was given it,
  whatever characters of ASCII the namespace and the policy name are made of.
\<close>

theorem result_filter_roundtrip:
  assumes "\<forall>s. ns = Some s \<longrightarrow> ascii s" and "\<forall>s. p = Some s \<longrightarrow> ascii s"
  shows "query_get (''/api/v1'' @ fst (listResults ns p)) ''namespace'' = given ns
    \<and> query_get (''/api/v1'' @ fst (listResults ns p)) ''policy'' = given p"
  using assms by (rule result_filter_read)

theorem result_filter_roundtrip_witness:
  "query_get (''/api/v1'' @ fst (listResults (Some ''a b'') (Some ''x&policy=y+1''))) ''policy'' = ''x&policy=y+1''"
proof -
  have "query_get (''/api/v1'' @ fst (listResults (Some ''a b'') (Some ''x&policy=y+1''))) ''policy'' = given (Some ''x&policy=y+1'')"
    using result_filter_roundtrip [of "Some ''a b''" "Some ''x&policy=y+1''"] by (simp add: ascii_def)
  then show ?thesis by (simp add: given_def)
qed

section \<open>Settings are kept\<close>

lemma distinct_sorted_fields: "distinct (map fst (sort_key f fs)) \<longleftrightarrow> distinct (map fst fs)"
  by (rule mset_eq_imp_distinct_iff) (simp add: mset_map)

lemma wf_sorted: "wf_json v \<Longrightarrow> wf_json (sorted_json v)"
proof (induction v rule: sorted_json.induct)
  case (1 fs)
  have keys: "map fst (map (\<lambda>(k, v). (k, sorted_json v)) fs) = map fst fs" by (simp add: case_prod_beta comp_def)
  have "distinct (map fst (sort_key fst (map (\<lambda>(k, v). (k, sorted_json v)) fs)))"
    using 1(2) unfolding distinct_sorted_fields keys by simp
  with 1 show ?case by (auto simp: list_all_iff)
qed (auto simp: list_all_iff)

lemma sorted_json_idem: "sorted_json (sorted_json v) = sorted_json v"
proof (induction v rule: sorted_json.induct)
  case (1 fs)
  have "map (\<lambda>(k, v). (k, sorted_json v)) (sort_key fst (map (\<lambda>(k, v). (k, sorted_json v)) fs))
      = sort_key fst (map (\<lambda>(k, v). (k, sorted_json v)) fs)"
    using 1 by (intro map_idI) auto
  then show ?case by (simp add: sort_key_id_if_sorted)
qed auto

lemma is_map_sorted: "is_map v \<Longrightarrow> is_map (sorted_json v)"
  by (cases v) (simp_all add: is_map_def)

lemma sorted_settings_read: "wf_json v \<Longrightarrow> is_map v \<Longrightarrow>
  k_getConfigMap (sv_k8s sv) c settings_key = Inr (Some m) \<Longrightarrow> map_of m ''settings.json'' = Some (Marshal (sorted_json v)) \<Longrightarrow>
  GetSettings sv r c = (c, Some (writeJSON 200 (sorted_json v)))"
  by (simp add: GetSettings_def unmarshal_marshal wf_sorted is_map_sorted sorted_json_idem)

lemma error_status: "rs_status (writeError s m) = s"
  by (simp add: writeError_def writeJSON_def)

text \<open>
  C25: settings are kept: after an update answered with 200, reading the settings returns the
  object that was sent, with its keys in order.  What the cluster must provide: a ConfigMap
  created or updated without an error is read back with the data given.
\<close>

theorem settings_are_kept:
  assumes create: "\<And>data c c1. k_createConfigMap (sv_k8s sv) settings_key data c = (c1, None) \<Longrightarrow>
      k_getConfigMap (sv_k8s sv) c1 settings_key = Inr (Some data)"
    and update: "\<And>data c c1. k_updateConfigMap (sv_k8s sv) settings_key data c = (c1, None) \<Longrightarrow>
      k_getConfigMap (sv_k8s sv) c1 settings_key = Inr (Some data)"
    and sent: "rq_body r = Some v" "wf_json v"
    and ok: "UpdateSettings sv r c = (c1, Some resp)" "rs_status resp = 200"
  shows "resp = writeJSON 200 (sorted_json v) \<and> GetSettings sv r' c1 = (c1, Some (writeJSON 200 (sorted_json v)))"
proof -
  have m: "is_map v" using ok sent(1) by (auto simp: UpdateSettings_def bad_body_def error_status split: if_splits)
  have "resp = writeJSON 200 (sorted_json v) \<and>
     (\<exists>data. k_getConfigMap (sv_k8s sv) c1 settings_key = Inr (Some data) \<and> map_of data ''settings.json'' = Some (Marshal (sorted_json v)))"
  proof (cases "k_getConfigMap (sv_k8s sv) c settings_key")
    case (Inl e)
    then show ?thesis
      using ok m sent(1) create
      by (cases e) (auto simp: UpdateSettings_def Let_def error_status split: prod.splits option.splits)
  next
    case (Inr d)
    then show ?thesis
      using ok m sent(1) update
      by (cases d) (auto simp: UpdateSettings_def Let_def error_status update_conv' split: prod.splits option.splits)
  qed
  then show ?thesis using sorted_settings_read [OF sent(2) m, of sv c1] by auto
qed

text \<open>A cluster that holds ConfigMaps and nothing else.\<close>

definition map_cluster :: "(object_key \<rightharpoonup> (string \<times> string) list) k8s" where
  "map_cluster = \<lparr>k_listPolicies = (\<lambda>c n. Inr []), k_getPolicy = (\<lambda>c k. Inl (NotFound [])),
     k_createPolicy = (\<lambda>p c. (c, Inl (Failure []))), k_updatePolicy = (\<lambda>p c. (c, Inl (Failure []))),
     k_deletePolicy = (\<lambda>k c. (c, Some (NotFound []))), k_listResults = (\<lambda>c n p. Inr []), k_getResult = (\<lambda>c k. Inl (NotFound [])),
     k_getConfigMap = (\<lambda>c k. case c k of None \<Rightarrow> Inl (NotFound []) | Some d \<Rightarrow> Inr (Some d)),
     k_createConfigMap = (\<lambda>k d c. (c(k \<mapsto> d), None)), k_updateConfigMap = (\<lambda>k d c. (c(k \<mapsto> d), None)),
     k_listNamespaces = (\<lambda>c. Inr []), k_listDeployments = (\<lambda>c n. Inr []), k_listStatefulSets = (\<lambda>c n. Inr []),
     k_listDaemonSets = (\<lambda>c n. Inr [])\<rparr>"

definition demo_wire :: wire where
  "demo_wire = \<lparr>wi_time = (\<lambda>t. if t = 0 then JNull else JStr (rfc3339 (Unix t))), wi_decode_time = (\<lambda>v. None),
     wi_condition = (\<lambda>c. JObj [(''type'', JStr (cond_Type c)), (''status'', JStr (cond_Status c)),
       (''lastTransitionTime'', if cond_LastTransitionTime c = 0 then JNull else JStr (rfc3339 (Unix (cond_LastTransitionTime c)))),
       (''reason'', JStr (cond_Reason c)), (''message'', JStr (cond_Message c))]), wi_decode_condition = (\<lambda>v. None),
     wi_raw = (\<lambda>s. case go_parse s of Some v \<Rightarrow> v | None \<Rightarrow> JNull)\<rparr>"

definition demo_server :: "'c k8s \<Rightarrow> 'c server" where
  "demo_server k = \<lparr>sv_auth = demo_auth, sv_k8s = k, sv_namespace = ''dtm-system'', sv_meta = (\<lambda>m. JObj []),
     sv_decode_meta = (\<lambda>v. None), sv_wire = demo_wire, sv_static = (\<lambda>p. None), sv_index = status_ok, sv_decode_error = (\<lambda>b. []), sv_parse_error = (\<lambda>s. [])\<rparr>"

theorem settings_are_kept_witness:
  "\<exists>c1. GetSettings (demo_server map_cluster) (token_request ''/api/v1/settings'' []) c1
     = (c1, Some (writeJSON 200 (sorted_json (JObj [(''url'', JStr ''https://x/?a=1&b=2''), (''retention'', JNum 30)]))))"
proof -
  let ?v = "JObj [(''url'', JStr ''https://x/?a=1&b=2''), (''retention'', JNum 30)]"
  let ?sv = "demo_server map_cluster"
  let ?r = "\<lparr>rq_url = ''/api/v1/settings'', rq_method = ''PUT'', rq_headers = [], rq_body = Some ?v\<rparr>"
  let ?c1 = "Map.empty(settings_key \<mapsto> [(''settings.json'', Marshal (sorted_json ?v))])"
  have "UpdateSettings ?sv ?r Map.empty = (?c1, Some (writeJSON 200 (sorted_json ?v)))"
    by (simp add: UpdateSettings_def demo_server_def map_cluster_def is_map_def Let_def del: sorted_json.simps)
  moreover have "rs_status (writeJSON 200 (sorted_json ?v)) = 200" by (simp add: writeJSON_def)
  ultimately have "GetSettings ?sv (token_request ''/api/v1/settings'' []) ?c1 = (?c1, Some (writeJSON 200 (sorted_json ?v)))"
    using settings_are_kept [of ?sv ?r ?v Map.empty ?c1]
    by (auto simp: demo_server_def map_cluster_def)
  then show ?thesis by blast
qed

section \<open>Without a token nothing leaks\<close>

definition public_route :: "route \<Rightarrow> bool" where
  "public_route r \<longleftrightarrow> r \<in> {RLogin, RHealthz, RRedirect, RUI}"

lemma list_of_five: "length segs = 5 \<Longrightarrow> \<exists>a b c d e. segs = [a, b, c, d, e]"
  by (auto simp: eval_nat_numeral length_Suc_conv)

lemma match_private:
  assumes "\<not> public_route (match_route m segs)"
  shows "\<exists>x xs qs. segs = ''api'' # ''v1'' # (x # xs) # qs \<and> x \<noteq> CHR ''l''"
proof (rule ccontr)
  assume n: "\<not> ?thesis"
  then have n': "segs \<noteq> ''api'' # ''v1'' # (x # xs) # qs" if "x \<noteq> CHR ''l''" for x xs qs using that by blast
  have lists: "segs \<noteq> ''api'' # ''v1'' # [''policies'']" "segs \<noteq> ''api'' # ''v1'' # [''results'']" "segs \<noteq> ''api'' # ''v1'' # [''settings'']"
    "segs \<noteq> ''api'' # ''v1'' # [''cluster'', ''namespaces'']" "segs \<noteq> ''api'' # ''v1'' # [''cluster'', ''resources'']"
    "segs \<noteq> ''api'' # ''v1'' # [''info'']" "segs \<noteq> ''api'' # ''v1'' # [''auth'', ''check'']"
    by (rule n', simp)+
  have objects: "\<not> object_path (x # xs) segs" if "x \<noteq> CHR ''l''" for x xs
  proof
    assume o: "object_path (x # xs) segs"
    then have "length segs = 5" by (simp add: object_path_def)
    then obtain a c d e f where "segs = [a, c, d, e, f]" using list_of_five by blast
    with o have "segs = ''api'' # ''v1'' # (x # xs) # [e, f]" by (simp add: object_path_def eval_nat_numeral)
    with n' [OF that] show False by blast
  qed
  have "\<not> object_path ''policies'' segs" "\<not> object_path ''results'' segs" "\<not> object_path ''run'' segs"
    by (rule objects, simp)+
  then have "match_route m segs \<in> {RLogin, RHealthz, RUI}"
    unfolding match_route_def Let_def using lists by simp
  then show False using assms by (auto simp: public_route_def)
qed

lemma private_path:
  assumes "parse_target u = Some (path, escaped)" and "\<not> public_route (mux m escaped)"
  shows "startsWith path ''/api/'' \<and> path \<noteq> ''/api/v1/login''"
proof -
  have "\<not> public_route (match_route m (path_segments escaped))"
    using assms(2) by (auto simp: mux_def public_route_def split: if_splits)
  then obtain x xs qs where "path_segments escaped = ''api'' # ''v1'' # (x # xs) # qs" "x \<noteq> CHR ''l''"
    using match_private by blast
  then show ?thesis using decoded_path [OF assms(1)] by (simp add: startsWith_def)
qed

lemma public_answer: "public_route rt \<Longrightarrow> \<exists>x. \<forall>c. handle sv now rt r c = (c, Some x)"
  by (auto simp: public_route_def)

text \<open>
  C2: with credentials configured, a request without a valid token neither changes the cluster nor
  learns anything of it: its answer is the same in every state of the cluster, whatever the
  method and the target, percent escapes included.
\<close>

theorem no_token_no_access:
  assumes "au_user (sv_auth sv) \<noteq> [] \<or> au_pass (sv_auth sv) \<noteq> []"
    and "\<not> bearer_valid (sv_auth sv) now r"
  shows "\<exists>x. \<forall>c. serve sv now r c = (c, Some x)"
proof (cases "parse_target (rq_url r) = None \<or> rq_method r = ''OPTIONS''")
  case False
  then obtain path escaped where t: "parse_target (rq_url r) = Some (path, escaped)" by auto
  then have p: "url_path (rq_url r) = path" "escaped_path (rq_url r) = escaped" by (simp_all add: url_path_def escaped_path_def)
  show ?thesis
  proof (cases "public_route (mux (rq_method r) escaped)")
    case True
    from public_answer [OF this, of sv now r] obtain x where x: "\<And>c. serve_mux sv now r c = (c, Some x)"
      unfolding serve_mux_def p by blast
    show ?thesis
      using x False assms by (cases "path = ''/healthz'' \<or> path = ''/api/v1/login'' \<or> \<not> startsWith path ''/api/''")
        (auto simp: serve_def corsMiddleware_def JWTAuthMiddleware_def Let_def p)
  next
    case hidden: False
    then show ?thesis
      using private_path [OF t hidden] False assms by (auto simp: serve_def corsMiddleware_def JWTAuthMiddleware_def Let_def p startsWith_def)
  qed
next
  case True
  then consider "parse_target (rq_url r) = None" | "parse_target (rq_url r) \<noteq> None" "rq_method r = ''OPTIONS''" by linarith
  then show ?thesis by cases (auto simp: serve_def corsMiddleware_def)
qed

theorem no_token_no_access_witness:
  "\<exists>x. \<forall>c. serve (demo_server map_cluster) 0 \<lparr>rq_url = ''/%61pi/v1/settings'', rq_method = ''PUT'', rq_headers = [],
     rq_body = Some (JObj [])\<rparr> c = (c, Some x)"
  by (rule no_token_no_access)
    (simp_all add: demo_server_def demo_auth_def startsWith_def bearer_valid_def header_get_def)

text \<open>An escaped letter does not lead around the middleware: the multiplexer and the middleware decode alike.\<close>

lemma escaped_api_path:
  "mux ''PUT'' (escaped_path ''/%61pi/v1/settings'') = RUpdateSettings \<and> url_path ''/%61pi/v1/settings'' = ''/api/v1/settings''
   \<and> mux ''GET'' (escaped_path ''/api%2Fv1/settings'') = RUI \<and> url_path ''/api%2Fv1/settings'' = ''/api/v1/settings''"
  by code_simp

text \<open>
  With a user name but an empty password the key of the signature is empty, and anyone can sign a
  token that the server accepts.
\<close>

lemma empty_password_forgeable:
  assumes "au_pass env = []" and "\<bar>now\<bar> \<le> 2 ^ 53"
  shows "bearer_valid env now (token_request url (signJWT \<lparr>jc_Sub = s, jc_Exp = now, jc_Iat = 0\<rparr> []))"
  using assms by (simp add: token_request_valid verify_signed sendable_def)

end
