(* ===== verification/Reading.thy ===== *)
theory Reading
  imports Server Results
begin

text \<open>
  The interfaces of \<open>client.ts\<close> as readings of JSON: a value that is not of the declared type is
  not read (\<open>None\<close>).  The answers of the server to the list calls are followed from the objects
  in the cluster to the records of the pages.
\<close>

section \<open>Reading the types of the client\<close>

fun as_str :: "json \<Rightarrow> string option" where
  "as_str (JStr s) = Some s"
| "as_str _ = None"

fun as_num :: "json \<Rightarrow> int option" where
  "as_num (JNum n) = Some n"
| "as_num _ = None"

fun as_list :: "(json \<Rightarrow> 'a option) \<Rightarrow> json \<Rightarrow> 'a list option" where
  "as_list d (JArr vs) = de_all d vs"
| "as_list d _ = None"

text \<open>A property that must be present, and one that may be missing.\<close>

definition required :: "(json \<Rightarrow> 'a option) \<Rightarrow> string \<Rightarrow> json \<Rightarrow> 'a option" where
  "required d k v = Option.bind (jget k v) d"

definition optional :: "(json \<Rightarrow> 'a option) \<Rightarrow> string \<Rightarrow> json \<Rightarrow> 'a option option" where
  "optional d k v = (case jget k v of None \<Rightarrow> Some None | Some x \<Rightarrow> map_option Some (d x))"

definition read_meta :: "json \<Rightarrow> ObjectMeta option" where
  "read_meta v = do {
     n \<leftarrow> required as_str ''name'' v;
     ns \<leftarrow> required as_str ''namespace'' v;
     t \<leftarrow> required as_str ''creationTimestamp'' v;
     Some \<lparr>m_name = n, m_namespace = ns, m_creationTimestamp = t\<rparr>}"

definition read_summary :: "json \<Rightarrow> Summary option" where
  "read_summary v = do {
     t \<leftarrow> required as_num ''total'' v;
     p \<leftarrow> required as_num ''pass'' v;
     w \<leftarrow> required as_num ''warn'' v;
     f \<leftarrow> required as_num ''fail'' v;
     Some \<lparr>s_total = t, s_pass = p, s_warn = w, s_fail = f\<rparr>}"

definition read_tool_call :: "json \<Rightarrow> ToolCall option" where
  "read_tool_call v = do {
     n \<leftarrow> required as_str ''toolName'' v;
     i \<leftarrow> jget ''input'' v;
     out \<leftarrow> required as_str ''output'' v;
     Some \<lparr>toolName = n, tc_input = i, tc_output = out\<rparr>}"

definition read_check_result :: "json \<Rightarrow> CheckResult option" where
  "read_check_result v = do {
     i \<leftarrow> required as_str ''id'' v;
     d \<leftarrow> required as_str ''description'' v;
     x \<leftarrow> required as_str ''verdict'' v;
     r \<leftarrow> required as_str ''reasoning'' v;
     s \<leftarrow> optional as_str ''severity'' v;
     f \<leftarrow> optional as_str ''failedSince'' v;
     e \<leftarrow> optional (optional (as_list read_tool_call) ''toolCalls'') ''evidence'' v;
     Some \<lparr>cr_id = i, cr_description = d, cr_verdict = x, cr_reasoning = r, cr_severity = s, cr_failedSince = f,
           cr_toolCalls = Option.bind e (\<lambda>ts. ts)\<rparr>}"

definition read_result_spec :: "json \<Rightarrow> ResultSpec option" where
  "read_result_spec v = do {
     p \<leftarrow> required as_str ''policyRef'' v;
     t \<leftarrow> required as_str ''scanType'' v;
     a \<leftarrow> required as_str ''startedAt'' v;
     c \<leftarrow> optional as_str ''completedAt'' v;
     ks \<leftarrow> optional (as_list read_check_result) ''checks'' v;
     s \<leftarrow> optional read_summary ''summary'' v;
     Some \<lparr>policyRef = p, scanType = t, startedAt = a, completedAt = c, r_checks = ks, r_summary = s\<rparr>}"

definition read_result :: "json \<Rightarrow> ChecklistResult option" where
  "read_result v = do {
     m \<leftarrow> required read_meta ''metadata'' v;
     s \<leftarrow> required read_result_spec ''spec'' v;
     p \<leftarrow> optional (required as_str ''phase'') ''status'' v;
     Some \<lparr>r_metadata = m, r_spec = s, r_phase = p\<rparr>}"

definition read_check_item :: "json \<Rightarrow> CheckItem option" where
  "read_check_item v = do {
     i \<leftarrow> required as_str ''id'' v;
     d \<leftarrow> required as_str ''description'' v;
     s \<leftarrow> required as_str ''severity'' v;
     Some \<lparr>ci_id = i, ci_description = d, ci_severity = s\<rparr>}"

definition read_schedule :: "json \<Rightarrow> ScheduleConfig option" where
  "read_schedule v = do {
     f \<leftarrow> required as_str ''fullScan'' v;
     r \<leftarrow> optional as_str ''failedRescan'' v;
     Some \<lparr>fullScan = f, failedRescan = r\<rparr>}"

definition read_secret :: "json \<Rightarrow> SecretRef option" where
  "read_secret v = do {
     n \<leftarrow> required as_str ''name'' v;
     k \<leftarrow> optional as_str ''key'' v;
     Some \<lparr>sr_name = n, sr_key = k\<rparr>}"

definition read_llm :: "json \<Rightarrow> LLMConfig option" where
  "read_llm v = do {
     p \<leftarrow> required as_str ''provider'' v;
     m \<leftarrow> optional as_str ''model'' v;
     s \<leftarrow> required read_secret ''secretRef'' v;
     Some \<lparr>provider = p, model = m, secretRef = s\<rparr>}"

definition read_policy_spec :: "json \<Rightarrow> PolicySpec option" where
  "read_policy_spec v = do {
     s \<leftarrow> required read_schedule ''schedule'' v;
     l \<leftarrow> required read_llm ''llm'' v;
     ks \<leftarrow> required (as_list read_check_item) ''checks'' v;
     t \<leftarrow> optional (as_list as_str) ''targetNamespaces'' v;
     e \<leftarrow> optional as_num ''escalationThreshold'' v;
     Some \<lparr>schedule = s, llm = l, checks = ks, targetNamespaces = t, notification = jget ''notification'' v, escalationThreshold = e\<rparr>}"

definition read_condition :: "json \<Rightarrow> Condition option" where
  "read_condition v = do {
     t \<leftarrow> required as_str ''type'' v;
     s \<leftarrow> required as_str ''status'' v;
     r \<leftarrow> required as_str ''reason'' v;
     m \<leftarrow> required as_str ''message'' v;
     l \<leftarrow> optional as_str ''lastTransitionTime'' v;
     Some \<lparr>c_type = t, c_status = s, c_reason = r, c_message = m, c_lastTransitionTime = l\<rparr>}"

definition read_status :: "json \<Rightarrow> PolicyStatus option" where
  "read_status v = do {
     f \<leftarrow> optional as_str ''lastFullScanTime'' v;
     r \<leftarrow> optional as_str ''lastRescanTime'' v;
     n \<leftarrow> optional as_str ''lastResultName'' v;
     s \<leftarrow> optional read_summary ''summary'' v;
     cs \<leftarrow> optional (as_list read_condition) ''conditions'' v;
     Some \<lparr>lastFullScanTime = f, lastRescanTime = r, lastResultName = n, p_summary = s, conditions = cs\<rparr>}"

definition read_policy :: "json \<Rightarrow> ChecklistPolicy option" where
  "read_policy v = do {
     m \<leftarrow> required read_meta ''metadata'' v;
     s \<leftarrow> required read_policy_spec ''spec'' v;
     t \<leftarrow> optional read_status ''status'' v;
     Some \<lparr>p_metadata = m, p_spec = s, p_status = t\<rparr>}"

section \<open>The objects of the operator as the pages have them\<close>

definition shown_time :: "int \<Rightarrow> string" where
  "shown_time t = rfc3339 (Unix t)"

definition shown_str :: "string \<Rightarrow> string option" where
  "shown_str s = (if s = [] then None else Some s)"

definition shown_list :: "('a \<Rightarrow> 'b) \<Rightarrow> 'a list \<Rightarrow> 'b list option" where
  "shown_list f xs = (if xs = [] then None else Some (map f xs))"

definition shown_meta :: "(ObjectMetaV1 \<Rightarrow> string) \<Rightarrow> ObjectMetaV1 \<Rightarrow> ObjectMeta" where
  "shown_meta born m = \<lparr>m_name = om_Name m, m_namespace = om_Namespace m, m_creationTimestamp = born m\<rparr>"

definition shown_summary :: "ScanSummary \<Rightarrow> Summary" where
  "shown_summary s = \<lparr>s_total = sint (sum_Total s), s_pass = sint (sum_Pass s), s_warn = sint (sum_Warn s), s_fail = sint (sum_Fail s)\<rparr>"

definition shown_tool_call :: "wire \<Rightarrow> ToolCallRecordV1 \<Rightarrow> ToolCall" where
  "shown_tool_call W t = \<lparr>toolName = tcr_ToolName t, tc_input = wi_raw W (tcr_Input t), tc_output = tcr_Output t\<rparr>"

definition shown_check :: "wire \<Rightarrow> CheckResultV1 \<Rightarrow> CheckResult" where
  "shown_check W c =
     \<lparr>cr_id = cres_ID c, cr_description = cres_Description c, cr_verdict = cres_Verdict c, cr_reasoning = cres_Reasoning c,
      cr_severity = shown_str (cres_Severity c), cr_failedSince = map_option shown_time (cres_FailedSince c),
      cr_toolCalls = Option.bind (cres_Evidence c) (shown_list (shown_tool_call W))\<rparr>"

definition shown_result :: "wire \<Rightarrow> (ObjectMetaV1 \<Rightarrow> string) \<Rightarrow> ChecklistResultV1 \<Rightarrow> ChecklistResult" where
  "shown_result W born r =
     \<lparr>r_metadata = shown_meta born (cr_Meta r),
      r_spec = \<lparr>policyRef = rs_PolicyRef (cr_Spec r), scanType = rs_ScanType (cr_Spec r),
                startedAt = shown_time (rs_StartedAt (cr_Spec r)), completedAt = map_option shown_time (rs_CompletedAt (cr_Spec r)),
                r_checks = shown_list (shown_check W) (rs_Checks (cr_Spec r)), r_summary = map_option shown_summary (rs_Summary (cr_Spec r))\<rparr>,
      r_phase = shown_str (cr_Phase r)\<rparr>"

definition shown_secret :: "SecretReference \<Rightarrow> SecretRef" where
  "shown_secret s = \<lparr>sr_name = sec_Name s, sr_key = shown_str (sec_Key s)\<rparr>"

definition shown_item :: "CheckItemV1 \<Rightarrow> CheckItem" where
  "shown_item c = \<lparr>ci_id = ci_ID c, ci_description = ci_Description c, ci_severity = ci_Severity c\<rparr>"

definition shown_spec :: "ChecklistPolicySpec \<Rightarrow> PolicySpec" where
  "shown_spec s =
     \<lparr>schedule = \<lparr>fullScan = sch_FullScan (ps_Schedule s), failedRescan = shown_str (sch_FailedRescan (ps_Schedule s))\<rparr>,
      llm = \<lparr>provider = llm_Provider (ps_LLM s), model = shown_str (llm_Model (ps_LLM s)), secretRef = shown_secret (llm_SecretRef (ps_LLM s))\<rparr>,
      checks = map shown_item (ps_Checks s), targetNamespaces = shown_list (\<lambda>n. n) (ps_TargetNamespaces s),
      notification = map_option encode_notification (ps_Notification s), escalationThreshold = map_option sint (ps_EscalationThreshold s)\<rparr>"

definition shown_condition :: "ConditionV1 \<Rightarrow> Condition" where
  "shown_condition c =
     \<lparr>c_type = cond_Type c, c_status = cond_Status c, c_reason = cond_Reason c, c_message = cond_Message c,
      c_lastTransitionTime = Some (shown_time (cond_LastTransitionTime c))\<rparr>"

definition shown_status :: "ChecklistPolicyStatus \<Rightarrow> PolicyStatus option" where
  "shown_status s =
     (if s = zero_status then None
      else Some \<lparr>lastFullScanTime = map_option shown_time (pst_LastFullScanTime s), lastRescanTime = map_option shown_time (pst_LastRescanTime s),
             lastResultName = shown_str (pst_LastResultName s), p_summary = map_option shown_summary (pst_Summary s),
             conditions = shown_list shown_condition (pst_Conditions s)\<rparr>)"

definition shown_policy :: "(ObjectMetaV1 \<Rightarrow> string) \<Rightarrow> ChecklistPolicyV1 \<Rightarrow> ChecklistPolicy" where
  "shown_policy born p = \<lparr>p_metadata = shown_meta born (cp_Meta p), p_spec = shown_spec (cp_Spec p), p_status = shown_status (cp_Status p)\<rparr>"

section \<open>Reading what the server writes\<close>

text \<open>
  What Kubernetes documents of its types: a time that is not zero is written as RFC 3339 in UTC to
  the second; a condition is an object with the fields of \<open>metav1.Condition\<close>, whose
  \<open>observedGeneration\<close> is left out as the operator sets none; and the metadata of an object with a
  name and a namespace, as every stored object of a namespaced kind has them, are an object with its
  name, its namespace and its creation time.
\<close>

definition wire_times :: "wire \<Rightarrow> bool" where
  "wire_times W \<longleftrightarrow> (\<forall>t. t \<noteq> 0 \<longrightarrow> wi_time W t = JStr (rfc3339 (Unix t)))"

definition wire_conditions :: "wire \<Rightarrow> bool" where
  "wire_conditions W \<longleftrightarrow>
     (\<forall>c. wi_condition W c = JObj [(''type'', JStr (cond_Type c)), (''status'', JStr (cond_Status c)),
        (''lastTransitionTime'', wi_time W (cond_LastTransitionTime c)), (''reason'', JStr (cond_Reason c)), (''message'', JStr (cond_Message c))])"

definition named_object :: "ObjectMetaV1 \<Rightarrow> bool" where
  "named_object m \<longleftrightarrow> om_Name m \<noteq> [] \<and> om_Namespace m \<noteq> []"

definition meta_read :: "(ObjectMetaV1 \<Rightarrow> json) \<Rightarrow> (ObjectMetaV1 \<Rightarrow> string) \<Rightarrow> bool" where
  "meta_read meta born \<longleftrightarrow>
     (\<forall>m. named_object m \<longrightarrow> jget ''name'' (meta m) = Some (JStr (om_Name m)) \<and> jget ''namespace'' (meta m) = Some (JStr (om_Namespace m))
        \<and> jget ''creationTimestamp'' (meta m) = Some (JStr (born m)))"

definition times_set :: "ChecklistResultV1 \<Rightarrow> bool" where
  "times_set r \<longleftrightarrow>
     rs_StartedAt (cr_Spec r) \<noteq> 0 \<and> rs_CompletedAt (cr_Spec r) \<noteq> Some 0
     \<and> list_all (\<lambda>c. cres_FailedSince c \<noteq> Some 0) (rs_Checks (cr_Spec r))"

lemmas read_simps = required_def optional_def opt_field_def nonempty_str_def nonempty_list_def shown_str_def shown_list_def

lemma wire_time: "wire_times W \<Longrightarrow> t \<noteq> 0 \<Longrightarrow> wi_time W t = JStr (shown_time t)"
  by (simp add: wire_times_def shown_time_def)

lemma read_object_meta: "meta_read meta born \<Longrightarrow> named_object m \<Longrightarrow> read_meta (meta m) = Some (shown_meta born m)"
  by (simp add: meta_read_def read_meta_def required_def shown_meta_def)

lemma read_encoded_summary: "read_summary (encode_summary s) = Some (shown_summary s)"
  by (simp add: read_summary_def encode_summary_def shown_summary_def read_simps)

lemma read_encoded_tool_call: "read_tool_call (encode_tool_call W t) = Some (shown_tool_call W t)"
  by (simp add: read_tool_call_def encode_tool_call_def shown_tool_call_def read_simps)

lemma read_encoded_calls: "de_all read_tool_call (map (encode_tool_call W) ts) = Some (map (shown_tool_call W) ts)"
  by (rule de_all_map) (rule read_encoded_tool_call)

lemma read_encoded_evidence:
  "optional (as_list read_tool_call) ''toolCalls'' (encode_evidence W ts) = Some (shown_list (shown_tool_call W) ts)"
  by (simp add: encode_evidence_def read_simps read_encoded_calls)

lemma read_encoded_check:
  assumes "wire_times W" "cres_FailedSince c \<noteq> Some 0"
  shows "read_check_result (encode_check_result W c) = Some (shown_check W c)"
  using assms
  by (cases "cres_Evidence c"; cases "cres_FailedSince c"; cases "cres_Severity c")
    (simp_all add: read_check_result_def encode_check_result_def shown_check_def required_def optional_def [of _ "''severity''"]
      optional_def [of _ "''failedSince''"] optional_def [of _ "''evidence''"] opt_field_def nonempty_str_def shown_str_def
      read_encoded_evidence wire_time)

lemma read_encoded_spec:
  assumes "wire_times W" "times_set r"
  shows "read_result_spec (encode_result_spec W (cr_Spec r)) = Some (r_spec (shown_result W born r))"
proof -
  have "de_all read_check_result (map (encode_check_result W) (rs_Checks (cr_Spec r))) = Some (map (shown_check W) (rs_Checks (cr_Spec r)))"
    using assms by (intro de_all_map read_encoded_check) (auto simp: times_set_def list_all_iff)
  then show ?thesis
    using assms
    by (cases "rs_CompletedAt (cr_Spec r)"; cases "rs_Summary (cr_Spec r)")
      (simp_all add: read_result_spec_def encode_result_spec_def shown_result_def read_simps read_encoded_summary wire_time times_set_def)
qed

lemma read_encoded_result:
  assumes "wire_times W" "meta_read meta born" "times_set r" "named_object (cr_Meta r)"
  shows "read_result (encode_result W meta r) = Some (shown_result W born r)"
  using read_encoded_spec [OF assms(1,3), of born] read_object_meta [OF assms(2,4)]
  by (simp add: read_result_def encode_result_def shown_result_def read_simps)

text \<open>A check of a stored policy has a severity, by the default of the schema.\<close>

definition severities_set :: "ChecklistPolicyV1 \<Rightarrow> bool" where
  "severities_set p \<longleftrightarrow> list_all (\<lambda>c. ci_Severity c \<noteq> []) (ps_Checks (cp_Spec p))"

text \<open>The times in a status are set.\<close>

definition status_timed :: "ChecklistPolicyStatus \<Rightarrow> bool" where
  "status_timed s \<longleftrightarrow>
     pst_LastFullScanTime s \<noteq> Some 0 \<and> pst_LastRescanTime s \<noteq> Some 0
     \<and> list_all (\<lambda>c. cond_LastTransitionTime c \<noteq> 0) (pst_Conditions s)"

lemma read_encoded_condition:
  assumes "wire_times W" "wire_conditions W" "cond_LastTransitionTime c \<noteq> 0"
  shows "read_condition (wi_condition W c) = Some (shown_condition c)"
  using assms by (simp add: read_condition_def wire_conditions_def required_def optional_def wire_time shown_condition_def)

lemma read_encoded_item: "ci_Severity c \<noteq> [] \<Longrightarrow> read_check_item (encode_check c) = Some (shown_item c)"
  by (simp add: read_check_item_def encode_check_def shown_item_def read_simps)

lemma read_encoded_schedule:
  "read_schedule (encode_schedule s) = Some \<lparr>fullScan = sch_FullScan s, failedRescan = shown_str (sch_FailedRescan s)\<rparr>"
  by (simp add: read_schedule_def encode_schedule_def read_simps)

lemma read_encoded_secret: "read_secret (encode_secret s) = Some (shown_secret s)"
  by (simp add: read_secret_def encode_secret_def shown_secret_def read_simps)

lemma read_encoded_llm:
  "read_llm (encode_llm l) = Some \<lparr>provider = llm_Provider l, model = shown_str (llm_Model l), secretRef = shown_secret (llm_SecretRef l)\<rparr>"
  by (simp add: read_llm_def encode_llm_def read_simps read_encoded_secret)

lemma read_strings: "de_all as_str (map JStr xs) = Some xs"
  using de_all_map [of xs as_str JStr "\<lambda>x. x"] by simp

lemma read_encoded_policy_spec:
  assumes "severities_set p"
  shows "read_policy_spec (encode_spec (cp_Spec p)) = Some (shown_spec (cp_Spec p))"
proof -
  have "de_all read_check_item (map encode_check (ps_Checks (cp_Spec p))) = Some (map shown_item (ps_Checks (cp_Spec p)))"
    using assms by (intro de_all_map read_encoded_item) (simp add: severities_set_def list_all_iff)
  then show ?thesis
    by (cases "ps_Notification (cp_Spec p)"; cases "ps_EscalationThreshold (cp_Spec p)")
      (simp_all add: read_policy_spec_def encode_spec_def shown_spec_def read_simps read_encoded_schedule read_encoded_llm read_strings)
qed

lemma read_encoded_status:
  assumes "wire_times W" "wire_conditions W" "status_timed s"
  shows "optional read_status ''status'' (JObj ([(''metadata'', m), (''spec'', x)] @ status_field W s)) = Some (shown_status s)"
proof (cases "s = zero_status")
  case False
  have "de_all read_condition (map (wi_condition W) (pst_Conditions s)) = Some (map shown_condition (pst_Conditions s))"
    using assms(3) by (intro de_all_map read_encoded_condition [OF assms(1,2)]) (simp add: status_timed_def list_all_iff)
  then have "read_status (encode_status W s) = shown_status s"
    using assms False
    by (cases "pst_LastFullScanTime s"; cases "pst_LastRescanTime s"; cases "pst_Summary s")
      (simp_all add: read_status_def encode_status_def shown_status_def read_simps read_encoded_summary wire_time status_timed_def)
  then show ?thesis using False by (simp add: status_field_def optional_def shown_status_def)
qed (simp add: status_field_def optional_def shown_status_def)

lemma read_encoded_policy:
  assumes "wire_times (sv_wire sv)" "wire_conditions (sv_wire sv)" "meta_read (sv_meta sv) born"
    and "named_object (cp_Meta p)" "severities_set p" "status_timed (cp_Status p)"
  shows "read_policy (encode_policy sv p) = Some (shown_policy born p)"
proof -
  have "required read_meta ''metadata'' (encode_policy sv p) = Some (shown_meta born (cp_Meta p))"
    "required read_policy_spec ''spec'' (encode_policy sv p) = Some (shown_spec (cp_Spec p))"
    using read_object_meta [OF assms(3,4)] read_encoded_policy_spec [OF assms(5)] by (simp_all add: encode_policy_def required_def)
  moreover have "optional read_status ''status'' (encode_policy sv p) = Some (shown_status (cp_Status p))"
    unfolding encode_policy_def by (rule read_encoded_status [OF assms(1,2,6)])
  ultimately show ?thesis by (simp add: read_policy_def shown_policy_def)
qed

end
