(* ===== verification/Timing.thy ===== *)
theory Timing
  imports Operator Reading
begin

text \<open>
  The times in what a scan reports: the engine sets no time on a result, the store gives a failing
  check the time of its first failure, so the times of a result are those the clock showed.
\<close>

section \<open>Results of the engine\<close>

abbreviation untimed :: "CheckResultV1 list \<Rightarrow> bool" where
  "untimed rs \<equiv> list_all (\<lambda>r. cres_FailedSince r = None) rs"

lemma untimed_round: "untimed (snd (round_of cx cks i sc))"
  by (auto simp: round_of_def verify_batch_def verify_single_def verify_many_def base_result_def answered_result_def batch_result_def
      case_prod_beta Let_def list_all_iff split: list.split sum.split)

lemma untimed_batches: "untimed results \<Longrightarrow> untimed (snd (run_batches cx cks i sc results))"
proof (induction i sc results rule: run_batches_rounds [of cks _ cx])
  case (round i sc results)
  then show ?case using untimed_round [of cx cks i sc] by (simp add: run_batches_step(1))
qed (simp add: run_batches_step(2))

lemma untimed_results: "untimed (run_results env policy cks eng)"
proof (cases "reusable eng (policyKey policy) (hashSnapshot (scan_snapshot env)) cks")
  case None
  then show ?thesis by (simp add: run_results_def fresh_scan_def untimed_batches)
qed (simp add: run_results_def list_all_iff reused_result_def base_result_def)

section \<open>Times of the store\<close>

text \<open>A failing check has the time of a failure.\<close>

definition store_timed :: "Store \<Rightarrow> bool" where
  "store_timed s \<longleftrightarrow> (\<forall>p c cs. GetState s p c = Some cs \<longrightarrow> failing cs \<longrightarrow> FailedSince cs \<noteq> 0)"

lemma store_timed_new: "store_timed (NewStore n)"
  by (simp add: store_timed_def)

lemma fail_switch_timed:
  assumes "t \<noteq> 0" "failing cs \<Longrightarrow> FailedSince cs \<noteq> 0"
  shows "FailedSince (fst (fail_switch th p c t cs)) \<noteq> 0"
  using assms by (cases "State cs") (simp_all add: fail_switch_def failing_def Let_def)

lemma pass_switch_failing: "\<not> failing (fst (pass_switch p c t cs))"
  by (simp add: pass_switch_def failing_def Let_def)

lemma getOrCreate_timed: "store_timed s \<Longrightarrow> failing (snd (getOrCreate p c s)) \<Longrightarrow> FailedSince (snd (getOrCreate p c s)) \<noteq> 0"
  by (auto simp: store_timed_def failing_def new_check_def split: option.splits)

lemma RecordFail_timed:
  assumes "store_timed s" "t \<noteq> 0"
  shows "store_timed (fst (RecordFail t p c s))"
    and "\<exists>cs. GetState (fst (RecordFail t p c s)) p c = Some cs \<and> FailedSince cs \<noteq> 0"
proof -
  let ?cs = "fst (fail_switch (st_threshold s) p c t (snd (getOrCreate p c s)))"
  have w: "fst (RecordFail t p c s) = write_check p c ?cs (fst (getOrCreate p c s))"
    by (simp add: RecordFail_def case_prod_beta Let_def)
  have "FailedSince ?cs \<noteq> 0" by (rule fail_switch_timed [OF assms(2) getOrCreate_timed [OF assms(1)]])
  then show "store_timed (fst (RecordFail t p c s))" "\<exists>cs. GetState (fst (RecordFail t p c s)) p c = Some cs \<and> FailedSince cs \<noteq> 0"
    using assms(1) unfolding w by (auto simp: store_timed_def simp del: getOrCreate_simps(1))
qed

lemma RecordPass_timed:
  assumes "store_timed s"
  shows "store_timed (fst (RecordPass t p c s))"
  using assms pass_switch_failing by (auto simp: RecordPass_def store_timed_def case_prod_beta Let_def simp del: getOrCreate_simps(1))

lemma process_result_timed:
  assumes "store_timed s" "t \<noteq> 0" "cres_FailedSince c = None"
  shows "store_timed (fst (process_result d p t c s))"
    and "cres_FailedSince (fst (snd (process_result d p t c s))) \<noteq> Some 0"
  using assms RecordFail_timed [OF assms(1,2), of p "cres_ID c"] RecordPass_timed [OF assms(1), of t p "cres_ID c"]
  by (auto simp: process_result_eq record_event_def Let_def)

lemma process_loop_timed:
  assumes "store_timed s" "\<And>i. clock i \<noteq> 0" "untimed cs"
  shows "list_all (\<lambda>c. cres_FailedSince c \<noteq> Some 0) (fst (snd (process_loop d p clock i cs s)))"
  using assms(1,3)
proof (induction cs arbitrary: i s)
  case (Cons c cs)
  then show ?case
    using process_result_timed [OF Cons.prems(1) assms(2)] by (simp add: process_loop_step del: process_loop.simps(2))
qed simp

text \<open>A scan at moments after the zero time, on a store of such moments, sets all times of its result.\<close>

lemma processed_timed:
  assumes "store_timed (ss_store st)" "\<And>i. sw_clock w i \<noteq> 0" "in_startedAt input \<noteq> 0" "in_completedAt input \<noteq> 0"
  shows "times_set (result_of w policy (fst (snd (processed s input w ty cks st))))"
  using process_loop_timed [OF assms(1,2) untimed_results] assms(3,4)
  by (simp add: times_set_def processed_def processResults_def result_of_def result_spec_def case_prod_beta Let_def)

end
