(* ===== verification/Login.thy ===== *)
theory Login
  imports Client Widgets
begin

text \<open>
  \<open>ui/src/pages/Login.tsx\<close>: the sign-in form.  Submitting sends the credentials and
  locks the button until the reply; a reply with a token stores it and opens the start
  page, any other outcome shows its error.  The texts of the engine's own exceptions are
  a parameter.
\<close>

record login_form =
  l_username :: string
  l_password :: string
  l_error :: string
  l_loading :: bool

definition init_login :: login_form where
  "init_login = \<lparr>l_username = [], l_password = [], l_error = [], l_loading = False\<rparr>"

text \<open>The message of what a call throws; all of them are instances of \<open>Error\<close>.\<close>

type_synonym engine_texts = "string \<times> string"

primrec error_message :: "engine_texts \<Rightarrow> api_error \<Rightarrow> string" where
  "error_message tx (FetchError m) = m"
| "error_message tx (ApiError m) = m"
| "error_message tx SyntaxError = fst tx"
| "error_message tx TypeError = snd tx"

text \<open>
  \<open>setToken(resp.token)\<close>: reading the property of null throws; storing converts to a
  string, so that an absent token is stored as the text \<open>undefined\<close>.
\<close>

definition stored_token :: "json \<Rightarrow> api_error + string" where
  "stored_token v =
     (if v = JNull then Inl TypeError
      else Inr (case jget ''token'' v of Some t \<Rightarrow> jstring t | None \<Rightarrow> ''undefined''))"

datatype login_event =
    SetUsername string
  | SetPassword string
  | SubmitLogin
  | LoginReply "string + http_response"

definition login_request :: "login_form \<Rightarrow> api_call" where
  "login_request f = login (l_username f) (l_password f)"

text \<open>The two halves of \<open>handleSubmit\<close>, before and after the reply.\<close>

definition submit_login :: "login_form \<Rightarrow> login_form" where
  "submit_login f = f\<lparr>l_error := [], l_loading := True\<rparr>"

definition login_reply ::
  "engine_texts \<Rightarrow> browser \<Rightarrow> login_form \<Rightarrow> string + http_response \<Rightarrow> browser \<times> login_form" where
  "login_reply tx b f outcome =
     (let (b1, res) = receive_response b (fst (login_request f)) outcome;
          tok = (case res of Inl e \<Rightarrow> Inl e | Inr v \<Rightarrow> stored_token v)
      in case tok of
           Inl e \<Rightarrow> (b1, f\<lparr>l_error := error_message tx e, l_loading := False\<rparr>)
         | Inr t \<Rightarrow> ((setToken t b1)\<lparr>location := ''/''\<rparr>, f\<lparr>l_loading := False\<rparr>))"

fun login_step :: "engine_texts \<Rightarrow> browser \<Rightarrow> login_form \<Rightarrow> login_event \<Rightarrow> browser \<times> login_form" where
  "login_step tx b f (SetUsername v) = (b, f\<lparr>l_username := v\<rparr>)"
| "login_step tx b f (SetPassword v) = (b, f\<lparr>l_password := v\<rparr>)"
| "login_step tx b f SubmitLogin = (b, submit_login f)"
| "login_step tx b f (LoginReply r) = login_reply tx b f r"

text \<open>
  Both inputs are required, so the browser submits the form only when they are filled in;
  a form whose submit button is disabled is not submitted by the Enter key either.
\<close>

definition Login_view :: "login_form \<Rightarrow> login_event node" where
  "Login_view f =
     tag ''div''
       [El ''form'' [] (l_loading f \<or> l_username f = [] \<or> l_password f = []) [OnSubmit SubmitLogin]
          ([tag ''div'' [El ''img'' [(''src'', ''/logo.png''), (''alt'', ''DTM''), (''width'', ''58''), (''height'', ''58'')] False [] [], tag ''div'' [Txt ''DTM''], tag ''div'' [Txt ''Drop The Mic'']]] @
           show_if (truthy (l_error f)) [tag ''div'' [Txt (l_error f)]] @
           [tag ''div'' [tag ''label'' [Txt ''Username''],
              El ''input'' [(''type'', ''text''), (''value'', l_username f)] False [OnChange SetUsername] []],
            tag ''div'' [tag ''label'' [Txt ''Password''],
              El ''input'' [(''type'', ''password''), (''value'', l_password f)] False [OnChange SetPassword] []],
            El ''button'' [(''type'', ''submit''), (''cursor'', if l_loading f then ''not-allowed'' else ''pointer''),
                (''opacity'', if l_loading f then ''0.6'' else ''1'')] (l_loading f) []
              [Txt (if l_loading f then ''Signing in...'' else ''Sign In'')]])]"

lemma offers_Login:
  "offers (Login_view f) =
     range SetUsername \<union> range SetPassword
     \<union> (if l_loading f \<or> l_username f = [] \<or> l_password f = [] then {} else {SubmitLogin})"
  by (auto simp: Login_view_def split: if_splits)

definition accepted :: "string + http_response \<Rightarrow> json option" where
  "accepted outcome =
     (case outcome of
        Inr resp \<Rightarrow> if rs_ok resp \<and> rs_json resp \<noteq> Some JNull then rs_json resp else None
      | Inl _ \<Rightarrow> None)"

text \<open>
  a sign-in is accepted exactly for a 2xx reply with a JSON body other than null;
  then its token is stored and the start page opened.  Any other outcome leaves the session
  alone and shows a message.  In both cases the form is unlocked and keeps its inputs.
\<close>

theorem login_outcome:
  "(\<forall>v t. accepted outcome = Some v \<and> jget ''token'' v = Some (JStr t) \<longrightarrow>
      login_reply tx b f outcome = (b\<lparr>token := Some t, location := ''/''\<rparr>, f\<lparr>l_loading := False\<rparr>))
   \<and> (accepted outcome = None \<longrightarrow>
      (\<exists>m. login_reply tx b f outcome = (b, f\<lparr>l_error := m, l_loading := False\<rparr>)))"
  using auth_exempt_calls(1) [of "l_username f" "l_password f"]
  by (auto simp: login_reply_def receive_response_def login_request_def stored_token_def setToken_def
      rs_ok_def accepted_def split: sum.splits option.splits if_splits)

theorem login_outcome_witness:
  "login_reply (''syntax'', ''type'') \<lparr>token = None, location = ''/login''\<rparr> init_login
     (Inr \<lparr>rs_status = 200, rs_statusText = ''OK'', rs_json = Some (JObj [(''token'', JStr ''abc'')])\<rparr>)
   = (\<lparr>token = Some ''abc'', location = ''/''\<rparr>, init_login\<lparr>l_loading := False\<rparr>)"
  using login_outcome [of "Inr \<lparr>rs_status = 200, rs_statusText = ''OK'', rs_json = Some (JObj [(''token'', JStr ''abc'')])\<rparr>"
      "(''syntax'', ''type'')" "\<lparr>token = None, location = ''/login''\<rparr>" init_login]
  by (simp add: accepted_def rs_ok_def)

text \<open>While a sign-in is under way the form cannot be submitted again.\<close>

lemma login_locked: "l_loading f \<Longrightarrow> SubmitLogin \<notin> offers (Login_view f)"
  by (auto simp: offers_Login)

end
