(* ===== verification/App.thy ===== *)
theory App
  imports Login
begin

text \<open>
  \<open>ui/src/App.tsx\<close>: the routes, the guard that lets nobody without a checked token see
  the pages, the navigation bar and the log-out button.  A screen is either the login form
  or the guarded layout; which one is mounted depends on the location.  The routed pages
  and the router's test for the active link are parameters.  Navigation through the
  browser's history and changes of the storage by other tabs are not modelled.
\<close>

section \<open>State\<close>

record guard =
  g_checking :: bool
  g_authenticated :: bool
  g_inflight :: bool

definition init_guard :: guard where
  "init_guard = \<lparr>g_checking = True, g_authenticated = False, g_inflight = False\<rparr>"

datatype screen = LoginScreen login_form | Layout guard

record app =
  ap_browser :: browser
  ap_screen :: screen

definition navItems :: "(string \<times> string) list" where
  "navItems = [(''/'', ''Dashboard''), (''/policies'', ''Policies''), (''/results'', ''Results''), (''/settings'', ''Settings'')]"

section \<open>The guard\<close>

text \<open>The request of the guard does not go through \<open>request\<close>.\<close>

definition guard_request :: "browser \<Rightarrow> http_request" where
  "guard_request b =
     \<lparr>rq_url = ''/api/v1/auth/check'', rq_method = ''GET'',
      rq_headers = [(''Authorization'', ''Bearer '' @ (case getToken b of Some t \<Rightarrow> t | None \<Rightarrow> ''null''))],
      rq_body = None\<rparr>"

text \<open>\<open>navigate('/login', \<dots>)\<close>: the layout is unmounted and the login form mounted.\<close>

definition goto_login :: "browser \<Rightarrow> app" where
  "goto_login b = \<lparr>ap_browser = b\<lparr>location := ''/login''\<rparr>, ap_screen = LoginScreen init_login\<rparr>"

text \<open>The effect of the guard, up to the request; it runs on mount and after navigation.\<close>

definition checkAuth :: "browser \<Rightarrow> guard \<Rightarrow> app" where
  "checkAuth b g =
     (if g_authenticated g then \<lparr>ap_browser = b, ap_screen = Layout g\<rparr>
      else if \<not> isAuthenticated b then goto_login b
      else \<lparr>ap_browser = b, ap_screen = Layout (g\<lparr>g_inflight := True\<rparr>)\<rparr>)"

text \<open>The rest of the effect, with the reply.\<close>

definition auth_reply :: "browser \<Rightarrow> guard \<Rightarrow> string + http_response \<Rightarrow> app" where
  "auth_reply b g outcome =
     (case outcome of
        Inl _ \<Rightarrow> goto_login b
      | Inr resp \<Rightarrow>
          if rs_status resp = 401 then goto_login (b\<lparr>token := None\<rparr>)
          else \<lparr>ap_browser = b,
                ap_screen = Layout (g\<lparr>g_authenticated := True, g_checking := False, g_inflight := False\<rparr>)\<rparr>)"

section \<open>Routes and events\<close>

text \<open>
  How the router compares a location with the path of a route, by its documentation: letter case
  and slashes at the end do not matter.  A location is the path as the router decodes it.
\<close>

definition strip_slashes :: "string \<Rightarrow> string" where
  "strip_slashes s = rev (dropWhile (\<lambda>c. c = CHR ''/'') (rev s))"

definition route_matches :: "string \<Rightarrow> string \<Rightarrow> bool" where
  "route_matches path loc \<longleftrightarrow> toLowerCase (strip_slashes loc) = toLowerCase (strip_slashes path)"

abbreviation login_route :: "string \<Rightarrow> bool" where
  "login_route loc \<equiv> route_matches ''/login'' loc"

text \<open>What a page load, or a change between the two top-level routes, mounts.\<close>

definition mount :: "browser \<Rightarrow> app" where
  "mount b =
     (if login_route (location b) then \<lparr>ap_browser = b, ap_screen = LoginScreen init_login\<rparr>
      else checkAuth b init_guard)"

text \<open>\<open>PageEv\<close> is an action of a page that concerns the page alone.\<close>

datatype 'p app_event =
    LoginEv login_event
  | AuthReply "string + http_response"
  | NavTo string
  | LogoutClick
  | ApiReply string "string + http_response"
  | PageEv 'p

definition login_part :: "engine_texts \<Rightarrow> browser \<Rightarrow> login_form \<Rightarrow> login_event \<Rightarrow> app" where
  "login_part tx b f e =
     (let (b', f') = login_step tx b f e
      in if location b' = location b then \<lparr>ap_browser = b', ap_screen = LoginScreen f'\<rparr> else mount b')"

text \<open>A redirect through \<open>window.location.href\<close> loads the page anew.\<close>

definition api_reply :: "browser \<Rightarrow> guard \<Rightarrow> string \<Rightarrow> string + http_response \<Rightarrow> app" where
  "api_reply b g path outcome =
     (let b' = fst (receive_response b path outcome)
      in if location b' = location b then \<lparr>ap_browser = b', ap_screen = Layout g\<rparr> else mount b')"

definition app_step :: "engine_texts \<Rightarrow> app \<Rightarrow> 'p app_event \<Rightarrow> app" where
  "app_step tx s e =
     (case (ap_screen s, e) of
        (LoginScreen f, LoginEv le) \<Rightarrow> login_part tx (ap_browser s) f le
      | (Layout g, AuthReply outcome) \<Rightarrow> auth_reply (ap_browser s) g outcome
      | (Layout g, NavTo loc) \<Rightarrow> checkAuth ((ap_browser s)\<lparr>location := loc\<rparr>) g
      | (Layout g, LogoutClick) \<Rightarrow> mount (logout (ap_browser s))
      | (Layout g, ApiReply path outcome) \<Rightarrow> api_reply (ap_browser s) g path outcome
      | _ \<Rightarrow> s)"

section \<open>The rendered application\<close>

definition AuthGuard :: "guard \<Rightarrow> 'e node list \<Rightarrow> 'e node list" where
  "AuthGuard g children =
     (if g_checking g then [] else if \<not> g_authenticated g then [] else children)"

definition nav_icon :: "string \<Rightarrow> 'e node" where
  "nav_icon path =
     (if path = ''/'' then IconDashboard no_props else if path = ''/policies'' then IconPolicy no_props
      else if path = ''/results'' then IconResult no_props else IconSettings no_props)"

definition logout_icon :: "'e node" where
  "logout_icon =
     El ''svg'' [(''width'', ''16''), (''height'', ''16''), (''viewBox'', ''0 0 16 16''), (''fill'', ''none''), (''stroke'', ''currentColor''),
         (''strokeWidth'', ''1.5''), (''strokeLinecap'', ''round''), (''strokeLinejoin'', ''round'')] False []
       [shape ''path'' [(''d'', ''M6 14H3.33A1.33 1.33 0 0 1 2 12.67V3.33A1.33 1.33 0 0 1 3.33 2H6'')],
        shape ''polyline'' [(''points'', ''10.67 11.33 14 8 10.67 4.67'')],
        shape ''line'' [(''x1'', ''14''), (''y1'', ''8''), (''x2'', ''6''), (''y2'', ''8'')]]"

lemma offers_nav_icons [simp]: "offers (nav_icon path) = {}" "offers logout_icon = {}"
  by (simp_all add: nav_icon_def logout_icon_def)

definition nav_link :: "(string \<Rightarrow> bool \<Rightarrow> string \<Rightarrow> bool) \<Rightarrow> string \<Rightarrow> string \<times> string \<Rightarrow> 'p app_event node" where
  "nav_link active loc item =
     El ''a''
       [(''href'', fst item),
        (''className'', ''nav-item '' @ (if active (fst item) (fst item = ''/'') loc then ''nav-item--active'' else []))]
       False [OnClick (NavTo (fst item))] [tag ''span'' [nav_icon (fst item)], tag ''span'' [Txt (snd item)]]"

definition AppLayout ::
  "(string \<Rightarrow> bool \<Rightarrow> string \<Rightarrow> bool) \<Rightarrow> (string \<Rightarrow> 'p app_event node list) \<Rightarrow> string \<Rightarrow> guard \<Rightarrow> 'p app_event node list" where
  "AppLayout active page loc g =
     AuthGuard g
       [tag ''div''
          [tag ''nav''
             [tag ''div'' [El ''img'' [(''src'', ''/logo.png''), (''alt'', ''DTM''), (''width'', ''34''), (''height'', ''34'')] False [] [], tag ''div'' [tag ''div'' [Txt ''DTM''], tag ''div'' [Txt ''Drop The Mic'']]],
              tag ''div'' (map (nav_link active loc) navItems),
              tag ''div''
                [El ''button'' [] False [OnClick LogoutClick] [tag ''span'' [logout_icon], tag ''span'' [Txt ''Logout'']],
                 tag ''div'' [Txt ''v0.1.0'']]],
           tag ''main'' (page loc)]]"

definition App_view ::
  "(string \<Rightarrow> bool \<Rightarrow> string \<Rightarrow> bool) \<Rightarrow> (string \<Rightarrow> 'p app_event node list) \<Rightarrow> app \<Rightarrow> 'p app_event node" where
  "App_view active page s =
     tag ''div''
       (case ap_screen s of
          LoginScreen f \<Rightarrow> [embed LoginEv (Login_view f)]
        | Layout g \<Rightarrow> AppLayout active page (location (ap_browser s)) g)"

text \<open>What the network may bring: replies to the requests under way.\<close>

definition app_env :: "app \<Rightarrow> 'p app_event \<Rightarrow> bool" where
  "app_env s e \<longleftrightarrow>
     (case e of
        LoginEv (LoginReply _) \<Rightarrow> (\<exists>f. ap_screen s = LoginScreen f \<and> l_loading f)
      | AuthReply _ \<Rightarrow> (\<exists>g. ap_screen s = Layout g \<and> g_inflight g)
      | ApiReply _ _ \<Rightarrow> (\<exists>g. ap_screen s = Layout g \<and> g_authenticated g)
      | _ \<Rightarrow> False)"

section \<open>Sessions\<close>

text \<open>
  The login form is shown exactly at its route; a layout has a stored token, and it has
  been admitted or its check is under way.
\<close>

definition session_ok :: "app \<Rightarrow> bool" where
  "session_ok s \<longleftrightarrow>
     (case ap_screen s of
        LoginScreen f \<Rightarrow> login_route (location (ap_browser s))
      | Layout g \<Rightarrow> \<not> login_route (location (ap_browser s)) \<and> token (ap_browser s) \<noteq> None
          \<and> (if g_checking g then \<not> g_authenticated g \<and> g_inflight g else g_authenticated g))"

lemma route_self [simp]: "route_matches path path"
  by (simp add: route_matches_def)

lemma pages_not_login [simp]:
  "\<not> login_route ''/''" "\<not> login_route ''/policies''" "\<not> login_route ''/results''" "\<not> login_route ''/settings''"
  by code_simp+

lemma session_ok_simps [simp]:
  "session_ok \<lparr>ap_browser = b, ap_screen = LoginScreen f\<rparr> \<longleftrightarrow> login_route (location b)"
  "session_ok \<lparr>ap_browser = b, ap_screen = Layout g\<rparr> \<longleftrightarrow>
     \<not> login_route (location b) \<and> token b \<noteq> None
     \<and> (if g_checking g then \<not> g_authenticated g \<and> g_inflight g else g_authenticated g)"
  by (simp_all add: session_ok_def)

lemma session_ok_goto_login [simp]: "session_ok (goto_login b)"
  by (simp add: goto_login_def)

lemma session_ok_mount [simp]: "session_ok (mount b)"
  by (auto simp: mount_def checkAuth_def init_guard_def isAuthenticated_def)

lemma login_step_location:
  "fst (login_step tx b f e) = b \<or> (\<exists>t. fst (login_step tx b f e) = b\<lparr>token := Some t, location := ''/''\<rparr>)"
proof (cases e)
  case (LoginReply r)
  then show ?thesis
    using auth_exempt_calls(1) [of "l_username f" "l_password f"]
    by (auto simp: login_reply_def receive_response_def login_request_def setToken_def Let_def
        split: sum.splits option.splits if_splits prod.splits)
qed simp_all

lemma session_ok_login: "login_route (location b) \<Longrightarrow> session_ok (login_part tx b f e)"
  using login_step_location [of tx b f e]
  by (auto simp: login_part_def split: prod.splits)

lemma session_ok_api:
  assumes "session_ok \<lparr>ap_browser = b, ap_screen = Layout g\<rparr>"
  shows "session_ok (api_reply b g path outcome)"
  using assms request_session_cases [of b path outcome]
  by (auto simp: api_reply_def logout_def Let_def)

lemma session_ok_auth:
  assumes "session_ok \<lparr>ap_browser = b, ap_screen = Layout g\<rparr>"
  shows "session_ok (auth_reply b g outcome)"
  using assms by (auto simp: auth_reply_def split: sum.splits)

lemma session_ok_nav:
  assumes "session_ok \<lparr>ap_browser = b, ap_screen = Layout g\<rparr>" "\<not> login_route loc"
  shows "session_ok (checkAuth (b\<lparr>location := loc\<rparr>) g)"
  using assms by (auto simp: checkAuth_def)

lemma session_ok_env: "session_ok s \<Longrightarrow> app_env s e \<Longrightarrow> session_ok (app_step tx s e)"
  by (cases s; cases "ap_screen s"; cases e)
     (auto simp: app_step_def app_env_def intro: session_ok_login session_ok_auth session_ok_api)

text \<open>
  The interface to the routed pages: besides actions of their own they only have links to
  each other.
\<close>

locale routed_pages =
  fixes page :: "string \<Rightarrow> 'p app_event node list"
  assumes page_links: "offers_all (page loc) \<subseteq> NavTo ` fst ` set navItems \<union> range PageEv"
begin

lemma offers_App:
  assumes "e \<in> offers (App_view active page \<lparr>ap_browser = b, ap_screen = sc\<rparr>)"
  shows "case sc of LoginScreen f \<Rightarrow> \<exists>le. e = LoginEv le
     | Layout g \<Rightarrow> \<not> g_checking g \<and> g_authenticated g
         \<and> e \<in> {LogoutClick} \<union> NavTo ` fst ` set navItems \<union> range PageEv"
  using assms page_links [of "location b"]
  by (cases sc) (auto simp: App_view_def AppLayout_def AuthGuard_def nav_link_def split: if_splits)

lemma session_ok_user:
  assumes "session_ok s" "e \<in> offers (App_view active page s)"
  shows "session_ok (app_step tx s e)"
proof (cases s)
  case (fields b sc)
  then show ?thesis
    using offers_App [of e active b sc] assms
    by (cases sc) (auto simp: app_step_def navItems_def intro: session_ok_login intro!: session_ok_nav)
qed

sublocale session: ui_component "App_view active page" "app_step tx" app_env session_ok for active tx
  by unfold_locales (auto intro: session_ok_user session_ok_env)

end

section \<open>Admission\<close>

definition layout_shown :: "app \<Rightarrow> bool" where
  "layout_shown s \<longleftrightarrow> (\<exists>g. ap_screen s = Layout g \<and> \<not> g_checking g \<and> g_authenticated g)"

text \<open>
  the layout and its pages appear only in one way: the guard's check is answered, and not
  by a 401.  No sign-in, navigation or other reply shows them by itself.
\<close>

theorem layout_needs_check:
  assumes "\<not> layout_shown s" "layout_shown (app_step tx s e)"
  shows "\<exists>resp. e = AuthReply (Inr resp) \<and> rs_status resp \<noteq> 401"
proof -
  have m: "\<not> layout_shown (mount b)" for b
    by (simp add: mount_def checkAuth_def goto_login_def init_guard_def layout_shown_def)
  have l: "\<not> layout_shown (goto_login b)" for b by (simp add: goto_login_def layout_shown_def)
  show ?thesis
    using assms m l
    by (cases "ap_screen s"; cases e)
       (auto simp: app_step_def login_part_def auth_reply_def api_reply_def Let_def
          split: prod.splits if_splits sum.splits,
        auto simp: layout_shown_def checkAuth_def goto_login_def split: if_splits)
qed

definition demo_app :: app where
  "demo_app = mount \<lparr>token = Some ''t'', location = ''/''\<rparr>"

theorem layout_needs_check_witness:
  "\<exists>resp. (AuthReply (Inr \<lparr>rs_status = 200, rs_statusText = ''OK'', rs_json = None\<rparr>) :: unit app_event)
      = AuthReply (Inr resp) \<and> rs_status resp \<noteq> 401"
  by (rule layout_needs_check [of demo_app "(''s'', ''t'')"])
     (simp_all add: demo_app_def mount_def checkAuth_def isAuthenticated_def init_guard_def layout_shown_def
        app_step_def auth_reply_def)

text \<open>
  signing out, and every 401 to a call of a page, ends in the empty login form with
  the token gone.
\<close>

theorem session_ends:
  assumes "ap_screen s = Layout g"
    and "e = LogoutClick \<or> (\<exists>path resp. e = ApiReply path (Inr resp) \<and> rs_status resp = 401
          \<and> \<not> startsWith path ''/login'' \<and> \<not> startsWith path ''/auth/'' \<and> location (ap_browser s) \<noteq> ''/login'')"
  shows "app_step tx s e =
     \<lparr>ap_browser = \<lparr>token = None, location = ''/login''\<rparr>, ap_screen = LoginScreen init_login\<rparr>"
  using assms
  by (cases "ap_browser s")
     (auto simp: app_step_def api_reply_def receive_response_def logout_def mount_def Let_def)

theorem session_ends_witness:
  "app_step (''s'', ''t'') demo_app (LogoutClick :: unit app_event) =
     \<lparr>ap_browser = \<lparr>token = None, location = ''/login''\<rparr>, ap_screen = LoginScreen init_login\<rparr>"
  by (rule session_ends [of _ "init_guard\<lparr>g_inflight := True\<rparr>"])
     (simp_all add: demo_app_def mount_def checkAuth_def isAuthenticated_def init_guard_def)

text \<open>
  the guard asks a fixed address: its request goes to the same place as the calls of
  the client only when the configured base of the API is the default one.
\<close>

theorem guard_ignores_base:
  "rq_url (guard_request b) = rq_url (send_request base b (fst authCheck) (snd authCheck))
     \<longleftrightarrow> api_base base = ''/api/v1''"
proof -
  have "rq_url (guard_request b) = ''/api/v1'' @ fst authCheck" by (simp add: guard_request_def authCheck_def)
  then show ?thesis unfolding send_request_def by (simp only: http_request.simps append_same_eq) auto
qed

end
