(* ===== verification/EndToEnd.thy ===== *)
theory EndToEnd
  imports App PolicyForm Server
begin

text \<open>
  The web interface and the API server together.  A session is a run of the application in a
  browser whose calls to \<open>/login\<close> and \<open>/auth/check\<close> are answered by the handlers of the
  server, or lost; the edit of a policy is followed from the dialog to the object that is written
  to the cluster.
\<close>

section \<open>Sessions against the server\<close>

text \<open>A state of a session: the application, and the sign-in request under way.\<close>

type_synonym session = "app \<times> http_request option"

definition sign_in_request :: "app \<Rightarrow> http_request option" where
  "sign_in_request s =
     (case ap_screen s of
        LoginScreen f \<Rightarrow> Some (send_request None (ap_browser s) (fst (login_request f)) (snd (login_request f)))
      | Layout g \<Rightarrow> None)"

inductive session_step ::
  "auth_env \<Rightarrow> engine_texts \<Rightarrow> (app \<Rightarrow> 'p app_event node) \<Rightarrow> session \<Rightarrow> session \<Rightarrow> bool"
  for env tx view where
  user: "e \<in> offers (view s) \<Longrightarrow> e \<noteq> LoginEv SubmitLogin \<Longrightarrow> session_step env tx view (s, q) (app_step tx s e, q)"
| submit: "LoginEv SubmitLogin \<in> offers (view s) \<Longrightarrow>
    session_step env tx view (s, q) (app_step tx s (LoginEv SubmitLogin :: 'p app_event), sign_in_request s)"
| login_answer: "session_step env tx view (s, Some r)
    (app_step tx s (LoginEv (LoginReply (Inr (Login_handler env now r))) :: 'p app_event), None)"
| login_lost: "session_step env tx view (s, Some r) (app_step tx s (LoginEv (LoginReply (Inl m)) :: 'p app_event), None)"
| check_answer: "ap_screen s = Layout g \<Longrightarrow> g_inflight g \<Longrightarrow>
    session_step env tx view (s, q) (app_step tx s (AuthReply (Inr (AuthCheck env now (guard_request (ap_browser s)))) :: 'p app_event), q)"
| check_lost: "ap_screen s = Layout g \<Longrightarrow> g_inflight g \<Longrightarrow>
    session_step env tx view (s, q) (app_step tx s (AuthReply (Inl m) :: 'p app_event), q)"
| reload: "session_step env tx view (s, q) (mount ((ap_browser s)\<lparr>location := loc\<rparr>), None)"

text \<open>
  What holds before the first sign-in succeeds: no token is stored, the login form is shown, and
  a request under way carries non-empty credentials, since the form offers no other.
\<close>

definition signed_out :: "session \<Rightarrow> bool" where
  "signed_out st \<longleftrightarrow>
     token (ap_browser (fst st)) = None \<and> login_route (location (ap_browser (fst st))) \<and> (\<exists>f. ap_screen (fst st) = LoginScreen f)
     \<and> (\<forall>r. snd st = Some r \<longrightarrow> (\<exists>u p. u \<noteq> [] \<and> p \<noteq> [] \<and> rq_body r = o_body (snd (login u p))))"

lemma mount_signed_out: "token b = None \<Longrightarrow> signed_out (mount b, None)"
  by (simp add: signed_out_def mount_def checkAuth_def init_guard_def isAuthenticated_def getToken_def goto_login_def)

lemma login_checks_credentials:
  assumes "rq_body r = o_body (snd (login u p))"
  shows "Login_handler env now r =
     (if u \<noteq> au_user env \<or> p \<noteq> au_pass env then writeError 401 ''invalid credentials''
      else writeJSON 200 (JObj [(''token'', JStr (signJWT \<lparr>jc_Sub = u, jc_Exp = now + 24 * 3600, jc_Iat = now\<rparr> (au_pass env)))]))"
  by (simp add: Login_handler_def assms login_def decode_login_def de_struct_def field_def de_string_def ToLower_def lower_ascii_def)

lemma rejected_stays:
  assumes "rs_status resp = 401" and "ap_screen s = LoginScreen f"
  shows "\<exists>f'. app_step tx s (LoginEv (LoginReply (Inr resp))) = \<lparr>ap_browser = ap_browser s, ap_screen = LoginScreen f'\<rparr>"
  using assms auth_exempt_calls(1) [of "l_username f" "l_password f"]
  by (simp add: app_step_def login_part_def login_reply_def receive_response_def login_request_def rs_ok_def Let_def)

lemma lost_stays:
  assumes "ap_screen s = LoginScreen f"
  shows "\<exists>f'. app_step tx s (LoginEv (LoginReply (Inl m))) = \<lparr>ap_browser = ap_browser s, ap_screen = LoginScreen f'\<rparr>"
  using assms by (simp add: app_step_def login_part_def login_reply_def receive_response_def Let_def)

lemma offers_login_screen:
  "ap_screen s = LoginScreen f \<Longrightarrow> offers (App_view active page s) = LoginEv ` offers (Login_view f)"
  by (simp add: App_view_def)

text \<open>What a step can be when the login form is shown.\<close>

lemma signed_out_user:
  assumes "signed_out (s, q)" "e \<in> offers (App_view active page s)"
  shows "\<exists>f f'. ap_screen s = LoginScreen f
    \<and> app_step tx s e = \<lparr>ap_browser = ap_browser s, ap_screen = LoginScreen f'\<rparr>
    \<and> (e = LoginEv SubmitLogin \<longrightarrow> l_username f \<noteq> [] \<and> l_password f \<noteq> [])"
  using assms
  by (auto simp: signed_out_def offers_login_screen offers_Login app_step_def login_part_def split: if_splits)

lemma signed_out_step:
  fixes page :: "string \<Rightarrow> 'p app_event node list"
  assumes "session_step env tx (App_view active page) st st'" "signed_out st" "au_user env = []" "au_pass env = []"
  shows "signed_out st'"
  using assms
proof (induction rule: session_step.induct)
  case (user e s q)
  then show ?case using signed_out_user [of s q e active page tx] by (auto simp: signed_out_def)
next
  case (submit s q)
  then show ?case using signed_out_user [of s q "LoginEv SubmitLogin" active page tx]
    by (force simp: signed_out_def sign_in_request_def send_request_def login_request_def)
next
  case (login_answer s r now)
  then obtain u p f where "u \<noteq> []" "rq_body r = o_body (snd (login u p))" "ap_screen s = LoginScreen f"
    by (auto simp: signed_out_def)
  with login_answer have "rs_status (Login_handler env now r) = 401"
    by (simp add: login_checks_credentials error_status)
  then obtain f' where "app_step tx s (LoginEv (LoginReply (Inr (Login_handler env now r))) :: 'p app_event) =
      \<lparr>ap_browser = ap_browser s, ap_screen = LoginScreen f'\<rparr>"
    using rejected_stays \<open>ap_screen s = LoginScreen f\<close> by blast
  with login_answer show ?case by (simp add: signed_out_def)
next
  case (login_lost s r m)
  then obtain f where "ap_screen s = LoginScreen f" by (auto simp: signed_out_def)
  then obtain f' where "app_step tx s (LoginEv (LoginReply (Inl m)) :: 'p app_event) =
      \<lparr>ap_browser = ap_browser s, ap_screen = LoginScreen f'\<rparr>"
    using lost_stays by blast
  with login_lost show ?case by (simp add: signed_out_def)
next
  case (reload s q loc)
  then show ?case using mount_signed_out [of "(ap_browser s)\<lparr>location := loc\<rparr>"] by (simp add: signed_out_def)
qed (simp_all add: signed_out_def)

lemma signed_out_run:
  assumes "(session_step env tx (App_view active page))\<^sup>*\<^sup>* st st'" "signed_out st" "au_user env = []" "au_pass env = []"
  shows "signed_out st'"
  using assms by (induction rule: rtranclp_induct) (auto intro: signed_out_step)

text \<open>
  C23: a server without credentials lets every call through, and yet nobody can enter the web
  interface: from a browser without a token, no sequence of inputs, answers and reloads ever
  shows a page other than the login form.
\<close>

theorem open_server_locks_ui:
  assumes "token b = None" and "au_user env = []" and "au_pass env = []"
    and "(session_step env tx (App_view active page))\<^sup>*\<^sup>* (mount b, None) (s, q)"
  shows "token (ap_browser s) = None \<and> (\<exists>f. ap_screen s = LoginScreen f)
    \<and> JWTAuthMiddleware env now h r c = h r c"
  using signed_out_run [OF assms(4) mount_signed_out [OF assms(1)] assms(2,3)] assms(2,3)
  by (auto simp: signed_out_def JWTAuthMiddleware_def)

theorem open_server_locks_ui_witness:
  "\<exists>f. ap_screen (app_step (''s'', ''t'') (mount \<lparr>token = None, location = ''/''\<rparr>) (LoginEv (SetUsername ''me'') :: unit app_event))
     = LoginScreen f"
proof -
  let ?b = "\<lparr>token = None, location = ''/''\<rparr>"
  let ?env = "\<lparr>au_user = [], au_pass = []\<rparr>"
  let ?view = "App_view (\<lambda>_ _ _. False) (\<lambda>_. []) :: app \<Rightarrow> unit app_event node"
  have m: "ap_screen (mount ?b) = LoginScreen init_login"
    by (simp add: mount_def checkAuth_def init_guard_def isAuthenticated_def getToken_def goto_login_def)
  have "LoginEv (SetUsername ''me'') \<in> offers (?view (mount ?b))"
    by (simp add: offers_login_screen [OF m] offers_Login)
  then have "session_step ?env (''s'', ''t'') ?view (mount ?b, None)
      (app_step (''s'', ''t'') (mount ?b) (LoginEv (SetUsername ''me'') :: unit app_event), None)"
    by (rule session_step.user) simp
  then have run: "(session_step ?env (''s'', ''t'') ?view)\<^sup>*\<^sup>* (mount ?b, None)
      (app_step (''s'', ''t'') (mount ?b) (LoginEv (SetUsername ''me'') :: unit app_event), None)" ..
  show ?thesis using open_server_locks_ui [OF _ _ _ run, where h = "\<lambda>r (c :: unit). (c, None)"] by simp
qed

section \<open>Signing in\<close>

text \<open>The application after each step of a sign-in.\<close>

definition login_screen :: "browser \<Rightarrow> login_form \<Rightarrow> app" where
  "login_screen b f = \<lparr>ap_browser = b, ap_screen = LoginScreen f\<rparr>"

lemma login_screen_steps:
  "app_step tx (login_screen b f) (LoginEv (SetUsername v)) = login_screen b (f\<lparr>l_username := v\<rparr>)"
  "app_step tx (login_screen b f) (LoginEv (SetPassword v)) = login_screen b (f\<lparr>l_password := v\<rparr>)"
  "app_step tx (login_screen b f) (LoginEv SubmitLogin) = login_screen b (submit_login f)"
  by (simp_all add: login_screen_def app_step_def login_part_def)

lemma accepted_login_step:
  assumes "login_route (location b)"
  shows "app_step tx (login_screen b f) (LoginEv (LoginReply (Inr (writeJSON 200 (JObj [(''token'', JStr t)])))))
    = \<lparr>ap_browser = \<lparr>token = Some t, location = ''/''\<rparr>, ap_screen = Layout (init_guard\<lparr>g_inflight := True\<rparr>)\<rparr>"
proof -
  have "login_reply tx b f (Inr (writeJSON 200 (JObj [(''token'', JStr t)]))) =
      (b\<lparr>token := Some t, location := ''/''\<rparr>, f\<lparr>l_loading := False\<rparr>)"
    by (simp add: login_reply_def receive_response_def stored_token_def setToken_def writeJSON_def rs_ok_def)
  then show ?thesis using assms
    by (cases b) (auto simp: login_screen_def app_step_def login_part_def mount_def checkAuth_def init_guard_def isAuthenticated_def getToken_def)
qed

text \<open>The pages appear once the check of a valid token is answered.\<close>

lemma checked_token_shows:
  assumes "bearer_valid env now (guard_request \<lparr>token = Some t, location = ''/''\<rparr>)"
  shows "layout_shown (app_step tx \<lparr>ap_browser = \<lparr>token = Some t, location = ''/''\<rparr>, ap_screen = Layout g\<rparr>
    (AuthReply (Inr (AuthCheck env now (guard_request \<lparr>token = Some t, location = ''/''\<rparr>)))))"
  using assms by (simp add: app_step_def auth_reply_def AuthCheck_def status_ok_def writeJSON_def layout_shown_def)

lemma guard_bearer:
  "bearer_valid env now (guard_request \<lparr>token = Some t, location = l\<rparr>) \<longleftrightarrow> \<not> isl (verifyJWT now t (au_pass env))"
  by (simp add: bearer_valid_def guard_request_def getToken_def header_get_def TrimPrefix_def startsWith_def)

lemma issued_token_valid:
  assumes "\<bar>now\<bar> \<le> 2 ^ 52" "now' \<le> now + 24 * 3600"
  shows "\<not> isl (verifyJWT now' (signJWT \<lparr>jc_Sub = u, jc_Exp = now + 24 * 3600, jc_Iat = now\<rparr> k) k)"
proof -
  have "\<bar>now + 86400\<bar> \<le> 2 ^ 53" "\<bar>now\<bar> \<le> 2 ^ 53" using assms(1) by (simp_all add: abs_le_iff)
  then show ?thesis using assms(2) by (simp add: verify_signed sendable_def)
qed

text \<open>
  A sign-in, step by step: the form is filled in and submitted, the server answers at the time
  \<open>now\<close>, and the check of the guard is answered at the time \<open>now'\<close>.
\<close>

definition filled :: "auth_env \<Rightarrow> login_form \<Rightarrow> login_form" where
  "filled env f = f\<lparr>l_username := au_user env, l_password := au_pass env\<rparr>"

definition login_sent :: "auth_env \<Rightarrow> browser \<Rightarrow> login_form \<Rightarrow> http_request" where
  "login_sent env b f = the (sign_in_request (login_screen b (filled env f)))"

definition answered :: "engine_texts \<Rightarrow> auth_env \<Rightarrow> int \<Rightarrow> browser \<Rightarrow> login_form \<Rightarrow> app" where
  "answered tx env now b f =
     app_step tx (login_screen b (submit_login (filled env f)))
       (LoginEv (LoginReply (Inr (Login_handler env now (login_sent env b f)))) :: unit app_event)"

definition admitted :: "engine_texts \<Rightarrow> auth_env \<Rightarrow> int \<Rightarrow> int \<Rightarrow> browser \<Rightarrow> login_form \<Rightarrow> app" where
  "admitted tx env now now' b f =
     app_step tx (answered tx env now b f)
       (AuthReply (Inr (AuthCheck env now' (guard_request (ap_browser (answered tx env now b f))))) :: unit app_event)"

lemma login_sent_request: "sign_in_request (login_screen b (filled env f)) = Some (login_sent env b f)"
  by (simp add: login_sent_def sign_in_request_def login_screen_def)

lemma sign_in_submits:
  fixes page :: "string \<Rightarrow> 'p app_event node list"
  assumes "au_user env \<noteq> []" "au_pass env \<noteq> []" "\<not> l_loading f"
  shows "(session_step env tx (App_view active page))\<^sup>*\<^sup>* (login_screen b f, None)
    (login_screen b (submit_login (filled env f)), Some (login_sent env b f))"
proof -
  let ?step = "session_step env tx (App_view active page)"
  let ?f1 = "f\<lparr>l_username := au_user env\<rparr>"
  have o: "offers (App_view active page (login_screen b g)) = LoginEv ` offers (Login_view g)" for g
    by (simp add: offers_login_screen login_screen_def)
  have "?step (login_screen b f, None) (app_step tx (login_screen b f) (LoginEv (SetUsername (au_user env)) :: 'p app_event), None)"
    by (rule session_step.user) (simp_all add: o offers_Login)
  then have 1: "?step (login_screen b f, None) (login_screen b ?f1, None)" by (simp add: login_screen_steps)
  have "?step (login_screen b ?f1, None) (app_step tx (login_screen b ?f1) (LoginEv (SetPassword (au_pass env)) :: 'p app_event), None)"
    by (rule session_step.user) (simp_all add: o offers_Login)
  then have 2: "?step (login_screen b ?f1, None) (login_screen b (filled env f), None)" by (simp add: login_screen_steps filled_def)
  have "?step (login_screen b (filled env f), None)
      (app_step tx (login_screen b (filled env f)) (LoginEv SubmitLogin :: 'p app_event), sign_in_request (login_screen b (filled env f)))"
    by (rule session_step.submit) (simp add: o offers_Login filled_def assms)
  then have 3: "?step (login_screen b (filled env f), None) (login_screen b (submit_login (filled env f)), Some (login_sent env b f))"
    by (simp add: login_screen_steps login_sent_request)
  from 1 2 3 show ?thesis by (rule converse_rtranclp_into_rtranclp [OF _ converse_rtranclp_into_rtranclp [OF _ r_into_rtranclp]])
qed

lemma sign_in_answered:
  fixes page :: "string \<Rightarrow> 'p app_event node list" and env :: auth_env and now :: int
  assumes "login_route (location b)"
  defines "t \<equiv> signJWT \<lparr>jc_Sub = au_user env, jc_Exp = now + 24 * 3600, jc_Iat = now\<rparr> (au_pass env)"
  shows "answered tx env now b f = \<lparr>ap_browser = \<lparr>token = Some t, location = ''/''\<rparr>, ap_screen = Layout (init_guard\<lparr>g_inflight := True\<rparr>)\<rparr>"
    and "session_step env tx (App_view active page) (login_screen b (submit_login (filled env f)), Some (login_sent env b f)) (answered tx env now b f, None)"
proof -
  have "rq_body (login_sent env b f) = o_body (snd (login (au_user env) (au_pass env)))"
    by (simp add: login_sent_def sign_in_request_def login_screen_def send_request_def login_request_def filled_def)
  then have h: "Login_handler env now (login_sent env b f) = writeJSON 200 (JObj [(''token'', JStr t)])"
    by (simp add: login_checks_credentials t_def)
  show a: "answered tx env now b f = \<lparr>ap_browser = \<lparr>token = Some t, location = ''/''\<rparr>, ap_screen = Layout (init_guard\<lparr>g_inflight := True\<rparr>)\<rparr>"
    unfolding answered_def h by (rule accepted_login_step [OF assms(1)])
  show "session_step env tx (App_view active page) (login_screen b (submit_login (filled env f)), Some (login_sent env b f)) (answered tx env now b f, None)"
    unfolding a
    using session_step.login_answer [of env tx "App_view active page" "login_screen b (submit_login (filled env f))" "login_sent env b f" now]
    by (simp add: h accepted_login_step [OF assms(1)])
qed

lemma sign_in_checked:
  fixes page :: "string \<Rightarrow> 'p app_event node list"
  assumes "login_route (location b)"
  shows "session_step env tx (App_view active page) (answered tx env now b f, None) (admitted tx env now now' b f, None)"
proof -
  have "session_step env tx (App_view active page) (answered tx env now b f, None)
      (app_step tx (answered tx env now b f)
         (AuthReply (Inr (AuthCheck env now' (guard_request (ap_browser (answered tx env now b f))))) :: 'p app_event), None)"
    by (rule session_step.check_answer [where g = "init_guard\<lparr>g_inflight := True\<rparr>"]) (simp_all add: sign_in_answered(1) [OF assms])
  moreover have "app_step tx s (AuthReply rp :: 'p app_event) = app_step tx s (AuthReply rp :: unit app_event)" for s rp
    by (cases "ap_screen s") (simp_all add: app_step_def)
  ultimately show ?thesis by (simp add: admitted_def)
qed

lemma admitted_shown:
  assumes "login_route (location b)" "\<bar>now\<bar> \<le> 2 ^ 52" "now' \<le> now + 24 * 3600"
  shows "layout_shown (admitted tx env now now' b f) \<and> location (ap_browser (admitted tx env now now' b f)) = ''/''"
proof -
  let ?b = "\<lparr>token = Some (signJWT \<lparr>jc_Sub = au_user env, jc_Exp = now + 24 * 3600, jc_Iat = now\<rparr> (au_pass env)), location = ''/''\<rparr>"
  have "bearer_valid env now' (guard_request ?b)"
    unfolding guard_bearer by (rule issued_token_valid [OF assms(2,3)])
  then have "layout_shown (admitted tx env now now' b f)"
    using checked_token_shows by (simp add: admitted_def sign_in_answered(1) [OF assms(1)])
  moreover from this have "location (ap_browser (admitted tx env now now' b f)) = ''/''"
    by (auto simp: admitted_def sign_in_answered(1) [OF assms(1)] app_step_def auth_reply_def goto_login_def layout_shown_def)
  ultimately show ?thesis ..
qed

text \<open>
  C22: signing in works at every time of the server's clock: with credentials configured, entering
  them in the form and submitting it, a login answered at any time \<open>now\<close> and a check answered at any
  time \<open>now'\<close> up to 24 hours later are steps of a session, and they end on the pages.
\<close>

theorem sign_in_reaches_pages:
  fixes page :: "string \<Rightarrow> 'p app_event node list"
  assumes "au_user env \<noteq> []" and "au_pass env \<noteq> []" and "login_route (location b)" and "\<not> l_loading f"
    and "\<bar>now\<bar> \<le> 2 ^ 52" and "now' \<le> now + 24 * 3600"
  shows "(session_step env tx (App_view active page))\<^sup>*\<^sup>* (login_screen b f, None)
      (login_screen b (submit_login (filled env f)), Some (login_sent env b f))
    \<and> session_step env tx (App_view active page) (login_screen b (submit_login (filled env f)), Some (login_sent env b f)) (answered tx env now b f, None)
    \<and> session_step env tx (App_view active page) (answered tx env now b f, None) (admitted tx env now now' b f, None)
    \<and> layout_shown (admitted tx env now now' b f) \<and> location (ap_browser (admitted tx env now now' b f)) = ''/''"
  using sign_in_submits [OF assms(1,2,4)] sign_in_answered(2) [OF assms(3)] sign_in_checked [OF assms(3)] admitted_shown [OF assms(3,5,6)]
  by blast

theorem sign_in_reaches_pages_witness:
  "layout_shown (admitted (''s'', ''t'') demo_auth 1753228800 1753315200 \<lparr>token = None, location = ''/Login/''\<rparr> init_login)"
proof -
  have "login_route (location \<lparr>token = None, location = ''/Login/''\<rparr>)" by (simp, code_simp)
  moreover have "au_user demo_auth \<noteq> []" "au_pass demo_auth \<noteq> []" "\<not> l_loading init_login"
    by (simp_all add: demo_auth_def init_login_def)
  ultimately show ?thesis
    using sign_in_reaches_pages [of demo_auth "\<lparr>token = None, location = ''/Login/''\<rparr>" init_login 1753228800 1753315200 "(''s'', ''t'')"
        "\<lambda>_ _ _. False" "\<lambda>_. [] :: unit app_event node list"] by simp
qed

section \<open>An edit on its way to the cluster\<close>

text \<open>What the update of an unchanged edit leaves of a policy.\<close>

definition edited_spec :: "ChecklistPolicySpec \<Rightarrow> ChecklistPolicySpec" where
  "edited_spec s =
     s\<lparr>ps_LLM := (ps_LLM s)\<lparr>llm_SecretRef := (llm_SecretRef (ps_LLM s))\<lparr>sec_Key := []\<rparr>\<rparr>,
       ps_Notification := None, ps_EscalationThreshold := None\<rparr>"

lemma decode_form_check: "decode_check (json_of_check c) = Some \<lparr>ci_ID = ci_id c, ci_Description = ci_description c, ci_Severity = ci_severity c\<rparr>"
  by (simp add: json_of_check_def decode_check_def codec_simps)

lemma decode_form_schedule:
  "decode_schedule (json_of_schedule s) =
     Some \<lparr>sch_FullScan = fullScan s, sch_FailedRescan = (case failedRescan s of None \<Rightarrow> [] | Some r \<Rightarrow> r)\<rparr>"
  by (cases "failedRescan s") (simp_all add: json_of_schedule_def decode_schedule_def codec_simps)

lemma decode_form_llm:
  "decode_llm (json_of_llm l) =
     Some \<lparr>llm_Provider = provider l, llm_Model = (case model l of None \<Rightarrow> [] | Some m \<Rightarrow> m),
       llm_SecretRef = \<lparr>sec_Name = sr_name (secretRef l), sec_Key = (case sr_key (secretRef l) of None \<Rightarrow> [] | Some k \<Rightarrow> k)\<rparr>\<rparr>"
  by (cases "model l"; cases "sr_key (secretRef l)")
    (simp_all add: json_of_llm_def json_of_secretRef_def decode_llm_def decode_secret_def codec_simps)

lemma decode_form_checks:
  "de_all decode_check (map json_of_check cs) =
     Some (map (\<lambda>c. \<lparr>ci_ID = ci_id c, ci_Description = ci_description c, ci_Severity = ci_severity c\<rparr>) cs)"
  by (rule de_all_map) (rule decode_form_check)

lemma case_str_opt: "(case Option.bind v str_opt of None \<Rightarrow> [] | Some r \<Rightarrow> r) = (case v of None \<Rightarrow> [] | Some r \<Rightarrow> r)"
  by (cases v) (auto simp: str_opt_def)

lemma spec_fields:
  "field ''schedule'' fs = json_of_schedule (schedule s) \<and> field ''llm'' fs = json_of_llm (llm s)
   \<and> field ''checks'' fs = JArr (map json_of_check (checks s))
   \<and> field ''targetNamespaces'' fs = (case targetNamespaces s of None \<Rightarrow> JNull | Some ns \<Rightarrow> JArr (map JStr ns))
   \<and> field ''notification'' fs = (case notification s of None \<Rightarrow> JNull | Some v \<Rightarrow> v)
   \<and> field ''escalationThreshold'' fs = (case escalationThreshold s of None \<Rightarrow> JNull | Some v \<Rightarrow> JNum v)"
  if "json_of_spec s = JObj fs"
proof -
  have fs: "fs = (case json_of_spec s of JObj fs \<Rightarrow> fs)" by (simp add: that)
  show ?thesis unfolding fs
  by (cases "targetNamespaces s"; cases "notification s"; cases "escalationThreshold s")
    (simp_all add: json_of_spec_def field_def ToLower_def lower_ascii_def)
qed

lemma decode_namespaces:
  "de_list de_string (case v of None \<Rightarrow> JNull | Some ns \<Rightarrow> JArr (map JStr ns)) = Some (case v of None \<Rightarrow> [] | Some ns \<Rightarrow> ns)"
  by (cases v) (simp_all add: de_list_def)

lemma decode_form_spec:
  "decode_spec (json_of_spec s) = do {
     n \<leftarrow> de_ptr decode_notification (case notification s of None \<Rightarrow> JNull | Some v \<Rightarrow> v);
     e \<leftarrow> de_ptr de_int32 (case escalationThreshold s of None \<Rightarrow> JNull | Some v \<Rightarrow> JNum v);
     Some \<lparr>ps_Schedule = \<lparr>sch_FullScan = fullScan (schedule s), sch_FailedRescan = (case failedRescan (schedule s) of None \<Rightarrow> [] | Some r \<Rightarrow> r)\<rparr>,
       ps_LLM = \<lparr>llm_Provider = provider (llm s), llm_Model = (case model (llm s) of None \<Rightarrow> [] | Some m \<Rightarrow> m),
         llm_SecretRef = \<lparr>sec_Name = sr_name (secretRef (llm s)),
           sec_Key = (case sr_key (secretRef (llm s)) of None \<Rightarrow> [] | Some k \<Rightarrow> k)\<rparr>\<rparr>,
       ps_Checks = map (\<lambda>c. \<lparr>ci_ID = ci_id c, ci_Description = ci_description c, ci_Severity = ci_severity c\<rparr>) (checks s),
       ps_TargetNamespaces = (case targetNamespaces s of None \<Rightarrow> [] | Some ns \<Rightarrow> ns),
       ps_Notification = n, ps_EscalationThreshold = e\<rparr>}"
proof -
  obtain fs where js: "json_of_spec s = JObj fs" by (simp add: json_of_spec_def)
  show ?thesis
    unfolding js decode_spec_def de_struct_def json.case
    by (simp only: spec_fields [OF js] decode_form_schedule decode_form_llm decode_namespaces Option.bind.bind_lunit)
       (simp add: de_list_def decode_form_checks)
qed

lemma decode_resent:
  assumes "decode_spec (json_of_spec s) = Some d"
  shows "decode_spec (json_of_spec (resent_spec s)) = Some (edited_spec d)"
  using assms unfolding decode_form_spec
  by (cases "targetNamespaces s"; cases "the (targetNamespaces s)")
     (auto simp: resent_spec_def edited_spec_def case_str_opt de_ptr_def bind_eq_Some_conv)

lemma UpdatePolicy_stores:
  assumes "k_getPolicy (sv_k8s sv) c key = Inr e" "Option.bind (rq_body r) decode_spec = Some d"
  shows "fst (UpdatePolicy sv key r c) = fst (k_updatePolicy (sv_k8s sv) (e\<lparr>cp_Spec := d\<rparr>) c)"
  using assms by (simp add: UpdatePolicy_def split: prod.splits sum.splits)

lemma granted_request:
  assumes "au_user (sv_auth sv) = [] \<and> au_pass (sv_auth sv) = [] \<or> bearer_valid (sv_auth sv) now r" "rq_method r \<noteq> ''OPTIONS''"
    and "parse_target (rq_url r) \<noteq> None"
  shows "serve sv now r c = serve_mux sv now r c"
  using assms by (auto simp: serve_def corsMiddleware_def JWTAuthMiddleware_def Let_def)

lemma unchanged_edit_written:
  assumes "fx_editPolicy x = Some p" "fx_open x" "\<not> f_initialized f"
    and "truthy (trim (m_name (p_metadata p)))" "checks (p_spec p) \<noteq> []" "list_all valid_check (checks (p_spec p))"
    and key: "plain_segment (m_namespace (p_metadata p))" "plain_segment (m_name (p_metadata p))"
    and stored: "k_getPolicy (sv_k8s sv) c (m_namespace (p_metadata p), m_name (p_metadata p)) = Inr e"
    and shown: "decode_spec (json_of_spec (p_spec p)) = Some (cp_Spec e)"
    and granted: "\<And>path opts. au_user (sv_auth sv) = [] \<and> au_pass (sv_auth sv) = [] \<or> bearer_valid (sv_auth sv) now (send_request None b path opts)"
  shows "\<exists>m. handleSubmit x (form_render x f) = Some m
    \<and> fst (serve sv now (send_request None b (fst (mutation_call (form_render x f) m)) (snd (mutation_call (form_render x f) m))) c)
      = fst (k_updatePolicy (sv_k8s sv) (e\<lparr>cp_Spec := edited_spec (cp_Spec e)\<rparr>) c)"
proof -
  let ?spec = "resent_spec (p_spec p)"
  let ?call = "updatePolicy (m_namespace (p_metadata p)) (m_name (p_metadata p)) ?spec"
  let ?r = "send_request None b (fst ?call) (snd ?call)"
  note s = unchanged_submit [OF assms(1-6)]
  have call: "mutation_call (form_render x f) (UpdateMut ?spec) = ?call" by (simp add: s(2,3))
  have put: "rq_method ?r \<noteq> ''OPTIONS''" by (simp add: send_request_def updatePolicy_def)
  have rq: "rq_method ?r = o_method (snd ?call)" "rq_url ?r = ''/api/v1'' @ fst ?call"
    by (simp_all add: send_request_def api_base_def opt_or_str_def)
  note routed = object_calls(2) [OF key, of ?spec]
  have "parse_target (rq_url ?r) \<noteq> None" unfolding rq(2) by (rule routed_parses) (simp add: routed)
  then have "serve sv now ?r c = serve_mux sv now ?r c" by (rule granted_request [OF granted put])
  also have "\<dots> = handle sv now (call_route ?call) ?r c" unfolding serve_mux_def call_route_eq rq ..
  finally have route: "serve sv now ?r c = UpdatePolicy sv (m_namespace (p_metadata p), m_name (p_metadata p)) ?r c"
    by (simp add: routed)
  have "Option.bind (rq_body ?r) decode_spec = Some (edited_spec (cp_Spec e))"
    using decode_resent [OF shown] by (simp add: send_request_def updatePolicy_def)
  then have "fst (serve sv now ?r c) = fst (k_updatePolicy (sv_k8s sv) (e\<lparr>cp_Spec := edited_spec (cp_Spec e)\<rparr>) c)"
    unfolding route by (rule UpdatePolicy_stores [OF stored])
  then show ?thesis using s(1) call by auto
qed

text \<open>
  C5: opening a policy in the edit dialog and saving it without a change makes the server write
  the policy back without its notification settings, its escalation threshold and the key in its
  secret; everything else of it is written as it was.
\<close>

theorem unchanged_edit_erases:
  assumes "fx_editPolicy x = Some p" "fx_open x" "\<not> f_initialized f"
    and "truthy (trim (m_name (p_metadata p)))" "checks (p_spec p) \<noteq> []" "list_all valid_check (checks (p_spec p))"
    and key: "plain_segment (m_namespace (p_metadata p))" "plain_segment (m_name (p_metadata p))"
    and stored: "k_getPolicy (sv_k8s sv) c (m_namespace (p_metadata p), m_name (p_metadata p)) = Inr e"
    and shown: "decode_spec (json_of_spec (p_spec p)) = Some (cp_Spec e)"
    and granted: "\<And>path opts. au_user (sv_auth sv) = [] \<and> au_pass (sv_auth sv) = [] \<or> bearer_valid (sv_auth sv) now (send_request None b path opts)"
  shows "\<exists>m. handleSubmit x (form_render x f) = Some m
    \<and> fst (serve sv now (send_request None b (fst (mutation_call (form_render x f) m)) (snd (mutation_call (form_render x f) m))) c)
      = fst (k_updatePolicy (sv_k8s sv) (e\<lparr>cp_Spec := edited_spec (cp_Spec e)\<rparr>) c)"
  using assms by (rule unchanged_edit_written)

definition one_policy :: "ChecklistPolicyV1 k8s" where
  "one_policy = \<lparr>k_listPolicies = (\<lambda>c n. Inr [c]),
     k_getPolicy = (\<lambda>c k. if k = (cp_Namespace c, cp_Name c) then Inr c else Inl (NotFound [])),
     k_createPolicy = (\<lambda>p c. (c, Inl (Failure []))), k_updatePolicy = (\<lambda>p c. (p, Inr p)),
     k_deletePolicy = (\<lambda>k c. (c, Some (Failure []))), k_listResults = (\<lambda>c n p. Inr []), k_getResult = (\<lambda>c k. Inl (NotFound [])),
     k_getConfigMap = (\<lambda>c k. Inl (NotFound [])), k_createConfigMap = (\<lambda>k d c. (c, Some (Failure []))),
     k_updateConfigMap = (\<lambda>k d c. (c, Some (Failure []))), k_listNamespaces = (\<lambda>c. Inr []), k_listDeployments = (\<lambda>c n. Inr []),
     k_listStatefulSets = (\<lambda>c n. Inr []), k_listDaemonSets = (\<lambda>c n. Inr [])\<rparr>"

definition stored_policy :: ChecklistPolicyV1 where
  "stored_policy =
     \<lparr>cp_Meta = \<lparr>om_Name = ''prod'', om_Namespace = ''dtm-system'', om_UID = [], om_Generation = 1, om_Labels = [], om_Annotations = [],
        om_OwnerReferences = [], om_Finalizers = [], om_DeletionTimestamp = None\<rparr>,
      cp_Spec = \<lparr>ps_Schedule = \<lparr>sch_FullScan = ''0 * * * *'', sch_FailedRescan = []\<rparr>,
        ps_LLM = \<lparr>llm_Provider = ''claude'', llm_Model = [], llm_SecretRef = \<lparr>sec_Name = ''s'', sec_Key = ''token''\<rparr>\<rparr>,
        ps_Checks = [\<lparr>ci_ID = ''pods'', ci_Description = ''all pods run'', ci_Severity = ''critical''\<rparr>],
        ps_TargetNamespaces = [],
        ps_Notification = Some \<lparr>nc_Slack = Some \<lparr>sl_Channel = [], sl_SecretRef = \<lparr>sec_Name = [], sec_Key = []\<rparr>\<rparr>, nc_GitHub = None, nc_Jira = None\<rparr>,
        ps_EscalationThreshold = Some 3\<rparr>,
      cp_Status = \<lparr>pst_LastFullScanTime = None, pst_LastRescanTime = None, pst_LastResultName = [], pst_Summary = None,
        pst_Conditions = []\<rparr>\<rparr>"

lemma stored_policy_shown: "decode_spec (json_of_spec (p_spec demo_policy)) = Some (cp_Spec stored_policy)"
  by (simp add: decode_form_spec demo_policy_def stored_policy_def de_ptr_def decode_notification_def decode_slack_def
      decode_secret_def codec_simps de_int32_def)

lemma demo_policy_key: "plain_segment (m_namespace (p_metadata demo_policy))" "plain_segment (m_name (p_metadata demo_policy))"
proof -
  have "m_namespace (p_metadata demo_policy) = ''dtm-system''" "m_name (p_metadata demo_policy) = ''prod''" by (simp_all add: demo_policy_def)
  moreover have "plain_segment ''dtm-system''" "plain_segment ''prod''" by code_simp+
  ultimately show "plain_segment (m_namespace (p_metadata demo_policy))" "plain_segment (m_name (p_metadata demo_policy))" by simp_all
qed

theorem unchanged_edit_erases_witness:
  "ps_EscalationThreshold (cp_Spec stored_policy) = Some 3 \<and>
   (\<exists>m. handleSubmit (demo_ctx (Some demo_policy)) (form_render (demo_ctx (Some demo_policy)) init_form) = Some m
     \<and> ps_EscalationThreshold (cp_Spec (fst (serve ((demo_server one_policy)\<lparr>sv_auth := \<lparr>au_user = [], au_pass = []\<rparr>\<rparr>) 0
           (send_request None \<lparr>token = None, location = ''/policies''\<rparr>
             (fst (mutation_call (form_render (demo_ctx (Some demo_policy)) init_form) m))
             (snd (mutation_call (form_render (demo_ctx (Some demo_policy)) init_form) m))) stored_policy))) = None)"
proof -
  let ?x = "demo_ctx (Some demo_policy)"
  let ?sv = "(demo_server one_policy)\<lparr>sv_auth := \<lparr>au_user = [], au_pass = []\<rparr>\<rparr>"
  have k: "k_updatePolicy (sv_k8s ?sv) q c = (q, Inr q)" for q c by (simp add: demo_server_def one_policy_def)
  have "\<exists>m. handleSubmit ?x (form_render ?x init_form) = Some m
    \<and> fst (serve ?sv 0 (send_request None \<lparr>token = None, location = ''/policies''\<rparr> (fst (mutation_call (form_render ?x init_form) m))
        (snd (mutation_call (form_render ?x init_form) m))) stored_policy)
      = fst (k_updatePolicy (sv_k8s ?sv) (stored_policy\<lparr>cp_Spec := edited_spec (cp_Spec stored_policy)\<rparr>) stored_policy)"
  proof (rule unchanged_edit_erases [where p = demo_policy])
    show "k_getPolicy (sv_k8s ?sv) stored_policy (m_namespace (p_metadata demo_policy), m_name (p_metadata demo_policy)) = Inr stored_policy"
      by (simp add: demo_server_def one_policy_def demo_policy_def stored_policy_def)
    show "plain_segment (m_namespace (p_metadata demo_policy))" "plain_segment (m_name (p_metadata demo_policy))"
      by (simp_all add: demo_policy_key)
    show "checks (p_spec demo_policy) \<noteq> []" by (simp add: demo_policy_def)
    show "fx_editPolicy ?x = Some demo_policy" "fx_open ?x" "\<not> f_initialized init_form"
      by (simp_all add: demo_ctx_def init_form_def)
  qed (use demo_policy_valid stored_policy_shown in simp_all)
  moreover have "ps_EscalationThreshold (cp_Spec stored_policy) = Some 3" by (simp add: stored_policy_def)
  ultimately show ?thesis unfolding k by (auto simp: edited_spec_def)
qed

end
