(* ===== verification/Integration.thy ===== *)
theory Integration
  imports EndToEnd Operator
begin










end
