(* ===== verification/Observed.thy ===== *)
theory Observed
  imports Timing Integration
begin

text \<open>
  What the pages see of the operator: the list calls of the client are followed through the
  server to the records that the pages work on, and what the results page says of a result is
  compared with what the operator recorded.
\<close>

section \<open>The list calls\<close>

definition allowed :: "'c server \<Rightarrow> int \<Rightarrow> browser \<Rightarrow> bool" where
  "allowed sv now b \<longleftrightarrow>
     (\<forall>path opts. au_user (sv_auth sv) = [] \<and> au_pass (sv_auth sv) = []
        \<or> bearer_valid (sv_auth sv) now (send_request None b path opts))"

definition call_request :: "browser \<Rightarrow> api_call \<Rightarrow> http_request" where
  "call_request b call = send_request None b (fst call) (snd call)"

lemma call_served:
  assumes "allowed sv now b" "o_method (snd call) \<noteq> ''OPTIONS''" "call_route call \<noteq> RUI"
  shows "serve sv now (call_request b call) c = handle sv now (call_route call) (call_request b call) c"
proof -
  have "rq_method (call_request b call) = o_method (snd call)" "rq_url (call_request b call) = ''/api/v1'' @ fst call"
    by (simp_all add: call_request_def send_request_def api_base_def opt_or_str_def)
  moreover from this have "parse_target (rq_url (call_request b call)) \<noteq> None" using routed_parses [OF assms(3)] by simp
  ultimately show ?thesis
    using assms granted_request [of sv now "call_request b call" c]
    by (auto simp: allowed_def call_request_def serve_mux_def call_route_eq)
qed

lemma call_url: "rq_url (call_request b call) = ''/api/v1'' @ fst call"
  by (simp add: call_request_def send_request_def api_base_def opt_or_str_def)

lemma answer_received: "receive_response b path (Inr (writeJSON 200 v)) = (b, Inr v)"
  by (simp add: receive_response_def writeJSON_def rs_ok_def)

lemma list_get: "o_method (snd (listResults ns p)) \<noteq> ''OPTIONS''" "o_method (snd (listPolicies ns)) \<noteq> ''OPTIONS''"
  by (simp_all add: listResults_def listPolicies_def no_options_def Let_def)

text \<open>
  C12: the results page gets what the operator recorded: the call for the results of a namespace and
  a policy is answered with the results the cluster holds for exactly these, and the client
  reads each of them with the checks, verdicts, counts, tool calls and times of the object.  What
  the Kubernetes types must provide: times are written in RFC 3339, and the metadata of an object
  with a name and a namespace, as stored results are, has them and its creation time.
\<close>

theorem results_shown:
  assumes "wire_times (sv_wire sv)" "meta_read (sv_meta sv) born" "allowed sv now b"
    and "\<forall>s. ns = Some s \<longrightarrow> ascii s" "\<forall>s. p = Some s \<longrightarrow> ascii s"
    and items: "k_listResults (sv_k8s sv) c (nonempty (given ns)) (nonempty (given p)) = Inr items" "list_all times_set items"
      "list_all (\<lambda>r. named_object (cr_Meta r)) items"
  shows "\<exists>resp v. serve sv now (call_request b (listResults ns p)) c = (c, Some resp)
    \<and> receive_response b (fst (listResults ns p)) (Inr resp) = (b, Inr v)
    \<and> as_list read_result v = Some (map (shown_result (sv_wire sv) born) items)"
proof -
  let ?v = "JArr (map (encode_result (sv_wire sv) (sv_meta sv)) items)"
  have "serve sv now (call_request b (listResults ns p)) c = (c, Some (writeJSON 200 ?v))"
    using result_filter_read [OF assms(4,5)] items(1)
    by (simp add: call_served [OF assms(3) list_get(1)] result_call ListResults_def call_url)
  moreover have "as_list read_result ?v = Some (map (shown_result (sv_wire sv) born) items)"
    using items(2,3) by (simp, intro de_all_map read_encoded_result [OF assms(1,2)]) (simp_all add: list_all_iff)
  ultimately show ?thesis using answer_received by blast
qed

text \<open>A policy as the client has it stands for the specification that is stored.\<close>

lemma shown_str_read: "(case shown_str s of None \<Rightarrow> [] | Some t \<Rightarrow> t) = s"
  by (simp add: shown_str_def)

lemma shown_items_stand: "map (\<lambda>x. \<lparr>ci_ID = ci_ID x, ci_Description = ci_Description x, ci_Severity = ci_Severity x\<rparr>) cs = cs"
  by (induction cs) simp_all

lemma shown_spec_stands: "decode_spec (json_of_spec (shown_spec s)) = Some s"
  unfolding decode_form_spec
  by (cases s; cases "ps_Notification s"; cases "ps_EscalationThreshold s"; cases "ps_TargetNamespaces s")
    (simp_all add: shown_spec_def shown_secret_def shown_item_def shown_str_read shown_list_def de_ptr_def comp_def shown_items_stand)

text \<open>
  C13: the policies page gets what is stored: the list call is answered with all policies of the
  cluster, the client reads each with its specification and its status, conditions included, and
  sending a specification back as it was read would store the same one.  What the Kubernetes types
  must provide is what they document: the form of times, of conditions and of the metadata of named
  objects; the policies have severities, which the resource definition defaults, and set times.
\<close>

theorem policies_shown:
  assumes "wire_times (sv_wire sv)" "wire_conditions (sv_wire sv)" "meta_read (sv_meta sv) born" "allowed sv now b"
    and items: "k_listPolicies (sv_k8s sv) c None = Inr items" "list_all (\<lambda>e. named_object (cp_Meta e)) items"
      "list_all severities_set items" "list_all (\<lambda>e. status_timed (cp_Status e)) items"
  shows "\<exists>resp v. serve sv now (call_request b (listPolicies None)) c = (c, Some resp)
    \<and> receive_response b (fst (listPolicies None)) (Inr resp) = (b, Inr v)
    \<and> as_list read_policy v = Some (map (shown_policy born) items)
    \<and> list_all (\<lambda>e. decode_spec (json_of_spec (p_spec (shown_policy born e))) = Some (cp_Spec e)) items"
proof -
  let ?v = "JArr (map (encode_policy sv) items)"
  have "query_get (''/api/v1'' @ fst (listPolicies None)) ''namespace'' = []"
    by (simp add: listPolicies_def query_get_def url_query_def query_pair_def)
  then have "serve sv now (call_request b (listPolicies None)) c = (c, Some (writeJSON 200 ?v))"
    using items(1) by (simp add: call_served [OF assms(4) list_get(2)] query_calls ListPolicies_def call_url nonempty_def)
  moreover have "as_list read_policy ?v = Some (map (shown_policy born) items)"
    using items(2-4) by (simp, intro de_all_map read_encoded_policy [OF assms(1-3)]) (simp_all add: list_all_iff)
  moreover have "list_all (\<lambda>e. decode_spec (json_of_spec (p_spec (shown_policy born e))) = Some (cp_Spec e)) items"
    by (simp add: list_all_iff shown_policy_def shown_spec_stands)
  ultimately show ?thesis using answer_received by blast
qed

section \<open>The verdict filter\<close>

lemma with_verdict_pos: "0 < with_verdict v rs \<longleftrightarrow> (\<exists>c \<in> set rs. cres_Verdict c = v)"
  by (auto simp: with_verdict_def filter_empty_conv)

lemma shown_counts:
  assumes "result_ok policy r" "length (rs_Checks (cr_Spec r)) < 2 ^ 31"
  shows "\<exists>u. r_summary (r_spec (shown_result W born r)) = Some u
    \<and> (s_warn u > 0 \<longleftrightarrow> (\<exists>c \<in> set (rs_Checks (cr_Spec r)). cres_Verdict c = VerdictWarn)) \<and> 0 \<le> s_warn u
    \<and> (s_fail u > 0 \<longleftrightarrow> (\<exists>c \<in> set (rs_Checks (cr_Spec r)). cres_Verdict c = VerdictFail)) \<and> 0 \<le> s_fail u"
  using assms(1) summary_counts [OF assms(2)] with_verdict_pos [of _ "rs_Checks (cr_Spec r)"]
  by (simp add: shown_result_def shown_summary_def result_ok_def)

lemma reachable_result_ok:
  assumes "sys_step\<^sup>*\<^sup>* (c0, start_system) (c, sy)" "r \<in> set (created (sy_log sy))"
  obtains p where "result_ok p r"
  using reachable_sys_ok [OF assms(1)] assms(2) by (auto simp: sys_ok_def)

lemma shown_verdicts:
  assumes "sys_step\<^sup>*\<^sup>* (c0, start_system) (c, sy)" and "r \<in> set (created (sy_log sy))"
    and "length (rs_Checks (cr_Spec r)) < 2 ^ 31"
  shows "(matches_verdict ''FAIL'' (shown_result W born r) \<longleftrightarrow> list_ex (\<lambda>c. cres_Verdict c = ''FAIL'') (rs_Checks (cr_Spec r)))
    \<and> (matches_verdict ''WARN'' (shown_result W born r) \<longleftrightarrow>
         list_ex (\<lambda>c. cres_Verdict c = ''WARN'') (rs_Checks (cr_Spec r)) \<and> \<not> list_ex (\<lambda>c. cres_Verdict c = ''FAIL'') (rs_Checks (cr_Spec r)))
    \<and> (matches_verdict ''PASS'' (shown_result W born r) \<longleftrightarrow> list_all (\<lambda>c. cres_Verdict c = ''PASS'') (rs_Checks (cr_Spec r)))"
proof -
  obtain p where p: "result_ok p r" using reachable_result_ok [OF assms(1,2)] .
  have proper: "list_all (\<lambda>c. cres_Verdict c \<in> {''PASS'', ''WARN'', ''FAIL''}) (rs_Checks (cr_Spec r))"
    using p by (simp add: result_ok_def proper_def VerdictPass_def VerdictWarn_def VerdictFail_def)
  obtain u where u: "r_summary (r_spec (shown_result W born r)) = Some u" "0 \<le> s_warn u" "0 \<le> s_fail u"
    and warn: "s_warn u > 0 \<longleftrightarrow> list_ex (\<lambda>c. cres_Verdict c = ''WARN'') (rs_Checks (cr_Spec r))"
    and fail: "s_fail u > 0 \<longleftrightarrow> list_ex (\<lambda>c. cres_Verdict c = ''FAIL'') (rs_Checks (cr_Spec r))"
    using shown_counts [OF p assms(3), of W born] by (auto simp: VerdictWarn_def VerdictFail_def list_ex_iff)
  have "list_all (\<lambda>c. cres_Verdict c = ''PASS'') (rs_Checks (cr_Spec r)) \<longleftrightarrow>
      \<not> list_ex (\<lambda>c. cres_Verdict c = ''WARN'') (rs_Checks (cr_Spec r)) \<and> \<not> list_ex (\<lambda>c. cres_Verdict c = ''FAIL'') (rs_Checks (cr_Spec r))"
    using proper by (fastforce simp: list_all_iff list_ex_iff)
  then show ?thesis using u(2,3) by (auto simp: matches_verdict_def u(1) simp flip: warn fail)
qed

text \<open>
  C11: the verdict filter of the results page tells the truth about the operator: of the results
  the operator ever writes, as the client reads them from the server's JSON, the page lists under
  FAIL exactly those with a failing check, under WARN those without one that have a warning, and
  under PASS those whose checks all pass, which are also the results without any check.
\<close>

theorem verdict_filter_truth:
  assumes "sys_step\<^sup>*\<^sup>* (c0, start_system) (c, sy)" and "r \<in> set (created (sy_log sy))"
    and "length (rs_Checks (cr_Spec r)) < 2 ^ 31"
    and "wire_times W" "meta_read meta born" "times_set r" "named_object (cr_Meta r)"
  shows "\<exists>u. read_result (encode_result W meta r) = Some u
    \<and> (matches_verdict ''FAIL'' u \<longleftrightarrow> list_ex (\<lambda>c. cres_Verdict c = ''FAIL'') (rs_Checks (cr_Spec r)))
    \<and> (matches_verdict ''WARN'' u \<longleftrightarrow>
         list_ex (\<lambda>c. cres_Verdict c = ''WARN'') (rs_Checks (cr_Spec r)) \<and> \<not> list_ex (\<lambda>c. cres_Verdict c = ''FAIL'') (rs_Checks (cr_Spec r)))
    \<and> (matches_verdict ''PASS'' u \<longleftrightarrow> list_all (\<lambda>c. cres_Verdict c = ''PASS'') (rs_Checks (cr_Spec r)))"
  unfolding read_encoded_result [OF assms(4-7)] using shown_verdicts [OF assms(1-3), of W born] by blast

section \<open>Durations\<close>

lemma secs_range:
  assumes "0 \<le> (t :: int)" "t < 315537897600 * 10 ^ 9"
  shows "0 \<le> t div 1000000000" "t div 1000000000 < 315537897600"
proof -
  show "0 \<le> t div 1000000000" using assms(1) by (simp add: pos_imp_zdiv_nonneg_iff)
  have "1000000000 * (t div 1000000000) \<le> t" by (simp add: mult_div_mod_eq minus_mod_eq_mult_div [symmetric])
  then have "1000000000 * (t div 1000000000) < 1000000000 * 315537897600" using assms(2) by simp
  then show "t div 1000000000 < 315537897600" by (simp only: mult_less_cancel_left_pos zero_less_numeral)
qed

lemma shown_time_read:
  assumes "0 \<le> t" "t < 315537897600 * 10 ^ 9"
  shows "iso_time (shown_time t) = Some (1000 * Unix t)"
  unfolding shown_time_def using secs_range [OF assms] by (intro rfc3339_read) (simp_all add: Unix_def)

lemma shown_time_truthy: "0 \<le> t \<Longrightarrow> t < 315537897600 * 10 ^ 9 \<Longrightarrow> truthy (shown_time t)"
  using shown_time_read [of t] by (cases "shown_time t") (simp_all add: iso_time_def num_at_def)

lemma shown_duration:
  assumes "0 \<le> rs_StartedAt (cr_Spec r)" "rs_StartedAt (cr_Spec r) \<le> e" "e < 315537897600 * 10 ^ 9"
    and "rs_CompletedAt (cr_Spec r) = Some e"
  shows "scan_duration iso_time (shown_result W born r) =
    (let secs = e div 10 ^ 9 - rs_StartedAt (cr_Spec r) div 10 ^ 9
     in if secs < 60 then dec secs @ ''s'' else dec (secs div 60) @ ''m '' @ dec (secs mod 60) @ ''s'')"
proof -
  define secs where "secs = e div 10 ^ 9 - rs_StartedAt (cr_Spec r) div 10 ^ 9"
  have b: "rs_StartedAt (cr_Spec r) < 315537897600 * 10 ^ 9" "0 \<le> e" using assms(1-3) by linarith+
  note times = shown_time_read [OF assms(1) b(1)] shown_time_read [OF b(2) assms(3)]
    shown_time_truthy [OF assms(1) b(1)] shown_time_truthy [OF b(2) assms(3)]
  have ms: "1000 * Unix e - 1000 * Unix (rs_StartedAt (cr_Spec r)) = 1000 * secs" by (simp add: Unix_def secs_def)
  have range: "0 \<le> secs" "secs < 315537897600"
    using secs_range [OF assms(1) b(1)] secs_range [OF b(2) assms(3)] zdiv_mono1 [OF assms(2), of "10 ^ 9"] by (simp_all add: secs_def)
  have "scan_duration iso_time (shown_result W born r) = formatDuration (Some (1000 * secs))"
    using times by (simp add: scan_duration_def shown_result_def assms(4) ms)
  also have "\<dots> = (if secs < 60 then dec secs @ ''s'' else dec (secs div 60) @ ''m '' @ dec (secs mod 60) @ ''s'')"
    using range zdiv_zmult2_eq [of 60 "1000 * secs" 1000] by (subst formatDuration_eq) simp_all
  finally show ?thesis unfolding Let_def secs_def .
qed

text \<open>
  C14: the duration on the results page is the whole number of seconds between the seconds in which
  the scan began and ended, for all times of the years 1 to 9999: the time zone of the browser, the
  layout of the times and their parts below a second do not change it.
\<close>

theorem duration_shown:
  assumes "wire_times W" "meta_read meta born" "times_set r" "named_object (cr_Meta r)"
    and "0 \<le> rs_StartedAt (cr_Spec r)" "rs_StartedAt (cr_Spec r) \<le> e" "e < 315537897600 * 10 ^ 9"
    and "rs_CompletedAt (cr_Spec r) = Some e"
  shows "\<exists>u. read_result (encode_result W meta r) = Some u \<and> scan_duration iso_time u =
    (let secs = e div 10 ^ 9 - rs_StartedAt (cr_Spec r) div 10 ^ 9
     in if secs < 60 then dec secs @ ''s'' else dec (secs div 60) @ ''m '' @ dec (secs mod 60) @ ''s'')"
  unfolding read_encoded_result [OF assms(1-4)] using shown_duration [OF assms(5-8), of W born] by blast

section \<open>A concrete server\<close>

definition demo_born :: "ObjectMetaV1 \<Rightarrow> string" where
  "demo_born m = ''2026-01-01T00:00:00Z''"

definition demo_meta :: "ObjectMetaV1 \<Rightarrow> json" where
  "demo_meta m = JObj [(''name'', JStr (om_Name m)), (''namespace'', JStr (om_Namespace m)), (''creationTimestamp'', JStr (demo_born m))]"

text \<open>A scan of 90 seconds with one failing check, on 1 January 2026.\<close>

definition demo_resultV1 :: ChecklistResultV1 where
  "demo_resultV1 =
     \<lparr>cr_Meta = cp_Meta stored_policy,
      cr_Spec = \<lparr>rs_PolicyRef = ''prod'', rs_ScanType = ScanTypeFull, rs_StartedAt = 63902822400 * 10 ^ 9 + 7,
        rs_CompletedAt = Some (63902822490 * 10 ^ 9),
        rs_Checks = [\<lparr>cres_ID = ''pods'', cres_Description = ''all pods run'', cres_Verdict = VerdictFail, cres_Reasoning = ''x'',
          cres_Evidence = Some [\<lparr>tcr_ToolName = ''get_pods'', tcr_Input = ''{}'', tcr_Output = ''[]''\<rparr>],
          cres_FailedSince = Some (63902822400 * 10 ^ 9), cres_Severity = ''critical''\<rparr>],
        rs_Summary = Some \<lparr>sum_Total = 1, sum_Pass = 0, sum_Warn = 0, sum_Fail = 1\<rparr>\<rparr>,
      cr_Phase = ''Completed''\<rparr>"

text \<open>A policy after a scan, with its times, its counts and the conditions of the status.\<close>

definition scanned_policy :: ChecklistPolicyV1 where
  "scanned_policy = stored_policy\<lparr>cp_Status := \<lparr>pst_LastFullScanTime = Some (63902822490 * 10 ^ 9), pst_LastRescanTime = None,
     pst_LastResultName = ''prod-full-20260101-000000'', pst_Summary = Some \<lparr>sum_Total = 1, sum_Pass = 0, sum_Warn = 0, sum_Fail = 1\<rparr>,
     pst_Conditions = [\<lparr>cond_Type = ''Ready'', cond_Status = ''True'', cond_Reason = ''ScanCompleted'', cond_Message = ''x'',
       cond_LastTransitionTime = 63902822490 * 10 ^ 9\<rparr>]\<rparr>\<rparr>"

definition shown_server :: "unit server" where
  "shown_server = (demo_server \<lparr>k_listPolicies = (\<lambda>c n. Inr [scanned_policy]), k_getPolicy = (\<lambda>c k. Inl (NotFound [])),
     k_createPolicy = (\<lambda>p c. (c, Inl (Failure []))), k_updatePolicy = (\<lambda>p c. (c, Inl (Failure []))),
     k_deletePolicy = (\<lambda>k c. (c, Some (NotFound []))), k_listResults = (\<lambda>c n p. Inr (if p = Some ''prod'' then [demo_resultV1] else [])),
     k_getResult = (\<lambda>c k. Inl (NotFound [])), k_getConfigMap = (\<lambda>c k. Inl (NotFound [])),
     k_createConfigMap = (\<lambda>k d c. (c, None)), k_updateConfigMap = (\<lambda>k d c. (c, None)), k_listNamespaces = (\<lambda>c. Inr []),
     k_listDeployments = (\<lambda>c n. Inr []), k_listStatefulSets = (\<lambda>c n. Inr []), k_listDaemonSets = (\<lambda>c n. Inr [])\<rparr>)
     \<lparr>sv_auth := \<lparr>au_user = [], au_pass = []\<rparr>, sv_meta := demo_meta\<rparr>"

lemma shown_server_simps:
  "wire_times (sv_wire shown_server)" "meta_read (sv_meta shown_server) demo_born" "allowed shown_server now b"
  "k_listPolicies (sv_k8s shown_server) c None = Inr [scanned_policy]"
  "k_listResults (sv_k8s shown_server) c n (Some ''prod'') = Inr [demo_resultV1]" "wire_conditions (sv_wire shown_server)"
  by (simp_all add: shown_server_def demo_server_def demo_wire_def wire_times_def wire_conditions_def meta_read_def demo_meta_def allowed_def)

theorem results_shown_witness:
  "\<exists>resp v. serve shown_server 0 (call_request \<lparr>token = None, location = ''/results''\<rparr> (listResults None (Some ''prod''))) () = ((), Some resp)
    \<and> receive_response \<lparr>token = None, location = ''/results''\<rparr> (fst (listResults None (Some ''prod''))) (Inr resp)
        = (\<lparr>token = None, location = ''/results''\<rparr>, Inr v)
    \<and> as_list read_result v = Some [shown_result (sv_wire shown_server) demo_born demo_resultV1]"
proof -
  have "ascii ''prod''" "list_all times_set [demo_resultV1]" "list_all (\<lambda>r. named_object (cr_Meta r)) [demo_resultV1]"
    by (simp_all add: ascii_def times_set_def demo_resultV1_def named_object_def stored_policy_def)
  then show ?thesis
    using results_shown [OF shown_server_simps(1-3), of None "Some ''prod''" "()" "[demo_resultV1]" 0 "\<lparr>token = None, location = ''/results''\<rparr>"]
    by (simp add: given_def nonempty_def shown_server_simps)
qed

theorem policies_shown_witness:
  "\<exists>resp v. serve shown_server 0 (call_request \<lparr>token = None, location = ''/policies''\<rparr> (listPolicies None)) () = ((), Some resp)
    \<and> receive_response \<lparr>token = None, location = ''/policies''\<rparr> (fst (listPolicies None)) (Inr resp)
        = (\<lparr>token = None, location = ''/policies''\<rparr>, Inr v)
    \<and> as_list read_policy v = Some [shown_policy demo_born scanned_policy]
    \<and> map_option (map_option (map c_type) \<circ> conditions) (p_status (shown_policy demo_born scanned_policy)) = Some (Some [''Ready''])"
proof -
  have items: "list_all (\<lambda>e. named_object (cp_Meta e)) [scanned_policy]" "list_all severities_set [scanned_policy]"
    "list_all (\<lambda>e. status_timed (cp_Status e)) [scanned_policy]"
    by (simp_all add: severities_set_def status_timed_def named_object_def scanned_policy_def stored_policy_def)
  have "p_status (shown_policy demo_born scanned_policy) = shown_status (cp_Status scanned_policy)" by (simp add: shown_policy_def)
  moreover have "map_option (map_option (map c_type) \<circ> conditions) (shown_status (cp_Status scanned_policy)) = Some (Some [''Ready''])"
    by (simp add: scanned_policy_def shown_status_def zero_status_def shown_list_def shown_condition_def)
  ultimately show ?thesis
    using policies_shown [OF shown_server_simps(1,6,2,3) shown_server_simps(4) items, of 0 "\<lparr>token = None, location = ''/policies''\<rparr>" "()"]
    by auto
qed

lemma demo_wire_times: "wire_times demo_wire" "meta_read demo_meta demo_born" "times_set demo_resultV1" "named_object (cr_Meta demo_resultV1)"
  by (simp_all add: demo_wire_def wire_times_def meta_read_def demo_meta_def times_set_def demo_resultV1_def named_object_def stored_policy_def)

theorem verdict_filter_truth_witness:
  "\<exists>r u. length (rs_Checks (cr_Spec r)) = 2 \<and> read_result (encode_result demo_wire demo_meta r) = Some u
     \<and> (matches_verdict ''FAIL'' u \<longleftrightarrow> list_ex (\<lambda>c. cres_Verdict c = ''FAIL'') (rs_Checks (cr_Spec r)))"
proof -
  obtain sy r where r: "sys_step\<^sup>*\<^sup>* (settled_policy, start_system) (settled_policy, sy)" "r \<in> set (created (sy_log sy))"
    "rs_PolicyRef (cr_Spec r) = ''p''" "length (rs_Checks (cr_Spec r)) = 2"
    and scan: "\<exists>s input ty cks st. r = result_of demo_world settled_policy (fst (snd (processed s input demo_world ty cks st)))
       \<and> ss_store st = NewStore 5 \<and> in_startedAt input = 1 \<and> in_completedAt input = 2"
    by (rule demo_executed)
  obtain s input ty cks st where sc: "r = result_of demo_world settled_policy (fst (snd (processed s input demo_world ty cks st)))"
    "ss_store st = NewStore 5" "in_startedAt input = 1" "in_completedAt input = 2"
    using scan by (elim exE conjE)
  have "times_set r" unfolding sc(1) by (rule processed_timed) (simp_all add: sc(2-4) store_timed_new demo_world_def)
  moreover have "named_object (cr_Meta r)"
    by (simp add: sc(1) named_object_def result_of_def GenerateResultName_def ToLower_def settled_policy_def with_meta_def demo_policyV1_def)
  ultimately show ?thesis using verdict_filter_truth [OF r(1,2) _ demo_wire_times(1,2)] r(4) by (intro exI [of _ r]) auto
qed

theorem duration_shown_witness:
  "\<exists>u. read_result (encode_result demo_wire demo_meta demo_resultV1) = Some u \<and> scan_duration iso_time u = ''1m 30s''"
proof -
  have dec: "dec 1 = ''1''" "dec 30 = ''30''" by code_simp+
  show ?thesis
    using duration_shown [OF demo_wire_times, of "63902822490 * 10 ^ 9"] by (simp add: demo_resultV1_def dec Let_def)
qed

end
