(* ===== verification/Spec2Isabelle.thy ===== *)
theory Spec2Isabelle
  imports Policies Dashboard Settings Toast Tooltip IconFrames Observed
begin

text \<open>
  \<^bold>\<open>Drop The Mic (DTM)\<close> verifies a Kubernetes cluster against checklists in plain
  language.  A policy (\<open>ChecklistPolicy\<close>) holds checks, a schedule and the access to a
  language model.  An operator written in Go (\<open>operator/\<close>) schedules scans of each policy,
  asks the language model about the checks, which inspects the cluster through tools, keeps an
  alert state for every check, notifies Slack, GitHub and Jira, and stores results
  (\<open>ChecklistResult\<close>).  An API server in Go (\<open>operator/server\<close>) gives access to policies,
  results and settings, and a web interface in TypeScript with React (\<open>ui/src\<close>) uses it.  This
  development models all three and puts them together.

  \<^bold>\<open>How the web interface is modelled.\<close>  A component is a record of its state variables (with
  the data of its queries), a function from events to new states (and the effects a handler asks
  for: calls, messages, invalidated queries), and a function from the state to the rendered
  tree.  The tree (\<open>Prelude\<close>) has the elements, texts, \<open>disabled\<close> flags and event
  handlers of the JSX; \<open>offers\<close> is the set of events the user can raise in it.
  \<open>ui_reach\<close> is the set of states reachable by offered events and by events of the
  environment (replies, timers, refreshes).

  \<^bold>\<open>How the Go code is modelled.\<close>  Functions become functions on records of the same fields;
  errors are values of a sum or option type, \<open>int32\<close> is a 32-bit word, a loop over a Go map
  takes its order as an argument.  Methods under a lock are atomic.  Schedulers, which the
  controller and the cron jobs share, live in a heap and are known by their index; reconciliations,
  jobs that fire and changes of the cluster are the steps of \<open>op_step\<close> (\<open>Controller\<close>), scans
  that are carried out, also cancelled ones, are the further steps of \<open>sys_step\<close>
  (\<open>Operator\<close>).  The effects of one scan on engine and store form one step.

  \<^bold>\<open>The theories of the web interface\<close>, in the order of dependence:
  \<^item> \<open>Prelude\<close>: trees, offered events, reachability, tables with independent keys.
  \<^item> \<open>JsLib\<close>: strings, decimal numbers and \<open>parseInt\<close>, stable sorting, \<open>Set\<close>,
    \<open>slice\<close>.  \<open>Doubles\<close>: IEEE double arithmetic on rationals (rounding \<open>fl\<close>, to 53
    bits, ties to even), with the facts that \<open>Math.floor\<close> and \<open>Math.ceil\<close> of a quotient
    of integers are exact, and bounds for rounding errors.
  \<^item> \<open>Json\<close>, \<open>JsonText\<close>, \<open>JsonRound\<close>: JSON values, \<open>JSON.stringify\<close>,
    \<open>JSON.parse\<close>, and that parsing reads back what is printed, by the browser and by Go.  The
    parser's fuel, two calls for each character, is enough: more fuel never changes a result
    (\<open>pval_enough_fuel\<close>).
  \<^item> \<open>Format\<close> (\<open>utils/format.ts\<close>): \<open>timeAgo\<close> and \<open>formatDuration\<close> agree with
    integer arithmetic.  \<open>GoTime\<close>: dates and the layout RFC 3339 of Go's package \<open>time\<close>, and
    that \<open>Date\<close> in the browser reads such a text as the same instant (\<open>rfc3339_read\<close>).
  \<^item> \<open>Client\<close> (\<open>api/client.ts\<close>): the token, \<open>request\<close> with all its outcomes, the
    calls and their bodies; when a session ends, when a call succeeds, which error is seen.
  \<^item> \<open>Icons\<close> (\<open>Icons.tsx\<close>): the drawings.  \<open>IconFrames\<close>: the points of their shapes and
    paths, and which of them lie within the frame.
  \<^item> \<open>Widgets\<close> (\<open>Badge\<close>, \<open>Card\<close>, \<open>Button\<close>, \<open>EmptyState\<close>, \<open>FormField\<close>,
    \<open>Modal\<close>, \<open>ErrorBoundary\<close>), \<open>Toast\<close>, \<open>Combobox\<close>, \<open>Tooltip\<close>
    (\<open>HelpTooltip.tsx\<close>), \<open>HealthRing\<close>: the components; how long toasts live, what a
    combobox can select, where a tooltip is, what the ring draws.
  \<^item> \<open>PolicyForm\<close> and \<open>Policies\<close> (\<open>pages/Policies.tsx\<close>): the form that creates and edits
    policies, and the list and detail view around it; what is submitted, to which policy, and
    that a deletion needs a confirmation.
  \<^item> \<open>Results\<close>, \<open>Dashboard\<close>, \<open>Settings\<close>, \<open>Login\<close> (the other pages): sorting,
    filters and pages of results; totals and latest scans; loading and saving settings in both
    modes; the outcome of a sign-in.
  \<^item> \<open>App\<close> (\<open>App.tsx\<close>): the guard, the routes and the navigation bar; this theory puts the
    modelled pages in their place and shows that the application guards its session.

  \<^bold>\<open>The theories of the operator and the server\<close>:
  \<^item> \<open>Resources\<close> (\<open>operator/api/v1alpha1\<close>): the resource types and the defaults of
    the resource definition.  \<open>GoLib\<close>, \<open>GoJson\<close>, \<open>GoUrl\<close>, \<open>Sha256\<close>: what the code uses of Go's
    \<open>strings\<close>, \<open>fmt\<close>, \<open>encoding/json\<close>, \<open>net/url\<close> (the decoded and the escaped path of a
    request, and that the one is made of the decoded segments of the other), \<open>crypto/sha256\<close> and
    \<open>crypto/hmac\<close>.
  \<^item> \<open>AlertStore\<close> (\<open>internal/state/store.go\<close>): the alert state machine.  It implements the
    specification \<open>alert_spec\<close> of a history of verdicts, its transitions form one path for each
    check, and escalation comes at the failure after the threshold.
  \<^item> \<open>Engine\<close> (\<open>internal/engine\<close> with \<open>tool/registry.go\<close>, \<open>tool/cache.go\<close>,
    \<open>llm/adapter.go\<close>): a scan answers every check, in one request for five checks; answered tool
    calls are not repeated; what is reused when the snapshot is unchanged.
  \<^item> \<open>Tools\<close> (the seven tools of \<open>internal/engine/tool\<close>): their texts, and that the snapshot
    sees only pods and nodes.  \<open>Claude\<close> (\<open>llm/claude.go\<close>): the conversation with the model,
    its evidence, its limit of ten rounds and the reading of verdicts.
  \<^item> \<open>Scheduler\<close> (\<open>internal/scheduler/scheduler.go\<close>, \<open>notify/notifier.go\<close>): full scans
    and rescans; alerts follow verdicts, notifications are the transitions, what the status says.
    \<open>Notify\<close> (\<open>slack.go\<close>, \<open>github.go\<close>, \<open>jira.go\<close>): the requests of the notifiers.
  \<^item> \<open>Controller\<close> (\<open>internal/controller\<close>, \<open>Start\<close> and \<open>Stop\<close> of the scheduler):
    \<open>Reconcile\<close>; never two running schedulers for a policy, none for a deleted one, errors,
    run-now marks, which scans a stop cancels.  \<open>Convergence\<close>: three reconciliations without
    an error reach the scheduled state, through failing updates and a cache that lags behind, and
    later ones stay there.
  \<^item> \<open>Operator\<close> (\<open>cmd/main.go\<close>'s one store for all): the whole operator; every result it
    writes is proper, and a cancelled scan fails every check.
  \<^item> \<open>Auth\<close>, \<open>Codec\<close>, \<open>ResultCodec\<close>, \<open>Server\<close> (\<open>operator/server\<close>): tokens, the JSON of
    policies, results and status from the tags of the resource types, the routes and handlers; nothing is answered without a token when credentials are set,
    however the path is escaped, every call of the client reaches its handler, settings and filters arrive as they were sent.
  \<^item> \<open>EndToEnd\<close>: the web interface against the server, from sign-in to the pages, and from the
    edit dialog to the stored policy.  \<open>Integration\<close>: from the edit dialog to the notifications
    of the operator.
  \<^item> \<open>Reading\<close>: the interfaces of \<open>client.ts\<close> as readings of JSON, and that they read what the
    server writes.  \<open>Timing\<close>: the times in results are those the clock showed.  \<open>Observed\<close>: the results and policies that the operator and the cluster hold are
    what the pages get from the list calls; the verdict filter and the durations of the results page
    say what the operator recorded.

  \<^bold>\<open>Interfaces.\<close>  \<open>ui_component\<close> turns an invariant of single steps of a component into one of
    all reachable states (interpreted for toasts, combobox, tooltip, policy form, results page);
    \<open>routed_pages\<close> extends it to the application around any pages.  \<open>keyed_table\<close> reduces runs
    on a table to runs on one key (the alert store); \<open>scan_invariant\<close> and \<open>proper_adapter\<close> are
    the contracts of what a scan does to its cache and of a language model's verdicts (the cache;
    the Claude adapter); \<open>json_printer\<close> is what a printer of strings owes the parser (browser and
    Go); \<open>operator_invariant\<close> is an invariant under all events of the operator (the table of
    schedulers, the contexts of scans), and \<open>scheduler_property\<close> gives one for what each
    scheduler keeps (its engine and adapter).

  \<^bold>\<open>Properties that report defects.\<close>  Most theorems say that the code does what it is meant to
  do; some prove what it does instead: an edit drops fields of a policy and with them its
  notifications, a second edit reverts the first, generated check ids repeat, toasts are kept alive
  by new ones, a page of results goes stale, saving the settings form drops other parts, a refresh
  overwrites typed text, the guard ignores the configured base address, a disabled multiple choice
  can be emptied, the interface cannot be entered when authentication is off, alerts are shared by
  policies of one name, an outage and a cancelled scan count as failures, a reconciliation forgets
  all verdicts, changes of events are not noticed, a stop leaves an older scan running, a run-now
  mark can be lost, only one of three offered providers works, the tip of an icon is cut off.

  \<^bold>\<open>Conventions and limits.\<close>
  \<^item> Strings are lists of code units below 256, in Go of bytes; typographic characters of labels
    are written in ASCII.  Upper and lower case are modelled on ASCII letters.
  \<^item> Counts, lengths and times of the interface are integers; where the code divides or multiplies,
    the result is rounded as a double.  The model of doubles has no overflow or underflow, which the
    values here do not reach.
  \<^item> Parameters of the interface: \<open>fetch\<close>, the query library (its reports are events of the
    environment), \<open>js-yaml\<close>, the router's test for the active link, \<open>Date\<close> parsing and
    \<open>toLocaleString\<close>, the current time, layout rectangles, the decimal text of fractional
    numbers, the texts of the engine's own exceptions.
  \<^item> Parameters of the Go code: the Kubernetes client on a cluster state of any type, the clientset
    of the tools, the service of the language model, the network of the notifiers, the parser of
    cron expressions, \<open>meta.SetStatusCondition\<close>, the JSON that the Kubernetes types write of
    themselves (metadata, times, conditions, raw values: the record \<open>wire\<close>), clocks, time formats
    in local time, the order of Go maps, the texts of decoding errors, the environment variables.  Where a theorem needs one of them to
    behave, the hypothesis has a name (\<open>sets_conditions\<close>, \<open>live_updates\<close>, \<open>wire_times\<close>,
    \<open>wire_conditions\<close>, \<open>meta_read\<close>).
  \<^item> Routes of the web interface are compared as the router documents it, without regard to case and
    final slashes.  The requests of the server have ordinary targets, which begin with a slash; the
    addresses of the client are those the browser sends as they stand.
  \<^item> JSON numbers are integers of at most $2^{53}$; a text with other numbers is \<open>Beyond\<close> the
    model.  Objects keep the insertion order of their properties.
  \<^item> Conversations with a language model end after ten rounds because the code counts them, and the
    limit is proved from both sides; no other fuel is used in the model of the operator.

  \<^bold>\<open>Not modelled.\<close>  Constant styles of the pages; the entry point \<open>main.tsx\<close>, which only mounts
  the application, and the build configuration; navigation through the browser's history and other tabs that change the storage;
  the flags and the manager in \<open>cmd/main.go\<close>, the work queue of the controller (any order of
  reconciliations is allowed instead), overlapping changes of one engine by two scans; the JSON of
  object metadata, which is a parameter of the server; generated deep copies.
  The error boundary around the routed pages is transparent as long as nothing throws and does not
  appear in the layout's tree.
\<close>

section \<open>The application as a whole\<close>

text \<open>
  The pages behind the routes, in their current states, as the application embeds them: an
  event of a page is an action of its own, except the links of the dashboard, which navigate.
\<close>

datatype page_event =
    PolicyPage policies_event
  | ResultPage results_event
  | SettingsPage settings_event

record page_states =
  ps_dashboard :: dashboard
  ps_policies :: policies_page
  ps_results :: results_page
  ps_settings :: settings_page

primrec dashboard_link :: "dashboard_event \<Rightarrow> page_event app_event" where
  "dashboard_link (Navigate to) = NavTo to"

definition routed_page ::
  "clock_env \<Rightarrow> (rat \<Rightarrow> string) \<Rightarrow> (json \<Rightarrow> string) \<Rightarrow> page_states \<Rightarrow> string \<Rightarrow> page_event app_event node list" where
  "routed_page ce num yaml_dump st loc =
     (if route_matches ''/'' loc then [embed dashboard_link (Dashboard_view ce num (ps_dashboard st))]
      else if route_matches ''/policies'' loc then
        [embed (PageEv \<circ> PolicyPage) (Policies_view yaml_dump (ce_date ce) (ce_now ce) (ps_policies st))]
      else if route_matches ''/results'' loc then [embed (PageEv \<circ> ResultPage) (Results_view ce (ps_results st))]
      else if route_matches ''/settings'' loc then [embed (PageEv \<circ> SettingsPage) (Settings_view (ps_settings st))]
      else [])"

interpretation dtm: routed_pages "routed_page ce num yaml_dump st" for ce num yaml_dump st
proof
  fix loc
  show "offers_all (routed_page ce num yaml_dump st loc) \<subseteq> NavTo ` fst ` set navItems \<union> range PageEv"
    using dashboard_links [of ce num "ps_dashboard st"]
    by (auto simp: routed_page_def navItems_def split: if_splits)
qed

text \<open>
  C17: in every reachable state of the application, with its pages in any state, the login form
  is shown exactly at its own route, in whatever case it is written and with or without slashes at
  the end; the guarded layout is mounted only while a token is
  stored, and it has either been admitted or waits for the answer to its check, so that an
  empty screen is never the end.
\<close>

theorem session_guarded:
  assumes "ui_reach (App_view active (routed_page ce num yaml_dump st)) (app_step tx) app_env (mount b) s"
  shows "(case ap_screen s of
            LoginScreen f \<Rightarrow> login_route (location (ap_browser s))
          | Layout g \<Rightarrow> \<not> login_route (location (ap_browser s)) \<and> token (ap_browser s) \<noteq> None
              \<and> (layout_shown s \<or> g_inflight g))"
proof -
  have "session_ok s" using assms by (rule dtm.session.reach_inv) simp
  then show ?thesis by (auto simp: session_ok_def layout_shown_def split: screen.splits if_splits)
qed

definition demo_pages :: page_states where
  "demo_pages =
     \<lparr>ps_dashboard = \<lparr>db_policies = None, db_loadingPolicies = True, db_results = None, db_loadingResults = True\<rparr>,
      ps_policies = demo_page, ps_results = init_results None, ps_settings = init_settings\<rparr>"

theorem session_guarded_witness:
  "token (ap_browser (app_step (''s'', ''t'') demo_app
     (AuthReply (Inr \<lparr>rs_status = 200, rs_statusText = ''OK'', rs_json = None\<rparr>) :: page_event app_event))) \<noteq> None"
proof -
  let ?e = "AuthReply (Inr \<lparr>rs_status = 200, rs_statusText = ''OK'', rs_json = None\<rparr>) :: page_event app_event"
  let ?view = "App_view (\<lambda>a b c. False) (routed_page demo_clock (\<lambda>_. []) (\<lambda>_. []) demo_pages)"
  have "app_env demo_app ?e"
    by (simp add: app_env_def demo_app_def mount_def checkAuth_def isAuthenticated_def init_guard_def)
  then have r: "ui_reach ?view (app_step (''s'', ''t'')) app_env (mount \<lparr>token = Some ''t'', location = ''/''\<rparr>)
      (app_step (''s'', ''t'') demo_app ?e)"
    unfolding demo_app_def by (rule ui_env [OF ui_start])
  have "\<exists>g. ap_screen (app_step (''s'', ''t'') demo_app ?e) = Layout g"
    by (simp add: app_step_def demo_app_def mount_def checkAuth_def isAuthenticated_def init_guard_def auth_reply_def)
  with session_guarded [OF r] show ?thesis by auto
qed

end
